(* ===== verification/Swap_Prelude.thy ===== *)
theory Swap_Prelude
  imports Main "HOL-Library.Word" "HOL-Library.Monad_Syntax"
begin

text \<open>
  Shared vocabulary of the development: the machine types of the C sources, byte-level
  encodings of integers (little endian for structures in memory, big endian for SCSI command
  blocks), bounded memory copies and the list facts the components use.

  A C function that can only return a value is a total HOL function. A C function that can
  dereference a null or freed pointer or run over a buffer returns an option, and
  \<open>None\<close> is that fault (a kernel oops), so that the absence of faults is something to prove.
\<close>

unbundle bit_operations_syntax

type_synonym byte = "8 word"
type_synonym u16 = "16 word"
type_synonym u32 = "32 word"
type_synonym u64 = "64 word"
type_synonym sector_t = "64 word"

named_theorems mem_simps \<open>bounded memory copies\<close>
named_theorems layout_simps \<open>constants of the reserved area\<close>

subsection \<open>Lists of bytes\<close>

definition slice :: "nat \<Rightarrow> nat \<Rightarrow> 'a list \<Rightarrow> 'a list" where
  "slice off n xs = take n (drop off xs)"

definition overwrite :: "nat \<Rightarrow> 'a list \<Rightarrow> 'a list \<Rightarrow> 'a list" where
  "overwrite off src dst = take off dst @ src @ drop (off + length src) dst"

definition memread :: "byte list \<Rightarrow> nat \<Rightarrow> nat \<Rightarrow> byte list option" where
  "memread buf off n = (if off + n \<le> length buf then Some (slice off n buf) else None)"

definition memwrite :: "byte list \<Rightarrow> nat \<Rightarrow> byte list \<Rightarrow> byte list option" where
  "memwrite buf off src =
     (if off + length src \<le> length buf then Some (overwrite off src buf) else None)"

lemma length_slice [simp]: "length (slice off n xs) = min n (length xs - off)"
  by (simp add: slice_def)

lemma length_overwrite [simp]:
  "off + length src \<le> length dst \<Longrightarrow> length (overwrite off src dst) = length dst"
  by (simp add: overwrite_def)

lemma nth_slice [simp]: "i < n \<Longrightarrow> off + i < length xs \<Longrightarrow> slice off n xs ! i = xs ! (off + i)"
  by (simp add: slice_def)

lemma nth_overwrite:
  "off + length src \<le> length dst \<Longrightarrow> i < length dst \<Longrightarrow>
   overwrite off src dst ! i = (if off \<le> i \<and> i < off + length src then src ! (i - off) else dst ! i)"
  by (auto simp: overwrite_def nth_append min_def)

lemma slice_all [simp]: "slice 0 (length xs) xs = xs"
  by (simp add: slice_def)

lemma slice_slice: "a + n \<le> m \<Longrightarrow> slice a n (slice off m xs) = slice (off + a) n xs"
  by (simp add: slice_def drop_take min_def add.commute)

lemma slice_overwrite_same:
  "off + length src \<le> length dst \<Longrightarrow> n = length src \<Longrightarrow> slice off n (overwrite off src dst) = src"
  by (simp add: slice_def overwrite_def)

lemma slice_overwrite_sub:
  "off + length src \<le> length dst \<Longrightarrow> off \<le> a \<Longrightarrow> a + n \<le> off + length src \<Longrightarrow>
   slice a n (overwrite off src dst) = slice (a - off) n src"
  by (rule nth_equalityI) (auto simp: nth_overwrite)

lemma slice_overwrite_other:
  "off + length src \<le> length dst \<Longrightarrow> a + n \<le> off \<or> off + length src \<le> a \<Longrightarrow>
   slice a n (overwrite off src dst) = slice a n dst"
  by (rule nth_equalityI) (auto simp: nth_overwrite)

lemma slice_append: "slice off n xs @ slice (off + n) m xs = slice off (n + m) xs"
  by (simp add: slice_def take_add) (simp add: add.commute)

lemma memread_Some_iff [mem_simps]:
  "memread buf off n = Some r \<longleftrightarrow> off + n \<le> length buf \<and> r = slice off n buf"
  by (auto simp: memread_def)

lemma memwrite_Some_iff [mem_simps]:
  "memwrite buf off src = Some r \<longleftrightarrow> off + length src \<le> length buf \<and> r = overwrite off src buf"
  by (auto simp: memwrite_def)

lemma memwrite_length: "memwrite buf off src = Some r \<Longrightarrow> length r = length buf"
  by (auto simp: memwrite_Some_iff)

subsection \<open>Words\<close>

lemma word_xor_cancel: "x XOR z = y XOR z \<longleftrightarrow> x = (y :: 'a::len word)"
proof
  assume "x XOR z = y XOR z"
  then have "(x XOR z) XOR z = (y XOR z) XOR z" by simp
  then show "x = y" by (simp add: xor.assoc)
qed simp

lemma word_xor_ones: "x XOR NOT 0 = NOT (x :: 'a::len word)"
  by (rule bit_eqI) (auto simp: bit_xor_iff bit_not_iff)

lemma ucast_inj_up:
  assumes "LENGTH('a) \<le> LENGTH('b)"
  shows "(ucast x :: 'b::len word) = ucast y \<longleftrightarrow> x = (y :: 'a::len word)"
proof
  assume e: "(ucast x :: 'b word) = ucast y"
  show "x = y"
  proof (rule bit_eqI)
    fix n
    assume "possible_bit TYPE('a word) n"
    then show "bit x n = bit y n"
      using arg_cong [OF e, of "\<lambda>w. bit w n"] assms by (simp add: bit_ucast_iff)
  qed
qed simp

lemma unat_of_nat_small: "n < 2 ^ LENGTH('a) \<Longrightarrow> unat (word_of_nat n :: 'a::len word) = n"
  by (simp add: unat_of_nat)

lemma unat_less_u64: "unat (w :: u64) < 2 ^ 64"
  using unsigned_less [of w, where 'a = nat] by simp

lemma unat_less_u32: "unat (w :: u32) < 2 ^ 32"
  using unsigned_less [of w, where 'a = nat] by simp

lemma sint_nat_small:
  assumes "unat w < 2 ^ (LENGTH('a) - 1)"
  shows "sint (w :: 'a::len word) = int (unat w)"
proof -
  have "uint w < 2 ^ (LENGTH('a) - 1)"
    using assms by (metis of_nat_less_iff of_nat_numeral of_nat_power of_nat_unat)
  moreover have "- (2 ^ (LENGTH('a) - 1)) \<le> uint w"
    by (rule order_trans [of _ 0]) simp_all
  ultimately show ?thesis
    by (simp add: sint_uint signed_take_bit_int_eq_self_iff)
qed

lemma scast_u32_small: "unat (n :: u32) < 2 ^ 31 \<Longrightarrow> (scast n :: sector_t) = word_of_nat (unat n)"
proof -
  assume "unat n < 2 ^ 31"
  then have "sint n = int (unat n)"
    by (simp add: sint_nat_small)
  then show ?thesis by (metis of_int_of_nat_eq of_int_sint)
qed

lemma unat_plus_nat:
  "unat x + n < 2 ^ LENGTH('a) \<Longrightarrow> unat (x + word_of_nat n :: 'a::len word) = unat x + n"
  by (simp add: unat_word_ariths unat_of_nat mod_add_right_eq)

subsection \<open>Integers as bytes\<close>

fun le_bytes :: "nat \<Rightarrow> 'a::len word \<Rightarrow> byte list" where
  "le_bytes 0 w = []"
| "le_bytes (Suc n) w = ucast w # le_bytes n (drop_bit 8 w)"

fun le_word :: "byte list \<Rightarrow> 'a::len word" where
  "le_word [] = 0"
| "le_word (b # bs) = ucast b OR push_bit 8 (le_word bs)"

definition be_bytes :: "nat \<Rightarrow> 'a::len word \<Rightarrow> byte list" where
  "be_bytes n w = rev (le_bytes n w)"

definition be_word :: "byte list \<Rightarrow> 'a::len word" where
  "be_word bs = le_word (rev bs)"

lemma length_le_bytes [simp]: "length (le_bytes n w) = n"
  by (induction n arbitrary: w) auto

lemma length_be_bytes [simp]: "length (be_bytes n w) = n"
  by (simp add: be_bytes_def)

lemma nth_le_bytes: "i < n \<Longrightarrow> le_bytes n w ! i = ucast (drop_bit (8 * i) w)"
proof (induction n arbitrary: w i)
  case 0
  then show ?case by simp
next
  case (Suc n)
  then show ?case
    by (cases i) (simp_all add: drop_bit_drop_bit add.commute)
qed

lemma bit_le_word:
  "bit (le_word bs :: 'a::len word) k \<longleftrightarrow>
     k < LENGTH('a) \<and> k div 8 < length bs \<and> bit (bs ! (k div 8)) (k mod 8)"
proof (induction bs arbitrary: k)
  case Nil
  then show ?case by simp
next
  case (Cons b bs)
  have b8: "bit b k \<Longrightarrow> k < 8"
    using bit_imp_le_length [of b k] by simp
  show ?case
  proof (cases "k < 8")
    case True
    then show ?thesis
      by (auto simp: bit_or_iff bit_ucast_iff bit_push_bit_iff)
  next
    case False
    then obtain j where k: "k = j + 8"
      using le_Suc_ex [of 8 k] by (auto simp: add.commute)
    have "k div 8 = Suc (j div 8)" "k mod 8 = j mod 8"
      by (simp_all add: k)
    then show ?thesis
      using Cons.IH [of j] b8 False
      by (auto simp: bit_or_iff bit_ucast_iff bit_push_bit_iff k)
  qed
qed

lemma le_word_le_bytes:
  assumes "LENGTH('a) \<le> 8 * n"
  shows "le_word (le_bytes n w) = (w :: 'a::len word)"
proof (rule bit_eqI)
  fix k
  assume "possible_bit TYPE('a word) k"
  then have k: "k < LENGTH('a)" by simp
  with assms have "k div 8 < n" by simp
  with k show "bit (le_word (le_bytes n w) :: 'a word) k = bit w k"
    by (simp add: bit_le_word nth_le_bytes bit_ucast_iff bit_drop_bit_eq)
qed

lemma le_bytes_le_word:
  assumes "length bs = n" "8 * n \<le> LENGTH('a)"
  shows "le_bytes n (le_word bs :: 'a::len word) = bs"
proof (rule nth_equalityI)
  show "length (le_bytes n (le_word bs :: 'a word)) = length bs"
    using assms by simp
next
  fix i
  assume "i < length (le_bytes n (le_word bs :: 'a word))"
  then have i: "i < n" by simp
  show "le_bytes n (le_word bs :: 'a word) ! i = bs ! i"
  proof (rule bit_eqI)
    fix k
    assume "possible_bit TYPE(8 word) k"
    then have "k < 8" by simp
    moreover from this i assms have "k + 8 * i < LENGTH('a)" by simp
    ultimately show "bit (le_bytes n (le_word bs :: 'a word) ! i) k = bit (bs ! i) k"
      using i assms
      by (simp add: nth_le_bytes bit_ucast_iff bit_drop_bit_eq bit_le_word add.commute)
  qed
qed

lemma le_bytes_inject:
  "LENGTH('a) \<le> 8 * n \<Longrightarrow> le_bytes n v = le_bytes n w \<Longrightarrow> v = (w :: 'a::len word)"
  by (metis le_word_le_bytes)

lemma be_word_be_bytes: "LENGTH('a) \<le> 8 * n \<Longrightarrow> be_word (be_bytes n w) = (w :: 'a::len word)"
  by (simp add: be_word_def be_bytes_def le_word_le_bytes)

lemma be_bytes_be_word:
  "length bs = n \<Longrightarrow> 8 * n \<le> LENGTH('a) \<Longrightarrow> be_bytes n (be_word bs :: 'a::len word) = bs"
  by (simp add: be_word_def be_bytes_def le_bytes_le_word)

end
