(* ===== verification/Ring.thy ===== *)
theory Ring
  imports Swap_Prelude "HOL-Library.Signed_Division"
begin

text \<open>
  \<^verbatim>\<open>drivers/scsi/swap/ring.h\<close>: the ring buffer of fixed-size items under the log. The buffer is
  the byte array of the source and a slot is a byte offset into it; reading or writing outside
  the array is a fault. The ring is shown to hold the most recent items, oldest first: it
  implements the interface \<open>recent_items\<close> that the log relies on.
\<close>

subsection \<open>The ring buffer\<close>

record cspring =
  item_cap :: int
  item_size :: int
  item_num :: int
  item_next :: int
  buffer :: "byte list"

definition cspring_size :: "cspring \<Rightarrow> int" where
  "cspring_size r = item_cap r * item_size r"

definition cspring_get_pop_index :: "cspring \<Rightarrow> int" where
  "cspring_get_pop_index r = (item_next r - item_num r + item_cap r) smod item_cap r"

definition cspring_get_data :: "cspring \<Rightarrow> int \<Rightarrow> int" where
  "cspring_get_data r index = index * item_size r"

definition cspring_update :: "cspring \<Rightarrow> cspring" where
  "cspring_update r =
     (let r = (if item_num r > item_cap r then r\<lparr>item_num := item_cap r\<rparr> else r);
          r = (if item_next r \<ge> item_cap r then r\<lparr>item_next := 0\<rparr> else r)
      in if item_num r \<le> 0 then r\<lparr>item_next := 0\<rparr> else r)"

definition cspring_create ::
  "(nat \<Rightarrow> 'w \<Rightarrow> byte list option \<times> 'w) \<Rightarrow> int \<Rightarrow> int \<Rightarrow> 'w \<Rightarrow> cspring option \<times> 'w" where
  "cspring_create malloc isize cap w =
     (let (r, w) = malloc (nat (isize * cap)) w in
      case r of None \<Rightarrow> (None, w)
      | Some _ \<Rightarrow>
          (let r = \<lparr>item_cap = cap, item_size = isize, item_num = 0, item_next = 0, buffer = []\<rparr>;
               (b, w) = malloc (nat (cspring_size r)) w
           in case b of None \<Rightarrow> (None, w) | Some b \<Rightarrow> (Some (r\<lparr>buffer := b\<rparr>), w)))"

text \<open>The result is the offset of the slot that was filled.\<close>

definition cspring_push :: "cspring \<Rightarrow> byte list \<Rightarrow> (int \<times> cspring) option" where
  "cspring_push r data =
     (let ret = cspring_get_data r (item_next r) in
      do {
        item \<leftarrow> memread data 0 (nat (item_size r));
        b \<leftarrow> (if ret < 0 then None else memwrite (buffer r) (nat ret) item);
        Some (ret, cspring_update
          (r\<lparr>buffer := b, item_next := item_next r + 1, item_num := item_num r + 1\<rparr>))
      })"

definition cspring_peek :: "cspring \<Rightarrow> int \<Rightarrow> int" where
  "cspring_peek r index =
     (let pop_index = cspring_get_pop_index r
      in cspring_get_data r ((pop_index + index) smod item_cap r))"

subsection \<open>Invariant and contents\<close>

definition cspring_ok :: "cspring \<Rightarrow> bool" where
  "cspring_ok r \<longleftrightarrow> 0 < item_cap r \<and> 0 < item_size r \<and> 0 \<le> item_num r \<and> item_num r \<le> item_cap r
     \<and> 0 \<le> item_next r \<and> item_next r < item_cap r
     \<and> int (length (buffer r)) = cspring_size r"

definition slot :: "cspring \<Rightarrow> int \<Rightarrow> byte list" where
  "slot r i = slice (nat (i * item_size r)) (nat (item_size r)) (buffer r)"

definition slot_of :: "cspring \<Rightarrow> nat \<Rightarrow> int" where
  "slot_of r k = (item_next r - item_num r + int k) mod item_cap r"

definition cspring_items :: "cspring \<Rightarrow> byte list list" where
  "cspring_items r = map (\<lambda>k. slot r (slot_of r k)) [0..<nat (item_num r)]"

subsection \<open>The interface the log relies on\<close>

text \<open>
  A bounded store of the most recent items: pushing onto a store that is not full appends,
  pushing onto a full one drops the oldest item.
\<close>

fun push_all :: "('r \<Rightarrow> 'a \<Rightarrow> 'r option) \<Rightarrow> 'r \<Rightarrow> 'a list \<Rightarrow> 'r option" where
  "push_all push r [] = Some r"
| "push_all push r (x # xs) = Option.bind (push r x) (\<lambda>r'. push_all push r' xs)"

locale recent_items =
  fixes push :: "'r \<Rightarrow> 'a \<Rightarrow> 'r option"
    and items :: "'r \<Rightarrow> 'a list"
    and bound :: "'r \<Rightarrow> nat"
    and invar :: "'r \<Rightarrow> bool"
    and fits :: "'r \<Rightarrow> 'a \<Rightarrow> bool"
  assumes push_total: "invar r \<Longrightarrow> fits r x \<Longrightarrow> \<exists>r'. push r x = Some r'"
    and push_invar: "invar r \<Longrightarrow> fits r x \<Longrightarrow> push r x = Some r' \<Longrightarrow> invar r'"
    and push_bound: "invar r \<Longrightarrow> fits r x \<Longrightarrow> push r x = Some r' \<Longrightarrow> bound r' = bound r"
    and push_fits: "invar r \<Longrightarrow> fits r x \<Longrightarrow> push r x = Some r' \<Longrightarrow> fits r' y = fits r y"
    and push_items: "invar r \<Longrightarrow> fits r x \<Longrightarrow> push r x = Some r' \<Longrightarrow>
      items r' = (if length (items r) < bound r then items r @ [x] else tl (items r) @ [x])"
    and items_bound: "invar r \<Longrightarrow> length (items r) \<le> bound r"
    and bound_pos: "invar r \<Longrightarrow> 0 < bound r"
begin

lemma push_items_drop:
  assumes "invar r" "fits r x" "push r x = Some r'"
  shows "items r' = drop (Suc (length (items r)) - bound r) (items r @ [x])"
proof (cases "length (items r) < bound r")
  case True
  then show ?thesis by (simp add: push_items [OF assms])
next
  case False
  with items_bound [OF assms(1)] bound_pos [OF assms(1)] show ?thesis
    by (cases "items r") (simp_all add: push_items [OF assms])
qed

lemma push_all_items:
  assumes "invar r" "\<forall>x \<in> set xs. fits r x"
  shows "\<exists>r'. push_all push r xs = Some r' \<and> invar r' \<and> bound r' = bound r \<and>
    items r' = drop (length (items r) + length xs - bound r) (items r @ xs)"
  using assms
proof (induction xs arbitrary: r)
  case Nil
  then show ?case using items_bound by simp
next
  case (Cons x xs)
  then have fx: "fits r x" by simp
  obtain r1 where r1: "push r x = Some r1"
    using push_total [OF Cons.prems(1) fx] by blast
  note step = push_invar [OF Cons.prems(1) fx r1] push_bound [OF Cons.prems(1) fx r1]
    push_items_drop [OF Cons.prems(1) fx r1]
  have "\<forall>y \<in> set xs. fits r1 y"
    using Cons.prems push_fits [OF Cons.prems(1) fx r1] by auto
  from Cons.IH [OF step(1) this] obtain r' where r': "push_all push r1 xs = Some r'" "invar r'"
    "bound r' = bound r1"
    "items r' = drop (length (items r1) + length xs - bound r1) (items r1 @ xs)"
    by blast
  have "items r' = drop (length (items r) + length (x # xs) - bound r) (items r @ x # xs)"
  proof -
    let ?ys = "items r @ [x]"
    let ?a = "Suc (length (items r)) - bound r"
    have "drop ?a ?ys @ xs = drop ?a (?ys @ xs)"
      using drop_append [of ?a ?ys xs] by (simp del: drop_append)
    then have "items r' = drop (length (drop ?a ?ys) + length xs - bound r) (drop ?a (?ys @ xs))"
      by (simp only: r'(4) step(2,3))
    also have "\<dots> = drop (length ?ys + length xs - bound r) (?ys @ xs)"
      by (simp only: drop_drop length_drop length_append_singleton)
        (rule arg_cong [where f = "\<lambda>n. drop n (?ys @ xs)"], arith)
    finally show ?thesis by simp
  qed
  with r1 r' step(2) show ?case by auto
qed

end

subsection \<open>The ring implements it\<close>

lemma slot_of_less: "0 < item_cap r \<Longrightarrow> 0 \<le> slot_of r k \<and> slot_of r k < item_cap r"
  by (simp add: slot_of_def)

lemma cspring_ok_slot_bound:
  assumes "cspring_ok r" "0 \<le> i" "i < item_cap r"
  shows "nat (i * item_size r) + nat (item_size r) \<le> length (buffer r)"
proof -
  have "(i + 1) * item_size r \<le> item_cap r * item_size r"
    using assms by (intro mult_right_mono) (auto simp: cspring_ok_def)
  then have "nat (i * item_size r + item_size r) \<le> nat (int (length (buffer r)))"
    using assms by (simp add: cspring_ok_def cspring_size_def algebra_simps)
  then show ?thesis
    using assms by (simp add: cspring_ok_def nat_add_distrib)
qed

lemma length_slot: "cspring_ok r \<Longrightarrow> 0 \<le> i \<Longrightarrow> i < item_cap r \<Longrightarrow> length (slot r i) = nat (item_size r)"
  using cspring_ok_slot_bound [of r i] by (simp add: slot_def)

lemma cspring_push_eq:
  assumes "cspring_ok r" "int (length data) = item_size r"
  shows "cspring_push r data = Some (item_next r * item_size r, cspring_update
    (r\<lparr>buffer := overwrite (nat (item_next r * item_size r)) data (buffer r),
       item_next := item_next r + 1, item_num := item_num r + 1\<rparr>))"
proof -
  have "nat (item_size r) = length data" using assms by simp
  moreover have "0 \<le> item_next r * item_size r" using assms by (simp add: cspring_ok_def)
  moreover have "nat (item_next r * item_size r) + length data \<le> length (buffer r)"
    using cspring_ok_slot_bound [OF assms(1), of "item_next r"] assms
    by (simp add: cspring_ok_def)
  ultimately show ?thesis
    by (simp add: cspring_push_def cspring_get_data_def memread_def memwrite_def Let_def)
qed

lemma cspring_push_fields:
  assumes "cspring_ok r" "int (length data) = item_size r" "cspring_push r data = Some (off, r')"
  shows "item_cap r' = item_cap r" "item_size r' = item_size r"
    "item_num r' = min (item_num r + 1) (item_cap r)"
    "item_next r' = (item_next r + 1) mod item_cap r"
    "buffer r' = overwrite (nat (item_next r * item_size r)) data (buffer r)"
    "off = item_next r * item_size r"
proof -
  have m: "(item_next r + 1) mod item_cap r = (if item_next r + 1 = item_cap r then 0 else item_next r + 1)"
    using assms(1) by (simp add: cspring_ok_def)
  show "item_cap r' = item_cap r" "item_size r' = item_size r"
    "item_num r' = min (item_num r + 1) (item_cap r)"
    "item_next r' = (item_next r + 1) mod item_cap r"
    "buffer r' = overwrite (nat (item_next r * item_size r)) data (buffer r)"
    "off = item_next r * item_size r"
    using assms unfolding m
    by (auto simp: cspring_push_eq cspring_update_def cspring_ok_def Let_def min_def)
qed

lemma cspring_push_ok:
  assumes "cspring_ok r" "int (length data) = item_size r" "cspring_push r data = Some (off, r')"
  shows "cspring_ok r'"
proof -
  have "nat (item_next r * item_size r) + length data \<le> length (buffer r)"
    using cspring_ok_slot_bound [OF assms(1), of "item_next r"] assms(1,2)
    by (simp add: cspring_ok_def)
  then show ?thesis
    using assms(1) by (simp add: cspring_ok_def cspring_size_def cspring_push_fields [OF assms])
qed

lemma slot_push_same:
  assumes "cspring_ok r" "int (length data) = item_size r" "cspring_push r data = Some (off, r')"
  shows "slot r' (item_next r) = data"
proof -
  have "nat (item_next r * item_size r) + length data \<le> length (buffer r)"
    using cspring_ok_slot_bound [OF assms(1), of "item_next r"] assms(1,2)
    by (simp add: cspring_ok_def)
  then show ?thesis
    using assms(2) by (auto simp: slot_def cspring_push_fields [OF assms] intro!: slice_overwrite_same)
qed

lemma slot_push_other:
  assumes "cspring_ok r" "int (length data) = item_size r" "cspring_push r data = Some (off, r')"
    and i: "0 \<le> i" "i < item_cap r" "i \<noteq> item_next r"
  shows "slot r' i = slot r i"
proof -
  let ?s = "item_size r" and ?n = "item_next r"
  have b: "nat (?n * ?s) + length data \<le> length (buffer r)"
    using cspring_ok_slot_bound [OF assms(1), of ?n] assms(1,2) by (simp add: cspring_ok_def)
  have pos: "0 < ?s" "0 \<le> ?n" using assms(1) by (auto simp: cspring_ok_def)
  have e: "int (nat (i * ?s)) = i * ?s" "int (nat (?n * ?s)) = ?n * ?s" "int (nat ?s) = ?s"
    using pos i by simp_all
  have "(i + 1) * ?s \<le> ?n * ?s \<or> (?n + 1) * ?s \<le> i * ?s"
    using i pos by (cases "i < ?n") (auto intro!: mult_right_mono)
  then have "nat (i * ?s) + nat ?s \<le> nat (?n * ?s) \<or> nat (?n * ?s) + length data \<le> nat (i * ?s)"
    using e unfolding of_nat_le_iff [where 'a = int, symmetric] of_nat_add e assms(2)
    by (simp add: algebra_simps)
  then show ?thesis
    using b by (auto simp: slot_def cspring_push_fields [OF assms(1-3)] slice_overwrite_other)
qed

lemma length_cspring_items [simp]: "length (cspring_items r) = nat (item_num r)"
  by (simp add: cspring_items_def)

lemma cspring_push_items:
  assumes ok: "cspring_ok r" and len: "int (length data) = item_size r"
    and push: "cspring_push r data = Some (off, r')"
  shows "cspring_items r' = (if item_num r < item_cap r then cspring_items r @ [data]
    else tl (cspring_items r) @ [data])"
proof -
  let ?c = "item_cap r" and ?m = "item_num r" and ?n = "item_next r"
  note f = cspring_push_fields [OF ok len push]
  have c: "0 < ?c" "0 \<le> ?m" "?m \<le> ?c" "0 \<le> ?n" "?n < ?c"
    using ok by (auto simp: cspring_ok_def)
  let ?d = "?m + 1 - item_num r'"
  have d: "?d = (if ?m < ?c then 0 else 1)" using c by (simp add: f(3))
  have so: "slot_of r' k = slot_of r (nat ?d + k)" for k
  proof -
    have "slot_of r' k = ((?n + 1) mod ?c - item_num r' + int k) mod ?c"
      by (simp add: slot_of_def f)
    also have "\<dots> = (?n + 1 - item_num r' + int k) mod ?c"
      by (metis (no_types, opaque_lifting) diff_add_eq mod_add_left_eq mod_diff_left_eq)
    also have "?n + 1 - item_num r' + int k = ?n - ?m + int (nat ?d + k)"
      using d by (auto split: if_splits)
    also have "\<dots> mod ?c = slot_of r (nat ?d + k)"
      by (simp add: slot_of_def)
    finally show ?thesis .
  qed
  have last: "slot_of r (nat ?m) = ?n"
    using c by (simp add: slot_of_def)
  have other: "slot r' (slot_of r k) = slot r (slot_of r k)" if k: "nat ?d \<le> k" "k < nat ?m" for k
  proof (rule slot_push_other [OF ok len push])
    show "0 \<le> slot_of r k" "slot_of r k < ?c" using slot_of_less c by auto
    have "(?m - int k) mod ?c = ?m - int k"
      using k d c by (intro mod_pos_pos_trivial) (auto split: if_splits)
    moreover have "?m - int k \<noteq> 0" using k by simp
    ultimately have "(?n - (?n - ?m + int k)) mod ?c \<noteq> 0" by simp
    then show "slot_of r k \<noteq> ?n"
      unfolding slot_of_def by (metis c(4,5) mod_0_imp_dvd dvd_imp_mod_0 mod_eq_dvd_iff mod_pos_pos_trivial)
  qed
  have num: "nat (item_num r') = Suc (nat ?m - nat ?d)"
    using d c by (auto simp: f(3))
  have "cspring_items r' = map (\<lambda>k. slot r' (slot_of r (nat ?d + k))) [0..<nat ?m - nat ?d]
      @ [slot r' (slot_of r (nat ?d + (nat ?m - nat ?d)))]"
    by (simp add: cspring_items_def num so)
  also have "slot r' (slot_of r (nat ?d + (nat ?m - nat ?d))) = data"
    using d c last slot_push_same [OF ok len push] by (auto split: if_splits)
  also have "map (\<lambda>k. slot r' (slot_of r (nat ?d + k))) [0..<nat ?m - nat ?d]
      = drop (nat ?d) (cspring_items r)"
    by (rule nth_equalityI) (use other in \<open>auto simp: cspring_items_def\<close>)
  finally show ?thesis
    using d by (auto simp: drop_Suc)
qed

definition ring_push :: "cspring \<Rightarrow> byte list \<Rightarrow> cspring option" where
  "ring_push r x = map_option snd (cspring_push r x)"

interpretation ring: recent_items
  ring_push cspring_items "\<lambda>r. nat (item_cap r)" cspring_ok
  "\<lambda>r x. int (length x) = item_size r"
proof (unfold_locales, unfold ring_push_def, goal_cases)
  case (1 r x)
  then show ?case by (simp add: cspring_push_eq)
next
  case (2 r x r')
  then show ?case by (auto dest: cspring_push_ok)
next
  case (3 r x r')
  then show ?case by (auto dest: cspring_push_fields(1))
next
  case (4 r x r' y)
  then show ?case by (auto dest: cspring_push_fields(2))
next
  case (5 r x r')
  then show ?case
    using cspring_push_items [of r x] by (auto simp: cspring_ok_def nat_less_eq_zless)
next
  case (6 r)
  then show ?case by (simp add: cspring_ok_def nat_mono)
next
  case (7 r)
  then show ?case by (simp add: cspring_ok_def)
qed

lemma smod_nonneg: "0 \<le> a \<Longrightarrow> 0 < b \<Longrightarrow> a smod b = a mod (b :: int)"
  by (cases "a = 0") (simp_all add: signed_modulo_int_def signed_divide_int_def minus_div_mult_eq_mod)

lemma sdiv_nonneg: "0 \<le> a \<Longrightarrow> 0 < b \<Longrightarrow> a sdiv b = a div (b :: int)"
  by (cases "a = 0") (simp_all add: signed_divide_int_def)

lemma cspring_peek_slot:
  assumes "cspring_ok r"
  shows "cspring_peek r (int k) = slot_of r k * item_size r"
proof -
  have c: "0 < item_cap r" "0 \<le> item_next r - item_num r + item_cap r"
    using assms by (auto simp: cspring_ok_def)
  then have "cspring_get_pop_index r = (item_next r - item_num r) mod item_cap r"
    by (simp add: cspring_get_pop_index_def smod_nonneg)
  moreover have "0 \<le> (item_next r - item_num r) mod item_cap r + int k" using c by simp
  ultimately show ?thesis
    using c(1) by (simp add: cspring_peek_def cspring_get_data_def smod_nonneg slot_of_def
        mod_add_left_eq)
qed

lemma cspring_peek_item:
  assumes "cspring_ok r" "k < nat (item_num r)"
  shows "slice (nat (cspring_peek r (int k))) (nat (item_size r)) (buffer r) = cspring_items r ! k"
  using assms by (simp add: cspring_peek_slot cspring_items_def slot_def)

lemma ring_push_all_size:
  assumes "cspring_ok r" "\<forall>x \<in> set xs. int (length x) = item_size r" "push_all ring_push r xs = Some r'"
  shows "item_size r' = item_size r"
  using assms
proof (induction xs arbitrary: r)
  case (Cons x xs)
  then obtain off r1 where 1: "cspring_push r x = Some (off, r1)" "push_all ring_push r1 xs = Some r'"
    by (cases "cspring_push r x") (auto simp: ring_push_def [of r x])
  have len: "int (length x) = item_size r" using Cons.prems by simp
  note s = cspring_push_fields(2) [OF Cons.prems(1) len 1(1)]
  have "\<forall>y \<in> set xs. int (length y) = item_size r1" using Cons.prems(2) s by simp
  then show ?case
    using Cons.IH [OF cspring_push_ok [OF Cons.prems(1) len 1(1)] _ 1(2)] s by simp
qed simp

text \<open>
  C12: pushing any sequence of items of the right size onto a well-formed ring
  never runs outside its buffer; afterwards the ring is well formed and holds exactly the last
  \<open>item_cap\<close> of all items, oldest first, and \<open>cspring_peek\<close> with index \<open>k\<close> points at the
  \<open>k\<close>-th of them.
\<close>

theorem ring_keeps_most_recent:
  assumes "cspring_ok r" "\<forall>x \<in> set xs. int (length x) = item_size r"
  shows "\<exists>r'. push_all ring_push r xs = Some r' \<and> cspring_ok r' \<and>
    cspring_items r' = drop (nat (item_num r) + length xs - nat (item_cap r)) (cspring_items r @ xs) \<and>
    (\<forall>k < nat (item_num r'). slice (nat (cspring_peek r' (int k))) (nat (item_size r)) (buffer r')
       = cspring_items r' ! k)"
proof -
  obtain r' where r': "push_all ring_push r xs = Some r'" "cspring_ok r'"
    "cspring_items r' = drop (nat (item_num r) + length xs - nat (item_cap r)) (cspring_items r @ xs)"
    using ring.push_all_items [OF assms] by auto
  then show ?thesis
    using cspring_peek_item [OF r'(2)] ring_push_all_size [OF assms r'(1)] by auto
qed

theorem ring_keeps_most_recent_witness:
  "\<exists>r'. push_all ring_push
        \<lparr>item_cap = 2, item_size = 1, item_num = 0, item_next = 0, buffer = [0, 0]\<rparr> [[1], [2], [3]]
      = Some r' \<and> cspring_items r' = [[2], [3]]"
proof -
  let ?r = "\<lparr>item_cap = 2, item_size = 1, item_num = 0, item_next = 0, buffer = [0, 0]\<rparr>"
  have "cspring_ok ?r" "cspring_items ?r = []"
    by (simp_all add: cspring_ok_def cspring_size_def cspring_items_def)
  then show ?thesis
    using ring_keeps_most_recent [of ?r "[[1], [2], [3]]"] by (auto simp del: push_all.simps)
qed

end
