(* ===== verification/Swap_State.thy ===== *)
theory Swap_State
  imports Ring
begin

text \<open>
  The structures of \<^verbatim>\<open>core.h\<close>, \<^verbatim>\<open>core.c\<close>, \<^verbatim>\<open>log.h\<close> and \<^verbatim>\<open>swap.h\<close>, and
  the state of one device that the code of the module reads and writes.

  Code outside the repository is a record of functions, \<open>'w kernel\<close>, over an uninterpreted world
  \<open>'w\<close> (the medium, the allocator, the clock). Every function of the model that reaches such code
  takes this record as its first argument.

  A \<^verbatim>\<open>struct swap_info\<close> is an object on the heap: \<open>infos\<close> maps addresses to objects and
  \<open>info_list\<close> is the linked list as the list of its addresses, so that a pointer which is both
  in the list and in a local variable denotes one object. Atomic counters are integers.
\<close>

subsection \<open>Code outside the repository\<close>

datatype dma_direction = DMA_TO_DEVICE | DMA_FROM_DEVICE | DMA_NONE

record scsi_sense_hdr =
  response_code :: byte
  sense_key :: byte
  asc :: byte
  ascq :: byte

datatype scsi_device_state =
    SDEV_CREATED | SDEV_RUNNING | SDEV_CANCEL | SDEV_DEL | SDEV_QUIESCE | SDEV_OFFLINE
  | SDEV_TRANSPORT_OFFLINE | SDEV_BLOCK | SDEV_CREATED_BLOCK

text \<open>
  \<^item> \<open>scsi_execute\<close>: command block, direction, data buffer, timeout in seconds, retries; it
    gives the result word, the sense buffer and the data buffer afterwards.
  \<^item> \<open>scsi_execute_req\<close>: the same with a decoded sense header.
  \<^item> \<open>sdev_state\<close>: the state of the SCSI device, which the mid layer changes.
  \<^item> \<open>kmalloc\<close>: the size; it gives fresh memory with unspecified contents, or nothing.
\<close>

record 'w kernel =
  scsi_execute :: "byte list \<Rightarrow> dma_direction \<Rightarrow> byte list \<Rightarrow> nat \<Rightarrow> nat \<Rightarrow> 'w
    \<Rightarrow> u32 \<times> byte list \<times> byte list \<times> 'w"
  scsi_execute_req :: "byte list \<Rightarrow> dma_direction \<Rightarrow> byte list \<Rightarrow> nat \<Rightarrow> nat \<Rightarrow> 'w
    \<Rightarrow> u32 \<times> scsi_sense_hdr \<times> byte list \<times> 'w"
  scsi_normalize_sense :: "byte list \<Rightarrow> scsi_sense_hdr"
  sdev_state :: "'w \<Rightarrow> scsi_device_state"
  kmalloc :: "nat \<Rightarrow> 'w \<Rightarrow> byte list option \<times> 'w"
  tv_sec :: "'w \<Rightarrow> u32"

text \<open>The checks of \<^verbatim>\<open>scsi_device.h\<close> on the state of a device.\<close>

definition scsi_device_online :: "'w kernel \<Rightarrow> 'w \<Rightarrow> bool" where
  "scsi_device_online K w \<longleftrightarrow>
     sdev_state K w \<noteq> SDEV_OFFLINE \<and> sdev_state K w \<noteq> SDEV_TRANSPORT_OFFLINE \<and> sdev_state K w \<noteq> SDEV_DEL"

definition scsi_device_blocked :: "'w kernel \<Rightarrow> 'w \<Rightarrow> bool" where
  "scsi_device_blocked K w \<longleftrightarrow> sdev_state K w = SDEV_BLOCK \<or> sdev_state K w = SDEV_CREATED_BLOCK"

definition scsi_device_created :: "'w kernel \<Rightarrow> 'w \<Rightarrow> bool" where
  "scsi_device_created K w \<longleftrightarrow> sdev_state K w = SDEV_CREATED \<or> sdev_state K w = SDEV_CREATED_BLOCK"

subsection \<open>Structures of the module\<close>

record swap_head =
  head_string :: "byte list"
  status :: "byte list"
  version :: "byte list"
  bitmap :: "u32 list"
  reserved :: "byte list"
  checksum :: u32

record swap_table =
  src_sec :: sector_t
  swap_sec :: sector_t
  sec_size :: u32
  retrys :: u32
  tindex :: u32
  reserverd :: "u32 list"
  tchecksum :: u32
  save_sec :: sector_t

record swap_info =
  table :: swap_table
  sdata :: "byte list option"

record scsi_swap_core =
  device_dead :: int
  info_num :: int
  user :: int
  head :: swap_head
  info_list :: "nat list"
  infos :: "nat \<Rightarrow> swap_info option"
  next_info :: nat
  sector_reserve_start :: sector_t
  sector_head :: sector_t
  sector_table :: sector_t
  sector_data :: sector_t

record scsi_swap_log_head =
  lh_crc :: u32
  lh_item_num :: u16
  lh_item_next :: u16

record scsi_swap_log =
  lhead :: scsi_swap_log_head
  ring :: "cspring option"
  log_sector_head :: sector_t
  log_sector_data :: sector_t

text \<open>The SCSI device with the swap handler that hangs off it.\<close>

record 'w sdev =
  world :: 'w
  removable :: bool
  changed :: bool
  core :: scsi_swap_core
  slog :: scsi_swap_log

definition atomic_inc_dead :: "'w sdev \<Rightarrow> 'w sdev" where
  "atomic_inc_dead s = s\<lparr>core := (core s)\<lparr>device_dead := device_dead (core s) + 1\<rparr>\<rparr>"

text \<open>Allocation through the kernel: the memory, and the state with the allocator's new world.\<close>

definition alloc :: "'w kernel \<Rightarrow> nat \<Rightarrow> 'w sdev \<Rightarrow> byte list option \<times> 'w sdev" where
  "alloc K n s = (let (m, w) = kmalloc K n (world s) in (m, s\<lparr>world := w\<rparr>))"

subsection \<open>Steps that only do input and output\<close>

text \<open>
  Such a step may move the world and raise \<open>device_dead\<close>; it leaves everything else alone.
\<close>

definition io_step :: "'w sdev \<Rightarrow> 'w sdev \<Rightarrow> bool" where
  "io_step s s' \<longleftrightarrow> (\<exists>w d. device_dead (core s) \<le> d \<and>
     s' = s\<lparr>world := w, core := (core s)\<lparr>device_dead := d\<rparr>\<rparr>)"

lemma io_step_refl [simp, intro]: "io_step s s"
  unfolding io_step_def by (rule exI [of _ "world s"], rule exI [of _ "device_dead (core s)"]) simp

lemma io_step_trans [trans]: "io_step s t \<Longrightarrow> io_step t u \<Longrightarrow> io_step s u"
  unfolding io_step_def by (elim exE conjE) (simp, blast intro: order_trans)

lemma io_step_world [simp, intro]: "io_step s (s\<lparr>world := w\<rparr>)"
  unfolding io_step_def by (rule exI [of _ w], rule exI [of _ "device_dead (core s)"]) simp

lemma io_step_dead [simp, intro]: "io_step s (atomic_inc_dead s)"
  unfolding io_step_def atomic_inc_dead_def
  by (rule exI [of _ "world s"], rule exI [of _ "device_dead (core s) + 1"]) simp

lemma io_stepD:
  assumes "io_step s s'"
  shows "removable s' = removable s" "changed s' = changed s" "slog s' = slog s"
    "core s' = (core s)\<lparr>device_dead := device_dead (core s')\<rparr>"
    "info_num (core s') = info_num (core s)" "user (core s') = user (core s)"
    "head (core s') = head (core s)" "info_list (core s') = info_list (core s)"
    "infos (core s') = infos (core s)" "next_info (core s') = next_info (core s)"
    "sector_reserve_start (core s') = sector_reserve_start (core s)"
    "sector_head (core s') = sector_head (core s)"
    "sector_table (core s') = sector_table (core s)"
    "sector_data (core s') = sector_data (core s)"
    "device_dead (core s) \<le> device_dead (core s')"
  using assms by (auto simp: io_step_def)

lemma io_step_alloc: "alloc K n s = (m, s') \<Longrightarrow> io_step s s'"
  by (auto simp: alloc_def split: prod.splits)

end
