(* ===== verification/Utils.thy ===== *)
theory Utils
  imports Swap_State
begin

text \<open>
  \<^verbatim>\<open>utils.c\<close>: the commands the module sends to its own disk. A buffer argument is the
  region the C code passes with its length, \<^const>\<open>None\<close> for a null pointer. The preprocessor
  branch modelled is the one for kernels from 2.6.29 on. Timeouts are counted in seconds
  (multiples of \<^verbatim>\<open>HZ\<close>).

  The commands reach the medium through \<open>scsi_execute\<close>; the locale \<open>scsi_disk\<close> states what a
  disk promises about READ(10), WRITE(10) and the commands that carry no data, and the laws of
  \<open>hd_read_sector\<close> and \<open>hd_write_sector\<close> are proved from it once.
\<close>

unbundle bit_operations_syntax

subsection \<open>Definitions\<close>

definition driver_byte :: "u32 \<Rightarrow> u32" where
  "driver_byte ret = drop_bit 24 ret AND 0xff"

definition host_byte :: "u32 \<Rightarrow> u32" where
  "host_byte ret = drop_bit 16 ret AND 0xff"

text \<open>The part of a result word that the \<^verbatim>\<open>hd_\<close> functions treat as an error.\<close>

definition hd_filter_sense :: "'w kernel \<Rightarrow> u32 \<Rightarrow> byte list \<Rightarrow> u32" where
  "hd_filter_sense K ret sense =
     (if driver_byte ret = 8 then
        let ret = ret AND NOT (push_bit 24 0xff) in
        if ret AND 2 \<noteq> 0 then
          let sshdr = scsi_normalize_sense K sense in
          if sense_key sshdr = 0 \<and> asc sshdr = 0 \<and> ascq sshdr = 0
          then ret AND NOT 2 else ret
        else ret
      else ret)"

definition hd_return :: "u32 \<Rightarrow> 'w sdev \<Rightarrow> int \<times> 'w sdev" where
  "hd_return ret s =
     (if ret \<noteq> 0 then
        let host_status = host_byte ret in
        if host_status = 1 \<or> host_status = 4 then (- 1, atomic_inc_dead s) else (- 1, s)
      else (0, s))"

definition hd_cdb :: "byte \<Rightarrow> sector_t \<Rightarrow> u32 \<Rightarrow> byte list" where
  "hd_cdb opcode sector sec_num =
     [opcode, 0,
      ucast (drop_bit 24 sector AND 0xff), ucast (drop_bit 16 sector AND 0xff),
      ucast (drop_bit 8 sector AND 0xff), ucast (sector AND 0xff),
      ucast (drop_bit 16 sec_num AND 0xff), ucast (drop_bit 8 sec_num AND 0xff),
      ucast (sec_num AND 0xff), 0] @ replicate 22 0"

definition hd_read_sector ::
    "'w kernel \<Rightarrow> sector_t \<Rightarrow> u32 \<Rightarrow> byte list option \<Rightarrow> nat \<Rightarrow> nat \<Rightarrow> 'w sdev
      \<Rightarrow> int \<times> byte list option \<times> 'w sdev" where
  "hd_read_sector K sector sec_num buf timeout retries s =
     (case buf of
        None \<Rightarrow> (- 1, None, s)
      | Some b \<Rightarrow>
          if (of_nat (length b) :: u32) < 512 * sec_num then (- 1, Some b, s)
          else
            let (ret, sense, b', w) =
                  scsi_execute K (hd_cdb 0x28 sector sec_num) DMA_FROM_DEVICE b timeout retries
                    (world s);
                (r, s') = hd_return (hd_filter_sense K ret sense) (s\<lparr>world := w\<rparr>)
            in (r, Some b', s'))"

definition hd_read_sector_retry ::
    "'w kernel \<Rightarrow> sector_t \<Rightarrow> u32 \<Rightarrow> byte list option \<Rightarrow> 'w sdev
      \<Rightarrow> int \<times> byte list option \<times> 'w sdev" where
  "hd_read_sector_retry K sector sec_num buf s = hd_read_sector K sector sec_num buf 10 5 s"

definition hd_read_sector_no_retry ::
    "'w kernel \<Rightarrow> sector_t \<Rightarrow> u32 \<Rightarrow> byte list option \<Rightarrow> 'w sdev
      \<Rightarrow> int \<times> byte list option \<times> 'w sdev" where
  "hd_read_sector_no_retry K sector sec_num buf s = hd_read_sector K sector sec_num buf 5 0 s"

definition hd_write_sector ::
    "'w kernel \<Rightarrow> sector_t \<Rightarrow> u32 \<Rightarrow> byte list option \<Rightarrow> nat \<Rightarrow> nat \<Rightarrow> 'w sdev
      \<Rightarrow> int \<times> 'w sdev" where
  "hd_write_sector K sector sec_num buf timeout retries s =
     (case buf of
        None \<Rightarrow> (- 1, s)
      | Some b \<Rightarrow>
          if (of_nat (length b) :: u32) < 512 * sec_num then (- 1, s)
          else
            let (ret, sense, _, w) =
                  scsi_execute K (hd_cdb 0x2a sector sec_num) DMA_TO_DEVICE b timeout retries
                    (world s)
            in hd_return (hd_filter_sense K ret sense) (s\<lparr>world := w\<rparr>))"

definition hd_write_sector_retry ::
    "'w kernel \<Rightarrow> sector_t \<Rightarrow> u32 \<Rightarrow> byte list option \<Rightarrow> 'w sdev \<Rightarrow> int \<times> 'w sdev" where
  "hd_write_sector_retry K sector sec_num buf s = hd_write_sector K sector sec_num buf 10 5 s"

definition hd_write_sector_no_retry ::
    "'w kernel \<Rightarrow> sector_t \<Rightarrow> u32 \<Rightarrow> byte list option \<Rightarrow> 'w sdev \<Rightarrow> int \<times> 'w sdev" where
  "hd_write_sector_no_retry K sector sec_num buf s = hd_write_sector K sector sec_num buf 5 0 s"

definition hd_reassign_blocks ::
    "'w kernel \<Rightarrow> u32 \<Rightarrow> u32 \<Rightarrow> byte list option \<Rightarrow> nat \<Rightarrow> nat \<Rightarrow> 'w sdev
      \<Rightarrow> int \<times> 'w sdev" where
  "hd_reassign_blocks K longlba longlist paramp timeout retries s =
     (case paramp of
        None \<Rightarrow> (- 1, s)
      | Some p \<Rightarrow>
          let cdb = [0x07, ucast ((push_bit 1 longlba AND 2) OR (longlist AND 1)), 0, 0, 0, 0];
              (ret, sense, _, w) = scsi_execute K cdb DMA_TO_DEVICE p timeout retries (world s)
          in hd_return (hd_filter_sense K ret sense) (s\<lparr>world := w\<rparr>))"

text \<open>The parameter list: a length that does not count itself, then one address per sector.\<close>

definition reassign_param :: "sector_t \<Rightarrow> nat \<Rightarrow> byte list" where
  "reassign_param sector count =
     be_bytes 4 (of_nat (8 * count) :: u32) @
     concat (map (\<lambda>j. be_bytes 8 (sector + of_nat j)) [0..<count])"

definition hd_reassign_successive_sectors ::
    "'w kernel \<Rightarrow> sector_t \<Rightarrow> nat \<Rightarrow> 'w sdev \<Rightarrow> int \<times> 'w sdev" where
  "hd_reassign_successive_sectors K sector count s =
     (if count > 1024 then (- 1, s)
      else
        let (m, s) = alloc K (4 + 8 * count) s in
        case m of
          None \<Rightarrow> (- 1, s)
        | Some _ \<Rightarrow> hd_reassign_blocks K 1 1 (Some (reassign_param sector count)) 10 0 s)"

definition scsi_sense_valid :: "scsi_sense_hdr option \<Rightarrow> bool" where
  "scsi_sense_valid sshdr =
     (case sshdr of None \<Rightarrow> False | Some h \<Rightarrow> response_code h AND 0x70 = 0x70)"

definition sense_is :: "scsi_sense_hdr option \<Rightarrow> byte \<Rightarrow> bool" where
  "sense_is sshdr key \<longleftrightarrow> scsi_sense_valid sshdr \<and> map_option sense_key sshdr = Some key"

text \<open>
  The do-while loop of \<^verbatim>\<open>hd_test_unit_ready\<close>; \<open>hdr\<close> says whether the sense header could
  be allocated (a null header is never valid). \<^verbatim>\<open>UNIT_ATTENTION\<close> is 6, \<^verbatim>\<open>NOT_READY\<close> 2.
\<close>

fun tur_loop :: "'w kernel \<Rightarrow> bool \<Rightarrow> nat \<Rightarrow> 'w sdev \<Rightarrow> u32 \<times> scsi_sense_hdr option \<times> 'w sdev" where
  "tur_loop K hdr retries s =
     (let (result, h, _, w) =
            scsi_execute_req K [0, 0, 0, 0, 0, 0] DMA_NONE [] 10 0 (world s);
          s = s\<lparr>world := w\<rparr>;
          sshdr = (if hdr then Some h else None);
          s = (if removable s \<and> sense_is sshdr 6 then s\<lparr>changed := True\<rparr> else s)
      in if sense_is sshdr 6 \<and> 1 < retries
         then tur_loop K hdr (retries - 1) s
         else (result, sshdr, s))"

definition hd_test_unit_ready :: "'w kernel \<Rightarrow> 'w sdev \<Rightarrow> u32 \<times> 'w sdev" where
  "hd_test_unit_ready K s =
     (let (m, s) = alloc K 8 s;
          (result, sshdr, s) = tur_loop K (m \<noteq> None) 3 s
      in if sshdr = None then (result, s)
         else if removable s \<and> (sense_is sshdr 6 \<or> sense_is sshdr 2)
         then (0, s\<lparr>changed := True\<rparr>)
         else (result, s))"

fun sync_loop :: "'w kernel \<Rightarrow> nat \<Rightarrow> 'w sdev \<Rightarrow> u32 \<times> 'w sdev" where
  "sync_loop K retries s =
     (let (res, _, _, w) =
            scsi_execute_req K (0x35 # replicate 9 0) DMA_NONE [] 60 2 (world s);
          s = s\<lparr>world := w\<rparr>
      in if res = 0 \<or> retries \<le> 1 then (res, s) else sync_loop K (retries - 1) s)"

definition hd_sync_cache :: "'w kernel \<Rightarrow> 'w sdev \<Rightarrow> int \<times> 'w sdev" where
  "hd_sync_cache K s =
     (if \<not> scsi_device_online K (world s) then (- 19, s)
      else let (res, s) = sync_loop K 3 s in if res \<noteq> 0 then (- 5, s) else (0, s))"

declare tur_loop.simps [simp del] sync_loop.simps [simp del]

subsection \<open>The command block\<close>

definition cdb_lba :: "byte list \<Rightarrow> nat" where
  "cdb_lba cdb = unat (be_word (slice 2 4 cdb) :: u32)"

definition cdb_count :: "byte list \<Rightarrow> nat" where
  "cdb_count cdb = unat (be_word (slice 7 2 cdb) :: u16)"

lemma hd_cdb_fields [simp]:
  "hd_cdb opcode sector n ! 0 = opcode" "length (hd_cdb opcode sector n) = 32"
  by (simp_all add: hd_cdb_def)

lemma ucast_drop_low:
  fixes x :: "'a::len word"
  assumes "k + 8 \<le> LENGTH('b)"
  shows "(ucast (drop_bit k (ucast x :: 'b::len word)) :: byte) = ucast (drop_bit k x AND 0xff)"
proof -
  have m: "(0xff :: 'a word) = mask 8"
    by (simp add: mask_eq_exp_minus_1)
  have "n < LENGTH('a)" if "bit x (k + n)" for n
    using bit_imp_le_length [OF that] by simp
  then show ?thesis
    unfolding m using assms
    by (auto intro!: bit_eqI simp: bit_ucast_iff bit_drop_bit_eq bit_and_iff bit_mask_iff)
qed

lemma slice_hd_cdb:
  "slice 2 4 (hd_cdb opcode sector n) = be_bytes 4 (ucast sector :: u32)"
  "slice 7 2 (hd_cdb opcode sector n) = be_bytes 2 (ucast n :: u16)"
proof -
  note low = ucast_drop_low
  show "slice 2 4 (hd_cdb opcode sector n) = be_bytes 4 (ucast sector :: u32)"
    using low [of 0 sector, where 'b = 32] low [of 8 sector, where 'b = 32]
      low [of 16 sector, where 'b = 32] low [of 24 sector, where 'b = 32]
    by (simp add: hd_cdb_def slice_def be_bytes_def numeral_eq_Suc drop_bit_drop_bit)
  show "slice 7 2 (hd_cdb opcode sector n) = be_bytes 2 (ucast n :: u16)"
    using low [of 0 n, where 'b = 16] low [of 8 n, where 'b = 16]
    by (simp add: hd_cdb_def slice_def be_bytes_def numeral_eq_Suc drop_bit_drop_bit)
qed

lemma cdb_lba_hd_cdb: "cdb_lba (hd_cdb opcode sector n) = unat sector mod 2 ^ 32"
  by (simp add: cdb_lba_def slice_hd_cdb be_word_be_bytes unsigned_ucast_eq take_bit_eq_mod)

lemma cdb_count_hd_cdb: "cdb_count (hd_cdb opcode sector n) = unat n mod 2 ^ 16"
  by (simp add: cdb_count_def slice_hd_cdb be_word_be_bytes unsigned_ucast_eq take_bit_eq_mod)

subsection \<open>Input and output steps\<close>

lemma io_step_hd_return: "hd_return ret s = (r, s') \<Longrightarrow> io_step s s'"
  by (auto simp: hd_return_def Let_def split: if_splits)

lemma world_hd_return: "hd_return ret s = (r, s') \<Longrightarrow> world s' = world s"
  by (auto simp: hd_return_def Let_def atomic_inc_dead_def split: if_splits)

lemma hd_return_code: "hd_return ret s = (r, s') \<Longrightarrow> r = (if ret = 0 then 0 else - 1)"
  by (auto simp: hd_return_def Let_def split: if_splits)

lemma io_step_hd_read:
  assumes "hd_read_sector K sector n buf t r s = (x, buf', s')"
  shows "io_step s s'"
  using assms io_step_hd_return io_step_trans [OF io_step_world]
  by (fastforce simp: hd_read_sector_def split: option.splits if_splits prod.splits)

lemma io_step_hd_write:
  assumes "hd_write_sector K sector n buf t r s = (x, s')"
  shows "io_step s s'"
  using assms io_step_hd_return io_step_trans [OF io_step_world]
  by (fastforce simp: hd_write_sector_def split: option.splits if_splits prod.splits)

lemma hd_read_code:
  "hd_read_sector K sector n buf t r s = (x, buf', s') \<Longrightarrow> x = 0 \<or> x = - 1"
  by (auto simp: hd_read_sector_def dest!: hd_return_code split: option.splits if_splits prod.splits)

lemma hd_write_code:
  "hd_write_sector K sector n buf t r s = (x, s') \<Longrightarrow> x = 0 \<or> x = - 1"
  by (auto simp: hd_write_sector_def dest!: hd_return_code split: option.splits if_splits prod.splits)

lemma hd_read_None: "hd_read_sector K sector n buf t r s = (x, None, s') \<Longrightarrow> buf = None \<and> x = - 1"
  by (auto simp: hd_read_sector_def split: option.splits if_splits prod.splits)

subsection \<open>What a disk promises\<close>

definition sectors_at :: "(nat \<Rightarrow> byte list) \<Rightarrow> nat \<Rightarrow> nat \<Rightarrow> byte list" where
  "sectors_at f lba n = concat (map f [lba..<lba + n])"

lemma sectors_at_0 [simp]: "sectors_at f lba 0 = []"
  by (simp add: sectors_at_def)

lemma sectors_at_Suc: "sectors_at f lba (Suc n) = sectors_at f lba n @ f (lba + n)"
  by (simp add: sectors_at_def)

lemma sectors_at_1: "sectors_at f lba (Suc 0) = f lba"
  by (simp add: sectors_at_def)

lemma length_sectors_at: "(\<And>m. length (f m) = 512) \<Longrightarrow> length (sectors_at f lba n) = 512 * n"
  by (induction n) (simp_all add: sectors_at_Suc)

lemma sectors_at_cong:
  "(\<And>m. lba \<le> m \<Longrightarrow> m < lba + n \<Longrightarrow> f m = g m) \<Longrightarrow> sectors_at f lba n = sectors_at g lba n"
  by (auto simp: sectors_at_def intro!: arg_cong [where f = concat])

lemma sectors_at_add: "sectors_at f lba (m + n) = sectors_at f lba m @ sectors_at f (lba + m) n"
  by (induction n) (simp_all add: sectors_at_Suc add.assoc)

lemma slice_sectors_at:
  assumes "\<And>m. length (f m) = 512" "a + k \<le> n"
  shows "slice (512 * a) (512 * k) (sectors_at f lba n) = sectors_at f (lba + a) k"
proof -
  have "sectors_at f lba n = sectors_at f lba a @ sectors_at f (lba + a) k @ sectors_at f (lba + a + k) (n - a - k)"
    using assms(2) sectors_at_add [of f lba a "k + (n - a - k)"]
      sectors_at_add [of f "lba + a" k "n - a - k"] by simp
  then show ?thesis
    using length_sectors_at [of f, OF assms(1)] by (simp add: slice_def)
qed

lemma slice_sectors_at_1:
  assumes "\<And>m. length (f m) = 512" "a < n"
  shows "slice (512 * a) 512 (sectors_at f lba n) = f (lba + a)"
  using slice_sectors_at [of f a 1 n lba, OF assms(1)] assms(2) by (simp add: sectors_at_1)

lemma sectors_at_slices:
  assumes "\<And>i. i < n \<Longrightarrow> f (lba + i) = slice (512 * i) 512 b"
  shows "sectors_at f lba n = take (512 * n) b"
  using assms
proof (induction n)
  case (Suc n)
  then show ?case
    by (simp add: sectors_at_Suc slice_def take_add add.commute [of 512])
qed simp

text \<open>
  The contract. A command counts as completed when the result word is clear after the filter the
  module applies to it. A failed write may leave anything in the sectors it addressed and only
  there; a failed read may leave anything in the buffer.
\<close>

locale scsi_disk =
  fixes K :: "'w kernel" and dsk :: "'w \<Rightarrow> nat \<Rightarrow> byte list"
  assumes sector_length: "length (dsk w m) = 512"
    and read10: "scsi_execute K cdb DMA_FROM_DEVICE buf t r w = (ret, sense, buf', w') \<Longrightarrow>
      length cdb = 32 \<Longrightarrow> cdb ! 0 = 0x28 \<Longrightarrow>
      dsk w' = dsk w \<and> length buf' = length buf \<and>
      (hd_filter_sense K ret sense = 0 \<and> 512 * cdb_count cdb \<le> length buf \<longrightarrow>
        buf' = sectors_at (dsk w) (cdb_lba cdb) (cdb_count cdb) @ drop (512 * cdb_count cdb) buf)"
    and write10: "scsi_execute K cdb DMA_TO_DEVICE buf t r w = (ret, sense, buf', w') \<Longrightarrow>
      length cdb = 32 \<Longrightarrow> cdb ! 0 = 0x2a \<Longrightarrow>
      (\<forall>m. m < cdb_lba cdb \<or> cdb_lba cdb + cdb_count cdb \<le> m \<longrightarrow> dsk w' m = dsk w m) \<and>
      (hd_filter_sense K ret sense = 0 \<and> 512 * cdb_count cdb \<le> length buf \<longrightarrow>
        (\<forall>i < cdb_count cdb. dsk w' (cdb_lba cdb + i) = slice (512 * i) 512 buf))"
    and no_data: "scsi_execute_req K cdb DMA_NONE [] t r w = (ret, sshdr, buf', w') \<Longrightarrow>
      dsk w' = dsk w"
    and kmalloc_ok: "kmalloc K n w = (p, w') \<Longrightarrow>
      dsk w' = dsk w \<and> (case p of None \<Rightarrow> True | Some b \<Rightarrow> length b = n)"
begin

lemma hd_read_law:
  assumes "hd_read_sector K sector n (Some b) t r s = (x, ob, s')"
  shows "\<exists>b'. ob = Some b' \<and> length b' = length b \<and> dsk (world s') = dsk (world s) \<and>
    (x = 0 \<and> unat sector < 2 ^ 32 \<and> unat n < 2 ^ 16 \<and> length b < 2 ^ 32 \<longrightarrow>
      512 * unat n \<le> length b \<and>
      b' = sectors_at (dsk (world s)) (unat sector) (unat n) @ drop (512 * unat n) b)"
proof (cases "(of_nat (length b) :: u32) < 512 * n")
  case True
  then show ?thesis using assms by (auto simp: hd_read_sector_def)
next
  case False
  obtain ret sense b' w where
    e: "scsi_execute K (hd_cdb 0x28 sector n) DMA_FROM_DEVICE b t r (world s) = (ret, sense, b', w)"
    by (metis prod_cases4)
  obtain x' s'' where h: "hd_return (hd_filter_sense K ret sense) (s\<lparr>world := w\<rparr>) = (x', s'')"
    by fastforce
  have r: "x' = x" "ob = Some b'" "s'' = s'"
    using assms False e h by (simp_all add: hd_read_sector_def)
  have "512 * unat n \<le> length b" if "unat n < 2 ^ 16" "length b < 2 ^ 32"
    using False that by (simp add: word_less_nat_alt unat_word_ariths unat_of_nat)
  then show ?thesis
    using read10 [OF e] r hd_return_code [OF h] world_hd_return [OF h]
    by (auto simp: cdb_lba_hd_cdb cdb_count_hd_cdb split: if_splits)
qed

lemma hd_read_exact:
  assumes "hd_read_sector K sector n (Some b) t r s = (0, ob, s')"
    and "unat sector < 2 ^ 32" "unat n < 2 ^ 16" "length b = 512 * unat n"
  shows "ob = Some (sectors_at (dsk (world s)) (unat sector) (unat n))"
  using hd_read_law [OF assms(1)] assms(2-) by auto

lemma hd_write_law:
  assumes "hd_write_sector K sector n (Some b) t r s = (x, s')"
    and "unat sector < 2 ^ 32" "unat n < 2 ^ 16" "length b < 2 ^ 32"
  shows "(\<forall>m. m < unat sector \<or> unat sector + unat n \<le> m \<longrightarrow> dsk (world s') m = dsk (world s) m) \<and>
    (x = 0 \<longrightarrow> 512 * unat n \<le> length b \<and>
      (\<forall>i < unat n. dsk (world s') (unat sector + i) = slice (512 * i) 512 b))"
proof (cases "(of_nat (length b) :: u32) < 512 * n")
  case True
  then show ?thesis using assms(1) by (auto simp: hd_write_sector_def)
next
  case False
  obtain ret sense b' w where
    e: "scsi_execute K (hd_cdb 0x2a sector n) DMA_TO_DEVICE b t r (world s) = (ret, sense, b', w)"
    by (metis prod_cases4)
  have h: "hd_return (hd_filter_sense K ret sense) (s\<lparr>world := w\<rparr>) = (x, s')"
    using assms(1) False e by (simp add: hd_write_sector_def)
  have "512 * unat n \<le> length b"
    using False assms(3,4) by (simp add: word_less_nat_alt unat_word_ariths unat_of_nat)
  then show ?thesis
    using write10 [OF e] hd_return_code [OF h] world_hd_return [OF h] assms(2,3)
    by (auto simp: cdb_lba_hd_cdb cdb_count_hd_cdb split: if_splits)
qed

lemma hd_write_stored:
  assumes "hd_write_sector K sector n (Some b) t r s = (0, s')"
    and "unat sector < 2 ^ 32" "unat n < 2 ^ 16" "length b = 512 * unat n"
  shows "sectors_at (dsk (world s')) (unat sector) (unat n) = b"
  using hd_write_law [OF assms(1-3)] assms(3,4) by (simp add: sectors_at_slices)

lemma hd_write_None: "hd_write_sector K sector n None t r s = (- 1, s)"
  by (simp add: hd_write_sector_def)

lemma alloc_law:
  assumes "alloc K n s = (m, s')"
  shows "dsk (world s') = dsk (world s) \<and> (case m of None \<Rightarrow> True | Some b \<Rightarrow> length b = n)"
proof -
  obtain p w where "kmalloc K n (world s) = (p, w)" by fastforce
  then show ?thesis
    using assms kmalloc_ok by (auto simp: alloc_def)
qed

end

end
