(* ===== verification/Crc32.thy ===== *)
theory Crc32
  imports Swap_Prelude
begin

text \<open>
  \<^verbatim>\<open>drivers/scsi/swap/crc32.c\<close>: the table-driven CRC that protects the swap head, the
  mapping table and the log. The reference is the bit-serial division by the reflected
  polynomial 0xEDB88320; the routine of the source (a lookup table and a loop unrolled eight
  times) is shown to compute it, and the checksum is shown to see any change of one byte.
\<close>

definition crc32_table :: "u32 list" where
  "crc32_table =
    [
     0x00000000, 0x77073096, 0xee0e612c, 0x990951ba, 0x076dc419,
     0x706af48f, 0xe963a535, 0x9e6495a3, 0x0edb8832, 0x79dcb8a4,
     0xe0d5e91e, 0x97d2d988, 0x09b64c2b, 0x7eb17cbd, 0xe7b82d07,
     0x90bf1d91, 0x1db71064, 0x6ab020f2, 0xf3b97148, 0x84be41de,
     0x1adad47d, 0x6ddde4eb, 0xf4d4b551, 0x83d385c7, 0x136c9856,
     0x646ba8c0, 0xfd62f97a, 0x8a65c9ec, 0x14015c4f, 0x63066cd9,
     0xfa0f3d63, 0x8d080df5, 0x3b6e20c8, 0x4c69105e, 0xd56041e4,
     0xa2677172, 0x3c03e4d1, 0x4b04d447, 0xd20d85fd, 0xa50ab56b,
     0x35b5a8fa, 0x42b2986c, 0xdbbbc9d6, 0xacbcf940, 0x32d86ce3,
     0x45df5c75, 0xdcd60dcf, 0xabd13d59, 0x26d930ac, 0x51de003a,
     0xc8d75180, 0xbfd06116, 0x21b4f4b5, 0x56b3c423, 0xcfba9599,
     0xb8bda50f, 0x2802b89e, 0x5f058808, 0xc60cd9b2, 0xb10be924,
     0x2f6f7c87, 0x58684c11, 0xc1611dab, 0xb6662d3d, 0x76dc4190,
     0x01db7106, 0x98d220bc, 0xefd5102a, 0x71b18589, 0x06b6b51f,
     0x9fbfe4a5, 0xe8b8d433, 0x7807c9a2, 0x0f00f934, 0x9609a88e,
     0xe10e9818, 0x7f6a0dbb, 0x086d3d2d, 0x91646c97, 0xe6635c01,
     0x6b6b51f4, 0x1c6c6162, 0x856530d8, 0xf262004e, 0x6c0695ed,
     0x1b01a57b, 0x8208f4c1, 0xf50fc457, 0x65b0d9c6, 0x12b7e950,
     0x8bbeb8ea, 0xfcb9887c, 0x62dd1ddf, 0x15da2d49, 0x8cd37cf3,
     0xfbd44c65, 0x4db26158, 0x3ab551ce, 0xa3bc0074, 0xd4bb30e2,
     0x4adfa541, 0x3dd895d7, 0xa4d1c46d, 0xd3d6f4fb, 0x4369e96a,
     0x346ed9fc, 0xad678846, 0xda60b8d0, 0x44042d73, 0x33031de5,
     0xaa0a4c5f, 0xdd0d7cc9, 0x5005713c, 0x270241aa, 0xbe0b1010,
     0xc90c2086, 0x5768b525, 0x206f85b3, 0xb966d409, 0xce61e49f,
     0x5edef90e, 0x29d9c998, 0xb0d09822, 0xc7d7a8b4, 0x59b33d17,
     0x2eb40d81, 0xb7bd5c3b, 0xc0ba6cad, 0xedb88320, 0x9abfb3b6,
     0x03b6e20c, 0x74b1d29a, 0xead54739, 0x9dd277af, 0x04db2615,
     0x73dc1683, 0xe3630b12, 0x94643b84, 0x0d6d6a3e, 0x7a6a5aa8,
     0xe40ecf0b, 0x9309ff9d, 0x0a00ae27, 0x7d079eb1, 0xf00f9344,
     0x8708a3d2, 0x1e01f268, 0x6906c2fe, 0xf762575d, 0x806567cb,
     0x196c3671, 0x6e6b06e7, 0xfed41b76, 0x89d32be0, 0x10da7a5a,
     0x67dd4acc, 0xf9b9df6f, 0x8ebeeff9, 0x17b7be43, 0x60b08ed5,
     0xd6d6a3e8, 0xa1d1937e, 0x38d8c2c4, 0x4fdff252, 0xd1bb67f1,
     0xa6bc5767, 0x3fb506dd, 0x48b2364b, 0xd80d2bda, 0xaf0a1b4c,
     0x36034af6, 0x41047a60, 0xdf60efc3, 0xa867df55, 0x316e8eef,
     0x4669be79, 0xcb61b38c, 0xbc66831a, 0x256fd2a0, 0x5268e236,
     0xcc0c7795, 0xbb0b4703, 0x220216b9, 0x5505262f, 0xc5ba3bbe,
     0xb2bd0b28, 0x2bb45a92, 0x5cb36a04, 0xc2d7ffa7, 0xb5d0cf31,
     0x2cd99e8b, 0x5bdeae1d, 0x9b64c2b0, 0xec63f226, 0x756aa39c,
     0x026d930a, 0x9c0906a9, 0xeb0e363f, 0x72076785, 0x05005713,
     0x95bf4a82, 0xe2b87a14, 0x7bb12bae, 0x0cb61b38, 0x92d28e9b,
     0xe5d5be0d, 0x7cdcefb7, 0x0bdbdf21, 0x86d3d2d4, 0xf1d4e242,
     0x68ddb3f8, 0x1fda836e, 0x81be16cd, 0xf6b9265b, 0x6fb077e1,
     0x18b74777, 0x88085ae6, 0xff0f6a70, 0x66063bca, 0x11010b5c,
     0x8f659eff, 0xf862ae69, 0x616bffd3, 0x166ccf45, 0xa00ae278,
     0xd70dd2ee, 0x4e048354, 0x3903b3c2, 0xa7672661, 0xd06016f7,
     0x4969474d, 0x3e6e77db, 0xaed16a4a, 0xd9d65adc, 0x40df0b66,
     0x37d83bf0, 0xa9bcae53, 0xdebb9ec5, 0x47b2cf7f, 0x30b5ffe9,
     0xbdbdf21c, 0xcabac28a, 0x53b39330, 0x24b4a3a6, 0xbad03605,
     0xcdd70693, 0x54de5729, 0x23d967bf, 0xb3667a2e, 0xc4614ab8,
     0x5d681b02, 0x2a6f2b94, 0xb40bbe37, 0xc30c8ea1, 0x5a05df1b,
     0x2d02ef8d]"

text \<open>The macro DO1: one byte. DO8 is eight of them, and the loop takes eight bytes while
  it can.\<close>

definition DO1 :: "u32 \<Rightarrow> byte \<Rightarrow> u32" where
  "DO1 crc b = (crc32_table ! unat ((crc XOR ucast b) AND 0xff)) XOR drop_bit 8 crc"

fun DO8_loop :: "u32 \<Rightarrow> byte list \<Rightarrow> u32 \<times> byte list" where
  "DO8_loop crc (b0 # b1 # b2 # b3 # b4 # b5 # b6 # b7 # bs) =
     DO8_loop (DO1 (DO1 (DO1 (DO1 (DO1 (DO1 (DO1 (DO1 crc b0) b1) b2) b3) b4) b5) b6) b7) bs"
| "DO8_loop crc bs = (crc, bs)"

definition swap_crc32 :: "u32 \<Rightarrow> byte list \<Rightarrow> u32" where
  "swap_crc32 crc ss =
     (let (crc, rest) = DO8_loop (crc XOR 0xffffffff) ss
      in foldl DO1 crc rest XOR 0xffffffff)"

subsection \<open>The bit-serial reference\<close>

definition crc32_bit :: "u32 \<Rightarrow> u32" where
  "crc32_bit c = (if bit c 0 then drop_bit 1 c XOR 0xEDB88320 else drop_bit 1 c)"

definition crc32_8bits :: "u32 \<Rightarrow> u32" where
  "crc32_8bits c = crc32_bit (crc32_bit (crc32_bit (crc32_bit
     (crc32_bit (crc32_bit (crc32_bit (crc32_bit c)))))))"

definition crc32_ref :: "u32 \<Rightarrow> byte list \<Rightarrow> u32" where
  "crc32_ref crc bs = NOT (foldl (\<lambda>c b. crc32_8bits (c XOR ucast b)) (NOT crc) bs)"

lemma upt_256: "[0..<256] = [0, 1, 2, 3, 4, 5, 6, 7, 8, 9, 10, 11, 12, 13, 14, 15,
    16, 17, 18, 19, 20, 21, 22, 23, 24, 25, 26, 27, 28, 29, 30, 31,
    32, 33, 34, 35, 36, 37, 38, 39, 40, 41, 42, 43, 44, 45, 46, 47,
    48, 49, 50, 51, 52, 53, 54, 55, 56, 57, 58, 59, 60, 61, 62, 63,
    64, 65, 66, 67, 68, 69, 70, 71, 72, 73, 74, 75, 76, 77, 78, 79,
    80, 81, 82, 83, 84, 85, 86, 87, 88, 89, 90, 91, 92, 93, 94, 95,
    96, 97, 98, 99, 100, 101, 102, 103, 104, 105, 106, 107, 108, 109, 110, 111,
    112, 113, 114, 115, 116, 117, 118, 119, 120, 121, 122, 123, 124, 125, 126, 127,
    128, 129, 130, 131, 132, 133, 134, 135, 136, 137, 138, 139, 140, 141, 142, 143,
    144, 145, 146, 147, 148, 149, 150, 151, 152, 153, 154, 155, 156, 157, 158, 159,
    160, 161, 162, 163, 164, 165, 166, 167, 168, 169, 170, 171, 172, 173, 174, 175,
    176, 177, 178, 179, 180, 181, 182, 183, 184, 185, 186, 187, 188, 189, 190, 191,
    192, 193, 194, 195, 196, 197, 198, 199, 200, 201, 202, 203, 204, 205, 206, 207,
    208, 209, 210, 211, 212, 213, 214, 215, 216, 217, 218, 219, 220, 221, 222, 223,
    224, 225, 226, 227, 228, 229, 230, 231, 232, 233, 234, 235, 236, 237, 238, 239,
    240, 241, 242, 243, 244, 245, 246, 247, 248, 249, 250, 251, 252, 253, 254, 255]"
  by (simp add: upt_rec_numeral upt_conv_Cons)

lemma crc32_table_eq: "crc32_table = map (\<lambda>n. crc32_8bits (word_of_nat n)) [0..<256]"
  by (simp only: crc32_8bits_def crc32_table_def upt_256 list.map) (simp add: crc32_bit_def bit_0)

lemma crc32_bit_xor: "crc32_bit (x XOR y) = crc32_bit x XOR crc32_bit y"
  by (auto simp: crc32_bit_def bit_xor_iff drop_bit_xor ac_simps)

lemma crc32_8bits_xor: "crc32_8bits (x XOR y) = crc32_8bits x XOR crc32_8bits y"
  by (simp add: crc32_8bits_def crc32_bit_xor)

lemma crc32_bit_even: "\<not> bit x 0 \<Longrightarrow> crc32_bit x = drop_bit 1 x"
  by (simp add: crc32_bit_def)

lemma low_byte_mask: "(0xff :: u32) = mask 8"
  by (simp add: mask_eq_exp_minus_1)

lemma crc32_8bits_aligned:
  assumes "\<And>k. k < 8 \<Longrightarrow> \<not> bit y k"
  shows "crc32_8bits y = drop_bit 8 y"
proof -
  have e: "crc32_bit (drop_bit k y) = drop_bit (Suc k) y" if "k < 8" for k
    using crc32_bit_even [of "drop_bit k y"] assms [OF that]
    by (simp add: bit_drop_bit_eq drop_bit_drop_bit)
  have z: "crc32_bit y = drop_bit (Suc 0) y"
    using e [of 0] by simp
  show ?thesis
    by (simp add: crc32_8bits_def z e numeral_eq_Suc)
qed

lemma crc32_8bits_split: "crc32_8bits x = crc32_8bits (x AND 0xff) XOR drop_bit 8 x"
proof -
  have "x = (x AND mask 8) XOR (x AND NOT (mask 8))"
    by (rule bit_eqI) (auto simp: bit_xor_iff bit_and_iff bit_not_iff)
  then have "crc32_8bits x = crc32_8bits (x AND mask 8) XOR crc32_8bits (x AND NOT (mask 8))"
    by (metis crc32_8bits_xor)
  moreover have "crc32_8bits (x AND NOT (mask 8)) = drop_bit 8 (x AND NOT (mask 8))"
    by (rule crc32_8bits_aligned) (simp add: bit_and_iff bit_not_iff bit_mask_iff)
  moreover have "drop_bit 8 (x AND NOT (mask 8)) = drop_bit 8 x"
    by (rule bit_eqI) (auto simp: bit_drop_bit_eq bit_and_iff bit_not_iff bit_mask_iff
        dest: bit_imp_le_length)
  ultimately show ?thesis by (simp only: low_byte_mask)
qed

lemma low_byte_less: "unat (x AND 0xff :: u32) < 256"
proof -
  have "x AND 0xff \<le> (0xff :: u32)" by (rule word_and_le1)
  then have "unat (x AND 0xff) \<le> unat (0xff :: u32)" by (simp add: word_le_nat_alt)
  then show ?thesis by simp
qed

lemma crc32_table_nth: "n < 256 \<Longrightarrow> crc32_table ! n = crc32_8bits (word_of_nat n)"
  by (simp add: crc32_table_eq)

lemma DO1_eq: "DO1 crc b = crc32_8bits (crc XOR ucast b)"
proof -
  have "drop_bit 8 (crc XOR ucast b) = drop_bit 8 crc"
    by (rule bit_eqI) (auto simp: bit_drop_bit_eq bit_xor_iff bit_ucast_iff dest: bit_imp_le_length)
  moreover have "crc32_table ! unat ((crc XOR ucast b) AND 0xff)
      = crc32_8bits ((crc XOR ucast b) AND 0xff)"
    by (simp add: crc32_table_nth low_byte_less)
  ultimately show ?thesis
    by (simp add: DO1_def crc32_8bits_split [of "crc XOR ucast b"])
qed

lemma DO8_loop_foldl: "(let (c, rest) = DO8_loop crc bs in foldl DO1 c rest) = foldl DO1 crc bs"
  by (induction crc bs rule: DO8_loop.induct) simp_all

lemma swap_crc32_foldl: "swap_crc32 crc bs = NOT (foldl DO1 (NOT crc) bs)"
proof -
  have ones: "(0xffffffff :: u32) = NOT 0" by simp
  have n: "x XOR 0xffffffff = NOT x" for x :: u32
    by (rule bit_eqI) (simp add: ones bit_xor_iff bit_not_iff)
  show ?thesis
    using DO8_loop_foldl [of "NOT crc" bs]
    by (simp add: swap_crc32_def n split: prod.splits)
qed

subsection \<open>What the checksum sees\<close>

lemma crc32_bit_inj: "crc32_bit x = crc32_bit y \<Longrightarrow> x = y"
proof -
  have top: "bit (crc32_bit z) 31 \<longleftrightarrow> bit z 0" for z
    by (auto simp: crc32_bit_def bit_xor_iff bit_drop_bit_eq dest: bit_imp_le_length)
  assume e: "crc32_bit x = crc32_bit y"
  then have b0: "bit x 0 \<longleftrightarrow> bit y 0" using top by metis
  have d: "drop_bit 1 x = drop_bit 1 y"
    using e b0 by (auto simp: crc32_bit_def word_xor_cancel split: if_splits)
  show "x = y"
  proof (rule bit_eqI)
    fix n
    show "bit x n = bit y n"
      using b0 arg_cong [OF d, of "\<lambda>w. bit w (n - 1)"]
      by (cases n) (auto simp: bit_drop_bit_eq)
  qed
qed

lemma crc32_8bits_inj: "crc32_8bits x = crc32_8bits y \<longleftrightarrow> x = y"
  by (auto simp: crc32_8bits_def dest!: crc32_bit_inj)

lemma DO1_inj_crc: "DO1 c b = DO1 c' b \<longleftrightarrow> c = c'"
  by (simp add: DO1_eq crc32_8bits_inj word_xor_cancel)

lemma DO1_inj_byte: "DO1 c b = DO1 c b' \<longleftrightarrow> b = b'"
  by (simp add: DO1_eq crc32_8bits_inj xor.commute [of c] word_xor_cancel ucast_inj_up)

lemma foldl_DO1_inj: "foldl DO1 c bs = foldl DO1 c' bs \<longleftrightarrow> c = c'"
  by (induction bs arbitrary: c c') (auto simp: DO1_inj_crc)

lemma swap_crc32_bits: "swap_crc32 crc bs = crc32_ref crc bs"
  by (simp add: swap_crc32_foldl crc32_ref_def DO1_eq [abs_def])

text \<open>
  C11: the table-driven checksum, with its eight-fold unrolled loop, computes on
  every input what the bit-by-bit CRC-32 with the reflected polynomial 0xedb88320 computes.
\<close>

theorem swap_crc32_correct: "swap_crc32 crc bs = crc32_ref crc bs"
  by (rule swap_crc32_bits)

text \<open>
  C19: two messages that differ in exactly one byte never have the same
  checksum, so damage confined to one byte of a protected structure is always seen.
\<close>

theorem swap_crc32_single_byte:
  "swap_crc32 crc (xs @ b # ys) = swap_crc32 crc (xs @ b' # ys) \<longleftrightarrow> b = b'"
  by (simp add: swap_crc32_foldl foldl_DO1_inj DO1_inj_byte bit.compl_eq_compl_iff)

text \<open>
  C20: feeding a message in two parts, the first result as the start value of the
  second call, gives the checksum of the whole.
\<close>

theorem swap_crc32_append: "swap_crc32 (swap_crc32 crc xs) ys = swap_crc32 crc (xs @ ys)"
  by (simp add: swap_crc32_foldl)

end
