(* ===== verification/Sysfs_Text.thy ===== *)
theory Sysfs_Text
  imports Swap_Prelude
begin

text \<open>
  The text side of the sysfs files: decimal printing as \<^verbatim>\<open>snprintf\<close> does it for
  \<^verbatim>\<open>%u\<close> and \<^verbatim>\<open>%llu\<close>, decimal scanning as \<^verbatim>\<open>sscanf\<close> does it, and
  the loop with which the three \<^verbatim>\<open>show\<close> functions fill the page that sysfs hands them.
\<close>

abbreviation (input) PAGE_SIZE :: nat where
  "PAGE_SIZE \<equiv> 4096"

subsection \<open>Decimal numbers\<close>

definition digit :: "nat \<Rightarrow> char" where
  "digit n = char_of (48 + n)"

definition digit_val :: "char \<Rightarrow> nat" where
  "digit_val c = of_char c - 48"

definition is_digit :: "char \<Rightarrow> bool" where
  "is_digit c \<longleftrightarrow> 48 \<le> (of_char c :: nat) \<and> (of_char c :: nat) \<le> 57"

definition is_space :: "char \<Rightarrow> bool" where
  "is_space c \<longleftrightarrow> (9 \<le> (of_char c :: nat) \<and> (of_char c :: nat) \<le> 13) \<or> (of_char c :: nat) = 32"

fun dec :: "nat \<Rightarrow> string" where
  "dec n = (if n < 10 then [digit n] else dec (n div 10) @ [digit (n mod 10)])"

declare dec.simps [simp del]

definition undec :: "string \<Rightarrow> nat" where
  "undec = foldl (\<lambda>a c. 10 * a + digit_val c) 0"

text \<open>\<^verbatim>\<open>%u\<close>, \<^verbatim>\<open>%llu\<close>: skip blanks, then take as many digits as there are.\<close>

definition scan_number :: "string \<Rightarrow> (nat \<times> string) option" where
  "scan_number s =
     (let s = dropWhile is_space s; ds = takeWhile is_digit s
      in if ds = [] then None else Some (undec ds, dropWhile is_digit s))"

definition scan_literal :: "string \<Rightarrow> string \<Rightarrow> string option" where
  "scan_literal lit s = (if take (length lit) s = lit then Some (drop (length lit) s) else None)"

lemma digit_simps [simp]:
  "n < 10 \<Longrightarrow> is_digit (digit n)" "n < 10 \<Longrightarrow> digit_val (digit n) = n"
  "n < 10 \<Longrightarrow> \<not> is_space (digit n)"
  by (simp_all add: digit_def is_digit_def digit_val_def is_space_def)

lemma dec_nonempty [simp]: "dec n \<noteq> []"
  by (subst dec.simps) simp

lemma dec_digits: "c \<in> set (dec n) \<Longrightarrow> is_digit c \<and> \<not> is_space c"
proof (induction n rule: dec.induct)
  case (1 n)
  show ?case
  proof (cases "n < 10")
    case True
    with "1.prems" show ?thesis by (simp add: dec.simps [of n])
  next
    case False
    then have "n mod 10 < 10" by simp
    with False "1.prems" "1.IH" [OF False] show ?thesis
      by (auto simp: dec.simps [of n])
  qed
qed

lemma undec_dec: "undec (dec n) = n"
proof (induction n rule: dec.induct)
  case (1 n)
  show ?case
  proof (cases "n < 10")
    case True
    then show ?thesis by (simp add: dec.simps [of n] undec_def)
  next
    case False
    with "1.IH" show ?thesis by (simp add: dec.simps [of n] undec_def)
  qed
qed

lemma length_dec: "0 < k \<Longrightarrow> n < 10 ^ k \<Longrightarrow> length (dec n) \<le> k"
proof (induction n arbitrary: k rule: dec.induct)
  case (1 n)
  show ?case
  proof (cases "n < 10")
    case True
    with "1.prems" show ?thesis by (simp add: dec.simps [of n])
  next
    case False
    then obtain j where j: "k = Suc j" "0 < j"
      using "1.prems" by (cases k; cases "k - 1") auto
    with "1.prems" have "n div 10 < 10 ^ j" by (simp add: div_less_iff_less_mult mult.commute)
    with "1.IH" [OF False j(2)] j False show ?thesis by (simp add: dec.simps [of n])
  qed
qed

lemma length_dec_u64: "length (dec (unat (w :: u64))) \<le> 20"
  using unat_less_u64 [of w] by (intro length_dec) simp_all

lemma length_dec_u32: "length (dec (unat (w :: u32))) \<le> 10"
  using unat_less_u32 [of w] by (intro length_dec) simp_all

lemma scan_number_dec:
  assumes "rest = [] \<or> \<not> is_digit (hd rest)"
  shows "scan_number (dec n @ rest) = Some (n, rest)"
proof -
  have s: "dropWhile is_space (dec n @ rest) = dec n @ rest"
    using dec_digits [of "hd (dec n)" n] by (cases "dec n") auto
  have t: "takeWhile is_digit (dec n @ rest) = dec n" "dropWhile is_digit (dec n @ rest) = rest"
    using assms dec_digits by (cases rest; auto simp: takeWhile_append dropWhile_append)+
  show ?thesis by (simp add: scan_number_def s t undec_dec Let_def)
qed

lemma scan_number_space: "is_space c \<Longrightarrow> scan_number (c # s) = scan_number s"
  by (simp add: scan_number_def)

subsection \<open>Filling the page\<close>

text \<open>
  One line per entry while the line, with its terminating NUL, still fits in what is left of
  the page.
\<close>

fun page_fill :: "string list \<Rightarrow> nat \<Rightarrow> string \<Rightarrow> string \<times> nat" where
  "page_fill [] left page = (page, left)"
| "page_fill (l # ls) left page =
     (if left \<le> length l then (page, left) else page_fill ls (left - length l) (page @ l))"

lemma page_fill_length:
  "page_fill ls left page = (page', left') \<Longrightarrow> length page' + left' = length page + left"
  by (induction ls arbitrary: left page) (auto split: if_splits)

lemma page_fill_left: "0 < left \<Longrightarrow> page_fill ls left page = (page', left') \<Longrightarrow> 0 < left'"
proof (induction ls arbitrary: left page)
  case Nil
  then show ?case by simp
next
  case (Cons l ls)
  then show ?case by (cases "left \<le> length l") (simp_all, metis not_le zero_less_diff)
qed

lemma page_fill_prefix:
  "page_fill ls left page = (page', left') \<Longrightarrow> \<exists>n \<le> length ls. page' = page @ concat (take n ls)"
proof (induction ls arbitrary: left page)
  case Nil
  then show ?case by simp
next
  case (Cons l ls)
  show ?case
  proof (cases "left \<le> length l")
    case True
    with Cons.prems show ?thesis by (intro exI [of _ 0]) simp
  next
    case False
    with Cons.prems have "page_fill ls (left - length l) (page @ l) = (page', left')" by simp
    from Cons.IH [OF this] obtain n where "n \<le> length ls" "page' = (page @ l) @ concat (take n ls)"
      by blast
    then show ?thesis by (intro exI [of _ "Suc n"]) simp
  qed
qed

lemma page_fill_all:
  "length (concat ls) < left \<Longrightarrow> page_fill ls left page = (page @ concat ls, left - length (concat ls))"
  by (induction ls arbitrary: left page) auto

end
