(* ===== verification/Log.thy ===== *)
theory Log
  imports Utils Crc32 Sysfs_Text
begin

text \<open>
  \<^verbatim>\<open>log.c\<close>: the log of swap operations, a ring of 512 items of 32 bytes that is mirrored to
  32 sectors of the reserved area, with a head sector that records how many items there are and
  where the next one goes. A null ring (the allocation in \<^verbatim>\<open>scsi_swap_log_init\<close> failed) is a
  fault when it is used.
\<close>

subsection \<open>Structures\<close>

datatype LOG_TYPE = LOG_TYPE_CREATE | LOG_TYPE_FIX | LOG_TYPE_CRC_FAILED

primrec log_type_code :: "LOG_TYPE \<Rightarrow> byte" where
  "log_type_code LOG_TYPE_CREATE = 0"
| "log_type_code LOG_TYPE_FIX = 1"
| "log_type_code LOG_TYPE_CRC_FAILED = 2"

datatype LOG_CREATE_FAILED =
  LOG_FAILED_CREATE_MAXCOUNT | LOG_FAILED_CREATE_MALLOC
| LOG_FAILED_CREATE_WRITE_DST | LOG_FAILED_CREATE_FLUSH_HEAD

primrec log_failed_code :: "LOG_CREATE_FAILED \<Rightarrow> byte" where
  "log_failed_code LOG_FAILED_CREATE_MAXCOUNT = 0"
| "log_failed_code LOG_FAILED_CREATE_MALLOC = 1"
| "log_failed_code LOG_FAILED_CREATE_WRITE_DST = 2"
| "log_failed_code LOG_FAILED_CREATE_FLUSH_HEAD = 3"

text \<open>The reason \<open>-1\<close> of the source is \<^const>\<open>None\<close>.\<close>

definition LOG_RESULT :: "LOG_CREATE_FAILED option \<Rightarrow> byte" where
  "LOG_RESULT fail_reason =
     (case fail_reason of None \<Rightarrow> 0 | Some r \<Rightarrow> 1 OR push_bit 1 (log_failed_code r))"

record scsi_swap_log_item =
  li_crc :: u32
  li_time :: u32
  li_src :: u64
  li_dst :: u64
  li_count :: u16
  li_type :: byte
  li_result :: byte
  li_reboot :: byte
  li_fix :: byte
  li_curr :: byte
  li_reserved :: byte

definition item_bytes :: "scsi_swap_log_item \<Rightarrow> byte list" where
  "item_bytes i =
     le_bytes 4 (li_crc i) @ le_bytes 4 (li_time i) @ le_bytes 8 (li_src i) @ le_bytes 8 (li_dst i) @
     le_bytes 2 (li_count i) @
     [li_type i, li_result i, li_reboot i, li_fix i, li_curr i, li_reserved i]"

definition item_of_bytes :: "byte list \<Rightarrow> scsi_swap_log_item" where
  "item_of_bytes b =
     \<lparr>li_crc = le_word (slice 0 4 b), li_time = le_word (slice 4 4 b),
      li_src = le_word (slice 8 8 b), li_dst = le_word (slice 16 8 b),
      li_count = le_word (slice 24 2 b), li_type = b ! 26, li_result = b ! 27,
      li_reboot = b ! 28, li_fix = b ! 29, li_curr = b ! 30, li_reserved = b ! 31\<rparr>"

definition log_head_bytes :: "scsi_swap_log_head \<Rightarrow> byte list" where
  "log_head_bytes h = le_bytes 4 (lh_crc h) @ le_bytes 2 (lh_item_num h) @ le_bytes 2 (lh_item_next h)"

definition log_head_of_bytes :: "byte list \<Rightarrow> scsi_swap_log_head" where
  "log_head_of_bytes b =
     \<lparr>lh_crc = le_word (slice 0 4 b), lh_item_num = le_word (slice 4 2 b),
      lh_item_next = le_word (slice 6 2 b)\<rparr>"

subsection \<open>Operations\<close>

definition scsi_swap_log_crc_head :: "scsi_swap_log_head \<Rightarrow> u32" where
  "scsi_swap_log_crc_head h = swap_crc32 0xffffffff (slice 4 4 (log_head_bytes h))"

definition scsi_swap_log_crc_item :: "scsi_swap_log_item \<Rightarrow> u32" where
  "scsi_swap_log_crc_item i = swap_crc32 0xffffffff (slice 4 28 (item_bytes i))"

definition scsi_swap_log_update_data ::
    "'w kernel \<Rightarrow> scsi_swap_log_item \<Rightarrow> 'w sdev \<Rightarrow> (int \<times> 'w sdev) option" where
  "scsi_swap_log_update_data K item s = do {
     r \<leftarrow> ring (slog s);
     (start, r') \<leftarrow> cspring_push r (item_bytes item);
     let s = s\<lparr>slog := (slog s)\<lparr>ring := Some r'\<rparr>\<rparr>;
     let i_sector = start sdiv 512;
     let sector = log_sector_data (slog s) + of_int i_sector;
     data \<leftarrow> memread (buffer r') (nat i_sector) 512;
     Some (hd_write_sector_no_retry K sector 1 (Some data) s)
   }"

definition scsi_swap_log_update_head ::
    "'w kernel \<Rightarrow> 'w sdev \<Rightarrow> (int \<times> 'w sdev) option" where
  "scsi_swap_log_update_head K s = do {
     r \<leftarrow> ring (slog s);
     let h = (lhead (slog s))\<lparr>lh_item_num := of_int (item_num r), lh_item_next := of_int (item_next r)\<rparr>;
     let h = h\<lparr>lh_crc := scsi_swap_log_crc_head h\<rparr>;
     let s = s\<lparr>slog := (slog s)\<lparr>lhead := h\<rparr>\<rparr>;
     let sector = log_sector_head (slog s);
     let buf = log_head_bytes h @ replicate 504 0;
     Some (hd_write_sector_no_retry K sector 1 (Some buf) s)
   }"

text \<open>The offset of the item in the ring's buffer, \<^const>\<open>None\<close> for a null pointer.\<close>

definition scsi_swap_log_peek :: "cspring \<Rightarrow> int \<Rightarrow> int option" where
  "scsi_swap_log_peek r index =
     (if index < 0 \<or> index \<ge> item_num r then None else Some (cspring_peek r index))"

definition scsi_swap_log_last :: "cspring \<Rightarrow> int option" where
  "scsi_swap_log_last r =
     (let num = item_num r in if num = 0 then None else scsi_swap_log_peek r (num - 1))"

text \<open>Reading the item a pointer into the buffer points at.\<close>

definition item_at :: "cspring \<Rightarrow> int \<Rightarrow> scsi_swap_log_item option" where
  "item_at r off =
     (if off < 0 then None else map_option item_of_bytes (memread (buffer r) (nat off) 32))"

definition scsi_swap_log_load :: "'w kernel \<Rightarrow> 'w sdev \<Rightarrow> (int \<times> 'w sdev) option" where
  "scsi_swap_log_load K s =
     (let (ret, buf, s) =
            hd_read_sector_no_retry K (log_sector_head (slog s)) 1 (Some (replicate 512 0)) s
      in if ret = - 1 then Some (- 1, s)
         else do {
           b \<leftarrow> buf;
           let h = log_head_of_bytes (slice 0 8 b);
           let s = s\<lparr>slog := (slog s)\<lparr>lhead := h\<rparr>\<rparr>;
           let crc = scsi_swap_log_crc_head h;
           if lh_crc h \<noteq> crc then Some (- 1, s)
           else do {
             r \<leftarrow> ring (slog s);
             data \<leftarrow> memread (buffer r) 0 (32 * 16 * 32);
             let (ret, data', s) =
               hd_read_sector_no_retry K (log_sector_data (slog s)) 32 (Some data) s;
             d \<leftarrow> data';
             Some (ret, s\<lparr>slog := (slog s)\<lparr>ring := Some (r\<lparr>buffer := overwrite 0 d (buffer r)\<rparr>)\<rparr>\<rparr>)
           }
         })"

definition scsi_swap_log_init ::
    "'w kernel \<Rightarrow> sector_t \<Rightarrow> sector_t \<Rightarrow> 'w sdev \<Rightarrow> (int \<times> 'w sdev) option" where
  "scsi_swap_log_init K head_sec data_sec s =
     (let (r, w) = cspring_create (kmalloc K) 32 (32 * 16) (world s);
          s = s\<lparr>world := w, slog := (slog s)\<lparr>ring := r\<rparr>\<rparr>
      in if r = None then Some (- 1, s)
         else do {
           let s = s\<lparr>slog := (slog s)\<lparr>log_sector_head := head_sec, log_sector_data := data_sec\<rparr>\<rparr>;
           (ret, s) \<leftarrow> scsi_swap_log_load K s;
           if ret = - 1 then Some (- 1, s)
           else do {
             r \<leftarrow> ring (slog s);
             let r = r\<lparr>item_num := uint (lh_item_num (lhead (slog s))),
                       item_next := uint (lh_item_next (lhead (slog s)))\<rparr>;
             Some (0, s\<lparr>slog := (slog s)\<lparr>ring := Some r\<rparr>\<rparr>)
           }
         })"

text \<open>The ring is freed; the pointer to it is not cleared.\<close>

definition scsi_swap_log_destroy :: "'w sdev \<Rightarrow> int \<times> 'w sdev" where
  "scsi_swap_log_destroy s = (0, s)"

definition scsi_swap_log_item_init ::
    "u32 \<Rightarrow> cspring \<Rightarrow> LOG_TYPE \<Rightarrow> byte \<Rightarrow> sector_t \<Rightarrow> sector_t \<Rightarrow> u16 \<Rightarrow> scsi_swap_log_item option" where
  "scsi_swap_log_item_init now r type result src dst count = do {
     let item = \<lparr>li_crc = 0, li_time = now, li_src = 0, li_dst = 0, li_count = 0, li_type = 0,
                 li_result = 0, li_reboot = 0, li_fix = 0, li_curr = 0, li_reserved = 0\<rparr>;
     item \<leftarrow> (case scsi_swap_log_last r of
         None \<Rightarrow> Some item
       | Some off \<Rightarrow> do {
           last \<leftarrow> item_at r off;
           Some (item\<lparr>li_reboot := li_reboot last, li_fix := li_fix last, li_curr := li_curr last\<rparr>)
         });
     let item = item\<lparr>li_curr := li_curr item + 1\<rparr>;
     let item = item\<lparr>li_crc := scsi_swap_log_crc_item item\<rparr>;
     Some (item\<lparr>li_src := src, li_dst := dst, li_count := count, li_type := log_type_code type,
                li_result := result\<rparr>)
   }"

definition scsi_swap_log_push ::
    "'w kernel \<Rightarrow> LOG_TYPE \<Rightarrow> byte \<Rightarrow> sector_t \<Rightarrow> sector_t \<Rightarrow> u16 \<Rightarrow> 'w sdev
      \<Rightarrow> (int \<times> 'w sdev) option" where
  "scsi_swap_log_push K type result src dst count s = do {
     r \<leftarrow> ring (slog s);
     item \<leftarrow> scsi_swap_log_item_init (tv_sec K (world s)) r type result src dst count;
     (ret, s) \<leftarrow> scsi_swap_log_update_data K item s;
     if ret = - 1 then Some (- 1, s)
     else do {
       (ret, s) \<leftarrow> scsi_swap_log_update_head K s;
       if ret = - 1 then Some (- 1, s) else Some (0, s)
     }
   }"

definition log_line :: "scsi_swap_log_item \<Rightarrow> string" where
  "log_line i =
     dec (unat (li_time i)) @ '' '' @ dec (unat (li_src i)) @ '' '' @ dec (unat (li_dst i)) @ '' '' @
     dec (unat (li_count i)) @ '' '' @ dec (unat (li_type i)) @ '' '' @ dec (unat (li_result i)) @
     '' '' @ dec (unat (li_reboot i)) @ '' '' @ dec (unat (li_fix i)) @ '' '' @
     dec (unat (li_curr i)) @ [CHR 10]"

text \<open>
  The loop over the items \<open>i, i + 1, \<dots>\<close>: it ends at a null pointer or when the page is full.
  There are at most \<open>item_num\<close> items, so that many rounds and one more are enough.
\<close>

fun log_show_loop :: "cspring \<Rightarrow> nat \<Rightarrow> nat \<Rightarrow> nat \<Rightarrow> string \<Rightarrow> (string \<times> nat) option" where
  "log_show_loop r 0 i left page = Some (page, left)"
| "log_show_loop r (Suc n) i left page =
     (case scsi_swap_log_peek r (int i) of
        None \<Rightarrow> Some (page, left)
      | Some off \<Rightarrow> do {
          item \<leftarrow> item_at r off;
          let buf = log_line item;
          if left \<le> length buf then Some (page, left)
          else log_show_loop r n (Suc i) (left - length buf) (page @ buf)
        })"

definition scsi_swap_log_show :: "scsi_swap_log \<Rightarrow> (string \<times> nat) option" where
  "scsi_swap_log_show l = do {
     r \<leftarrow> ring l;
     (page, left) \<leftarrow> log_show_loop r (Suc (nat (item_num r))) 0 PAGE_SIZE [];
     Some (page, PAGE_SIZE - left)
   }"

end
