(* ===== verification/Core.thy ===== *)
theory Core
  imports Log
begin

text \<open>
  \<^verbatim>\<open>core.h\<close> and the first half of \<^verbatim>\<open>core.c\<close>: the layout of the reserved area, the structures
  on disk, the allocator of swap blocks, and the operations that create, write and re-create a
  mapping. Locks are omitted: every operation is one sequential run.

  A pointer to a \<^verbatim>\<open>struct swap_info\<close> is an address in \<open>infos\<close>; dereferencing an address that
  holds no object is a fault.
\<close>

subsection \<open>Layout\<close>

definition SECTOR_1M :: nat where [layout_simps]: "SECTOR_1M = 2 * 1024"
definition SECTOR_8M :: nat where [layout_simps]: "SECTOR_8M = 16 * 1024"
definition MAX_RESERVED_SECTOR :: nat where [layout_simps]: "MAX_RESERVED_SECTOR = SECTOR_1M * 1024"
definition DATA_SECTOR :: nat where [layout_simps]: "DATA_SECTOR = SECTOR_1M * 64"
definition DATA_BLOCK_NUM :: nat where [layout_simps]: "DATA_BLOCK_NUM = DATA_SECTOR div 128"
definition SWAP_HEAD_OFFEST :: nat where [layout_simps]: "SWAP_HEAD_OFFEST = SECTOR_8M"
definition SWAP_TABLE_OFFSET :: nat where [layout_simps]: "SWAP_TABLE_OFFSET = 2 * SECTOR_8M"
definition SWPA_TABLE_N_SECTOR :: nat where [layout_simps]: "SWPA_TABLE_N_SECTOR = 32"
definition SWAP_DATA_OFFSET :: nat where [layout_simps]: "SWAP_DATA_OFFSET = 3 * SECTOR_8M"
definition SWAP_HEAD_BACKUP_OFFEST :: nat where [layout_simps]: "SWAP_HEAD_BACKUP_OFFEST = 64"
definition SWAP_TABLE_BACKUP_OFFSET :: nat where
  [layout_simps]: "SWAP_TABLE_BACKUP_OFFSET = MAX_RESERVED_SECTOR - SECTOR_8M"
definition MAX_SWAP_HEAD_BLOCK_NUM :: nat where [layout_simps]: "MAX_SWAP_HEAD_BLOCK_NUM = 8 * 128"
definition MAX_SWAP_BLOCK_FOR_USE :: int where [layout_simps]: "MAX_SWAP_BLOCK_FOR_USE = 128"
definition SWAP_LOG_HEAD_OFFSET :: nat where
  [layout_simps]: "SWAP_LOG_HEAD_OFFSET = SWAP_TABLE_BACKUP_OFFSET - SECTOR_8M"
definition SWAP_LOG_DATA_OFFSET :: nat where
  [layout_simps]: "SWAP_LOG_DATA_OFFSET = SWAP_LOG_HEAD_OFFSET + SECTOR_1M"
definition SWAP_BLOCK_SIZE :: nat where [layout_simps]: "SWAP_BLOCK_SIZE = 128 * 512"

definition SWAP_BLOCK_INDEX :: "sector_t \<Rightarrow> sector_t" where
  "SWAP_BLOCK_INDEX sector = sector div 128"

definition SWAP_SECTOR_ALIGN :: "sector_t \<Rightarrow> sector_t" where
  "SWAP_SECTOR_ALIGN sector = SWAP_BLOCK_INDEX sector * 128"

subsection \<open>Structures on disk\<close>

definition str_bytes :: "string \<Rightarrow> byte list" where
  "str_bytes s = map (\<lambda>c. word_of_nat (of_char c)) s"

text \<open>\<^verbatim>\<open>strncpy\<close> of a string onto a character array, with \<open>n\<close> at most the array's length.\<close>

definition strncpy :: "byte list \<Rightarrow> string \<Rightarrow> nat \<Rightarrow> byte list" where
  "strncpy dst src n =
     overwrite 0 (take n (str_bytes src @ replicate n 0)) dst"

text \<open>\<^verbatim>\<open>strncmp (array, literal, n) == 0\<close> where the literal has at least \<open>n\<close> characters.\<close>

definition strneq :: "byte list \<Rightarrow> string \<Rightarrow> nat \<Rightarrow> bool" where
  "strneq a lit n \<longleftrightarrow> take n a = take n (str_bytes lit)"

definition head_body :: "swap_head \<Rightarrow> byte list" where
  "head_body h =
     head_string h @ status h @ version h @ concat (map (le_bytes 4) (bitmap h)) @ reserved h"

definition head_bytes :: "swap_head \<Rightarrow> byte list" where
  "head_bytes h = head_body h @ le_bytes 4 (checksum h)"

definition head_of_bytes :: "byte list \<Rightarrow> swap_head" where
  "head_of_bytes b =
     \<lparr>head_string = slice 0 16 b, status = slice 16 16 b, version = slice 32 4 b,
      bitmap = map (\<lambda>i. le_word (slice (36 + 4 * i) 4 b)) [0..<32],
      reserved = slice 164 344 b, checksum = le_word (slice 508 4 b)\<rparr>"

definition zero_head :: swap_head where
  "zero_head = head_of_bytes (replicate 512 0)"

definition table_body :: "swap_table \<Rightarrow> byte list" where
  "table_body t =
     le_bytes 8 (src_sec t) @ le_bytes 8 (swap_sec t) @ le_bytes 4 (sec_size t) @
     le_bytes 4 (retrys t) @ le_bytes 4 (tindex t) @ concat (map (le_bytes 4) (reserverd t))"

definition table_bytes :: "swap_table \<Rightarrow> byte list" where
  "table_bytes t = table_body t @ le_bytes 4 (tchecksum t) @ le_bytes 8 (save_sec t)"

definition table_of_bytes :: "byte list \<Rightarrow> swap_table" where
  "table_of_bytes b =
     \<lparr>src_sec = le_word (slice 0 8 b), swap_sec = le_word (slice 8 8 b),
      sec_size = le_word (slice 16 4 b), retrys = le_word (slice 20 4 b),
      tindex = le_word (slice 24 4 b),
      reserverd = map (\<lambda>i. le_word (slice (28 + 4 * i) 4 b)) [0..<6],
      tchecksum = le_word (slice 52 4 b), save_sec = le_word (slice 56 8 b)\<rparr>"

definition zero_table :: swap_table where
  "zero_table = table_of_bytes (replicate 64 0)"

text \<open>The checksum of a table entry leaves out the checksum and \<open>save_sec\<close>.\<close>

definition table_crc :: "swap_table \<Rightarrow> u32" where
  "table_crc t = swap_crc32 0xffffffff (table_body t)"

definition scsi_swap_check :: "swap_head \<Rightarrow> u32" where
  "scsi_swap_check h = swap_crc32 0xffffffff (head_body h)"

datatype swap_head_state = HEAD_OK | HEAD_EMPTY | HEAD_BROKEN | HEAD_INVALID | HEAD_FAIL | UNKNOWN

datatype swap_table_sync = NO_NEED_SYNC | MASTER_NEED_SYNC | BACKUP_NEED_SYNC

subsection \<open>State updates\<close>

abbreviation upd_core :: "(scsi_swap_core \<Rightarrow> scsi_swap_core) \<Rightarrow> 'w sdev \<Rightarrow> 'w sdev" where
  "upd_core f s \<equiv> s\<lparr>core := f (core s)\<rparr>"

abbreviation set_head :: "swap_head \<Rightarrow> 'w sdev \<Rightarrow> 'w sdev" where
  "set_head h s \<equiv> upd_core (\<lambda>c. c\<lparr>head := h\<rparr>) s"

abbreviation set_info :: "nat \<Rightarrow> swap_info \<Rightarrow> 'w sdev \<Rightarrow> 'w sdev" where
  "set_info p i s \<equiv> upd_core (\<lambda>c. c\<lparr>infos := (infos c)(p \<mapsto> i)\<rparr>) s"

subsection \<open>Blocks and the bitmap\<close>

definition get_swap_block_count :: "sector_t \<Rightarrow> u32 \<Rightarrow> int" where
  "get_swap_block_count start count =
     (let nlen = sint (ucast (start + scast count - SWAP_SECTOR_ALIGN start) :: u32)
      in nlen sdiv 128 + (if nlen smod 128 = 0 then 0 else 1))"

definition bitmap_get :: "u32 list \<Rightarrow> nat \<Rightarrow> bool" where
  "bitmap_get bm n = bit (bm ! (n div 32)) (n mod 32)"

definition swap_bitmap_set_bit :: "u32 list \<Rightarrow> nat \<Rightarrow> bool \<Rightarrow> u32 list" where
  "swap_bitmap_set_bit bm nbit val =
     bm[nbit div 32 := (if val then set_bit (nbit mod 32) (bm ! (nbit div 32))
                        else unset_bit (nbit mod 32) (bm ! (nbit div 32)))]"

definition find_first_zero_bit :: "u32 list \<Rightarrow> nat \<Rightarrow> nat" where
  "find_first_zero_bit bm n = length (takeWhile (bitmap_get bm) [0..<n])"

definition swap_head_bitmap_get_first_zero_bit :: "swap_head \<Rightarrow> int" where
  "swap_head_bitmap_get_first_zero_bit h =
     (let nbit = find_first_zero_bit (bitmap h) 1024
      in if nbit = 1024 then - 1 else int nbit)"

text \<open>Marking a block in the head kept in memory.\<close>

definition mark_block :: "nat \<Rightarrow> bool \<Rightarrow> 'w sdev \<Rightarrow> 'w sdev" where
  "mark_block n val s =
     set_head ((head (core s))\<lparr>bitmap := swap_bitmap_set_bit (bitmap (head (core s))) n val\<rparr>) s"

subsection \<open>Writing the structures to disk\<close>

definition flush_swap_info_data :: "'w kernel \<Rightarrow> swap_info \<Rightarrow> 'w sdev \<Rightarrow> int \<times> 'w sdev" where
  "flush_swap_info_data K i s =
     hd_write_sector_retry K (swap_sec (table i)) (sec_size (table i)) (sdata i) s"

lemma below_limit_measure:
  assumes "\<not> limit \<le> sec + (1 :: sector_t)"
  shows "unat (limit - 1 - (sec + 1)) < unat (limit - 1 - sec)"
proof -
  have "limit \<noteq> sec + 1" using assms by auto
  then have "limit - 1 - sec \<noteq> 0" by (simp add: algebra_simps)
  then have "unat (limit - 1 - sec - 1) < unat (limit - 1 - sec)"
    by (rule measure_unat)
  then show ?thesis by (simp add: algebra_simps)
qed

text \<open>
  The loop that writes one table sector and moves on past sectors that cannot be written; it
  gives up when it reaches \<open>limit\<close>. The result is the next sector to write.
\<close>

function table_write_loop ::
    "'w kernel \<Rightarrow> byte list \<Rightarrow> sector_t \<Rightarrow> sector_t \<Rightarrow> 'w sdev \<Rightarrow> sector_t \<times> 'w sdev" where
  "table_write_loop K buf sec limit s =
     (let (ret, s') = hd_write_sector_retry K sec 1 (Some buf) s
      in if ret = 0 then (sec + 1, s')
         else if sec + 1 \<ge> limit then (sec + 1, s')
         else table_write_loop K buf (sec + 1) limit s')"
  by pat_completeness auto
termination
  by (relation "measure (\<lambda>(K, buf, sec, limit, s). unat (limit - 1 - sec))", rule wf_measure)
    (simp only: in_measure prod.case, erule below_limit_measure)

declare table_write_loop.simps [simp del]

fun flush_table_loop ::
    "'w kernel \<Rightarrow> nat list \<Rightarrow> nat \<Rightarrow> byte list \<Rightarrow> sector_t \<Rightarrow> sector_t \<Rightarrow> 'w sdev
      \<Rightarrow> (nat \<times> byte list \<times> sector_t \<times> sector_t \<times> 'w sdev) option" where
  "flush_table_loop K [] i buf sect_index sect_back_index s =
     Some (i, buf, sect_index, sect_back_index, s)"
| "flush_table_loop K (p # ps) i buf sect_index sect_back_index s = do {
     entry \<leftarrow> infos (core s) p;
     let buf = (if i = 0 then replicate 512 0 else buf);
     let entry = entry\<lparr>table := (table entry)\<lparr>save_sec := sect_index\<rparr>\<rparr>;
     let s = set_info p entry s;
     let buf = overwrite (64 * i) (table_bytes (table entry)) buf;
     if i = 7 then
       let (sect_index, s) =
             table_write_loop K buf sect_index
               (sector_table (core s) + of_nat SWPA_TABLE_N_SECTOR) s;
           (sect_back_index, s) =
             table_write_loop K buf sect_back_index
               (sector_reserve_start (core s) + of_nat SWAP_TABLE_BACKUP_OFFSET
                + of_nat SWPA_TABLE_N_SECTOR) s
       in flush_table_loop K ps 0 buf sect_index sect_back_index s
     else flush_table_loop K ps (i + 1) buf sect_index sect_back_index s
   }"

definition flush_swap_info_table :: "'w kernel \<Rightarrow> 'w sdev \<Rightarrow> (int \<times> 'w sdev) option" where
  "flush_swap_info_table K s = do {
     (i, buf, sect_index, sect_back_index, s) \<leftarrow>
       flush_table_loop K (info_list (core s)) 0 (replicate 512 0) (sector_table (core s))
         (sector_reserve_start (core s) + of_nat SWAP_TABLE_BACKUP_OFFSET) s;
     if i \<noteq> 0 then
       let (_, s) =
             table_write_loop K buf sect_index
               (sector_table (core s) + of_nat SWPA_TABLE_N_SECTOR) s;
           (_, s) =
             table_write_loop K buf sect_back_index
               (sector_reserve_start (core s) + of_nat SWAP_TABLE_BACKUP_OFFSET
                + of_nat SWPA_TABLE_N_SECTOR) s
       in Some (0, s)
     else Some (0, s)
   }"

definition flush_swap_head :: "'w kernel \<Rightarrow> 'w sdev \<Rightarrow> int \<times> 'w sdev" where
  "flush_swap_head K s =
     (let h = (head (core s))\<lparr>checksum := swap_crc32 0xffffffff (head_body (head (core s)))\<rparr>;
          s = set_head h s;
          (_, s) = hd_write_sector_retry K (sector_head (core s)) 1 (Some (head_bytes h)) s;
          (ret, s) = hd_write_sector_retry K
            (sector_head (core s) + of_nat SWAP_HEAD_BACKUP_OFFEST) 1 (Some (head_bytes h)) s
      in if ret \<noteq> 0 then (- 1, s) else (0, s))"

subsection \<open>Looking up a mapping\<close>

text \<open>The result is a pointer, \<^const>\<open>None\<close> inside for a null pointer.\<close>

fun find_info_loop :: "scsi_swap_core \<Rightarrow> nat list \<Rightarrow> sector_t \<Rightarrow> nat option option" where
  "find_info_loop c [] sector = Some None"
| "find_info_loop c (p # ps) sector = do {
     info \<leftarrow> infos c p;
     if src_sec (table info) = sector then Some (Some p) else find_info_loop c ps sector
   }"

definition swap_find_swap_info :: "scsi_swap_core \<Rightarrow> sector_t \<Rightarrow> nat option option" where
  "swap_find_swap_info c sector = find_info_loop c (info_list c) sector"

text \<open>The loop need not end when the end lies in the last block of the number range.\<close>

partial_function (option) did_block_loop ::
    "scsi_swap_core \<Rightarrow> sector_t \<Rightarrow> sector_t \<Rightarrow> bool option" where
  "did_block_loop c start end_sec =
     (if start < end_sec then
        Option.bind (swap_find_swap_info c start)
          (\<lambda>r. if r \<noteq> None then Some True else did_block_loop c (start + 128) end_sec)
      else Some False)"

definition did_block_swapped :: "scsi_swap_core \<Rightarrow> sector_t \<Rightarrow> u32 \<Rightarrow> bool option" where
  "did_block_swapped c sector count =
     did_block_loop c (SWAP_SECTOR_ALIGN sector) (sector + scast count)"

definition scsi_swap_core_swapped :: "scsi_swap_core \<Rightarrow> sector_t \<Rightarrow> u32 \<Rightarrow> bool option" where
  "scsi_swap_core_swapped c sector num = did_block_swapped c sector num"

definition scsi_swap_core_can_swap :: "scsi_swap_core \<Rightarrow> sector_t \<Rightarrow> u32 \<Rightarrow> bool" where
  "scsi_swap_core_can_swap c sector num \<longleftrightarrow> device_dead c = 0 \<and> sector < sector_reserve_start c"

subsection \<open>Creating the head\<close>

text \<open>\<open>n\<close> sectors remain to be checked, the next one is number \<open>i\<close> of the block.\<close>

fun check_by_sector_loop :: "'w kernel \<Rightarrow> sector_t \<Rightarrow> nat \<Rightarrow> nat \<Rightarrow> nat \<Rightarrow> 'w sdev
      \<Rightarrow> int \<times> nat \<times> 'w sdev" where
  "check_by_sector_loop K sec_start i 0 bad_index s = (0, bad_index, s)"
| "check_by_sector_loop K sec_start i (Suc n) bad_index s =
     (let (ret, s) = hd_write_sector_retry K (sec_start + of_nat i) 1 (Some (replicate 512 0)) s
      in if ret \<noteq> 0 then (- 1, i, s) else check_by_sector_loop K sec_start (i + 1) n bad_index s)"

definition swap_check_block_by_sector :: "'w kernel \<Rightarrow> sector_t \<Rightarrow> nat \<Rightarrow> 'w sdev
      \<Rightarrow> int \<times> nat \<times> 'w sdev" where
  "swap_check_block_by_sector K sec_start bad_index s =
     check_by_sector_loop K sec_start 0 128 bad_index s"

definition u_swap_create_new_head :: "'w kernel \<Rightarrow> 'w sdev \<Rightarrow> int \<times> 'w sdev" where
  "u_swap_create_new_head K s =
     (let h = head (core s);
          h = h\<lparr>head_string := strncpy (head_string h) ''DHSWAP'' 16\<rparr>;
          h = h\<lparr>version := strncpy (version h) ''0001'' 4\<rparr>
      in flush_swap_head K (set_head h s))"

text \<open>The loop of \<^verbatim>\<open>swap_create_new_head\<close>; the flag says whether it was left by the break.\<close>

fun new_head_loop :: "'w kernel \<Rightarrow> nat \<Rightarrow> nat \<Rightarrow> 'w sdev \<Rightarrow> bool \<times> 'w sdev" where
  "new_head_loop K 0 bad_index s = (False, s)"
| "new_head_loop K (Suc n) bad_index s =
     (let (ret, bad_index, s) = swap_check_block_by_sector K (sector_head (core s)) bad_index s
      in if ret = 0 then
           (True, set_head ((head (core s))\<lparr>status := strncpy (status (head (core s))) ''valid'' 5\<rparr>) s)
         else
           let s = (if bad_index \<noteq> 0 then
                      snd (u_swap_create_new_head K
                        (set_head ((head (core s))
                           \<lparr>status := strncpy (status (head (core s))) ''invalid'' 7\<rparr>) s))
                    else s);
               s = set_head ((head (core s))\<lparr>status := replicate 16 0\<rparr>) s;
               s = upd_core (\<lambda>c. c\<lparr>sector_head := sector_head c + 128\<rparr>) s
           in new_head_loop K n bad_index s)"

definition swap_create_new_head :: "'w kernel \<Rightarrow> 'w sdev \<Rightarrow> int \<times> 'w sdev" where
  "swap_create_new_head K s =
     (let (found, s) = new_head_loop K MAX_SWAP_HEAD_BLOCK_NUM 0 (set_head zero_head s)
      in if \<not> found then (- 1, s) else u_swap_create_new_head K s)"

subsection \<open>Allocating\<close>

definition swap_check_block :: "'w kernel \<Rightarrow> sector_t \<Rightarrow> 'w sdev \<Rightarrow> int \<times> 'w sdev" where
  "swap_check_block K sec_start s =
     (let (m, s) = alloc K (512 * 128) s in
      case m of None \<Rightarrow> (- 1, s)
      | Some _ \<Rightarrow>
          let (ret, s) = hd_write_sector_retry K sec_start 128 (Some (replicate (512 * 128) 0)) s
          in if ret \<noteq> 0 then (- 1, s) else (0, s))"

text \<open>
  The names of the source that begin with an underscore have the prefix \<open>u_\<close> here. The result of
  \<open>u_swap_alloc_info\<close> is a pointer to a fresh object.
\<close>

definition u_swap_alloc_info :: "'w kernel \<Rightarrow> 'w sdev \<Rightarrow> nat option \<times> 'w sdev" where
  "u_swap_alloc_info K s =
     (let (m, s) = alloc K 112 s in
      case m of None \<Rightarrow> (None, s)
      | Some _ \<Rightarrow>
          let (d, s) = alloc K SWAP_BLOCK_SIZE s in
          case d of None \<Rightarrow> (None, s)
          | Some _ \<Rightarrow>
              let p = next_info (core s);
                  i = \<lparr>table = zero_table, sdata = Some (replicate SWAP_BLOCK_SIZE 0)\<rparr>
              in (Some p, upd_core (\<lambda>c. c\<lparr>next_info := p + 1\<rparr>) (set_info p i s)))"

definition u_swap_dealloc_info :: "nat \<Rightarrow> 'w sdev \<Rightarrow> 'w sdev" where
  "u_swap_dealloc_info p s = upd_core (\<lambda>c. c\<lparr>infos := (infos c)(p := None)\<rparr>) s"

text \<open>\<open>k\<close> is the number of further failures the loop tolerates, 16 minus \<^verbatim>\<open>err_cnt\<close>.\<close>

fun alloc_block_loop :: "'w kernel \<Rightarrow> nat \<Rightarrow> int \<Rightarrow> 'w sdev \<Rightarrow> int \<times> 'w sdev" where
  "alloc_block_loop K k index s =
     (let (ret, s) = swap_check_block K (sector_data (core s) + of_int (128 * index)) s in
      if ret = 0 then (index, mark_block (nat index) True s)
      else if k = 0 then (- 1, atomic_inc_dead s)
      else
        let s = mark_block (nat index) True s;
            index = swap_head_bitmap_get_first_zero_bit (head (core s))
        in if index = - 1 then (- 1, s) else alloc_block_loop K (k - 1) index s)"

declare alloc_block_loop.simps [simp del]

definition u_swap_alloc_new_block :: "'w kernel \<Rightarrow> 'w sdev \<Rightarrow> int \<times> 'w sdev" where
  "u_swap_alloc_new_block K s =
     (let index = swap_head_bitmap_get_first_zero_bit (head (core s))
      in if index = - 1 then (- 1, s) else alloc_block_loop K 16 index s)"

subsection \<open>Creating a mapping\<close>

text \<open>
  Reading \<open>n\<close> sectors into the data of an object at a byte offset. All callers have allocated the
  data or fault on a null pointer before they go on.
\<close>

definition read_into :: "'w kernel \<Rightarrow> nat \<Rightarrow> sector_t \<Rightarrow> nat \<Rightarrow> nat \<Rightarrow> 'w sdev \<Rightarrow> (int \<times> 'w sdev) option" where
  "read_into K p sector n off s = do {
     i \<leftarrow> infos (core s) p;
     d \<leftarrow> sdata i;
     chunk \<leftarrow> memread d off (n * 512);
     let (ret, chunk', s) = hd_read_sector_no_retry K sector (of_nat n) (Some chunk) s;
     c \<leftarrow> chunk';
     Some (ret, set_info p (i\<lparr>sdata := Some (overwrite off c d)\<rparr>) s)
   }"

text \<open>The fields of an entry that mapping block \<open>index\<close> sets, with the checksum.\<close>

definition map_entry :: "scsi_swap_core \<Rightarrow> int \<Rightarrow> swap_table \<Rightarrow> swap_table" where
  "map_entry c index t =
     (let t = t\<lparr>tindex := of_int index\<rparr>;
          t = t\<lparr>swap_sec := sector_data c + ucast (128 * tindex t)\<rparr>
      in t\<lparr>tchecksum := table_crc t\<rparr>)"

definition u_swap_create ::
    "'w kernel \<Rightarrow> nat \<Rightarrow> sector_t \<Rightarrow> int \<Rightarrow> int \<Rightarrow> 'w sdev \<Rightarrow> (int \<times> 'w sdev) option" where
  "u_swap_create K p src need_zero_offset need_zero_len s =
     (let (index, s) = u_swap_alloc_new_block K s in
      if index = - 1 then Some (- 1, s)
      else do {
        let need_zero_len =
          (if need_zero_offset + need_zero_len > 128 then 128 - need_zero_offset else need_zero_len);
        let front_len = need_zero_offset;
        let back_len = 128 - (need_zero_offset + need_zero_len);
        s \<leftarrow> (if front_len > 0
             then map_option snd (read_into K p src (nat front_len) 0 s) else Some s);
        s \<leftarrow> (if back_len > 0
             then map_option snd
               (read_into K p (src + of_int (need_zero_offset + need_zero_len)) (nat back_len)
                  (nat (need_zero_offset + need_zero_len) * 512) s) else Some s);
        i \<leftarrow> infos (core s) p;
        let t = (table i)\<lparr>src_sec := src, sec_size := 128\<rparr>;
        Some (0, set_info p (i\<lparr>table := map_entry (core s) index t\<rparr>) s)
      })"

text \<open>The bytes copied out of the memory of a mapping.\<close>

definition u_swap_read :: "swap_info \<Rightarrow> sector_t \<Rightarrow> nat \<Rightarrow> byte list option" where
  "u_swap_read i sector_start sector_count = do {
     let sector_src = SWAP_SECTOR_ALIGN sector_start;
     let data_offset = unat ((sector_start - sector_src) * 512);
     d \<leftarrow> sdata i;
     memread d data_offset (sector_count * 512)
   }"

definition u_swap_write ::
    "'w kernel \<Rightarrow> nat \<Rightarrow> sector_t \<Rightarrow> byte list \<Rightarrow> 'w sdev \<Rightarrow> (int \<times> 'w sdev) option" where
  "u_swap_write K p sector_start buf s = do {
     i \<leftarrow> infos (core s) p;
     let sector_src = (ucast (SWAP_SECTOR_ALIGN sector_start) :: u32);
     let data_offset = unat (ucast ((sector_start - ucast sector_src) * 512) :: u32);
     d \<leftarrow> sdata i;
     d' \<leftarrow> memwrite d data_offset buf;
     let i = i\<lparr>sdata := Some d'\<rparr>;
     let s = set_info p i s;
     let (ret, s) = flush_swap_info_data K i s;
     Some (if ret \<noteq> 0 then (- 1, s) else (0, s))
   }"

text \<open>The logging at the end of \<^verbatim>\<open>swap_create\<close>; its result is not used.\<close>

definition log_create ::
    "'w kernel \<Rightarrow> LOG_CREATE_FAILED option \<Rightarrow> sector_t \<Rightarrow> sector_t \<Rightarrow> u32 \<Rightarrow> 'w sdev \<Rightarrow> 'w sdev option" where
  "log_create K fail_reason src dst count s =
     map_option snd
       (scsi_swap_log_push K LOG_TYPE_CREATE (LOG_RESULT fail_reason) src dst (ucast count) s)"

definition swap_create ::
    "'w kernel \<Rightarrow> sector_t \<Rightarrow> u32 \<Rightarrow> 'w sdev \<Rightarrow> (nat option \<times> 'w sdev) option" where
  "swap_create K sector_start sector_count s =
     (if info_num (core s) \<ge> MAX_SWAP_BLOCK_FOR_USE then do {
        s \<leftarrow> log_create K (Some LOG_FAILED_CREATE_MAXCOUNT) sector_start (- 1) sector_count s;
        Some (None, s)
      } else
        let sector_bswap = SWAP_SECTOR_ALIGN sector_start;
            (info, s) = u_swap_alloc_info K s
        in case info of
          None \<Rightarrow> do {
            s \<leftarrow> log_create K (Some LOG_FAILED_CREATE_MALLOC) sector_start (- 1) sector_count s;
            Some (None, s)
          }
        | Some p \<Rightarrow> do {
            (ret, s) \<leftarrow> u_swap_create K p sector_bswap
              (sint (ucast (sector_start - sector_bswap) :: u32)) (sint sector_count) s;
            if ret \<noteq> 0 then do {
              let s = u_swap_dealloc_info p s;
              s \<leftarrow> log_create K (Some LOG_FAILED_CREATE_WRITE_DST) sector_start (- 1) sector_count s;
              Some (None, s)
            } else do {
              let (ret, s) = flush_swap_head K s;
              i \<leftarrow> infos (core s) p;
              if ret \<noteq> 0 then do {
                let s = mark_block (unat (tindex (table i))) False s;
                let s = u_swap_dealloc_info p s;
                s \<leftarrow> log_create K (Some LOG_FAILED_CREATE_FLUSH_HEAD) sector_start (- 1) sector_count s;
                Some (None, s)
              } else do {
                s \<leftarrow> log_create K None (src_sec (table i)) (swap_sec (table i)) (sec_size (table i)) s;
                Some (Some p, s)
              }
            }
          })"

subsection \<open>Moving a mapping to another block\<close>

text \<open>The data is read back sector by sector; what cannot be read becomes zero.\<close>

fun recreate_read_loop :: "'w kernel \<Rightarrow> nat \<Rightarrow> nat \<Rightarrow> nat \<Rightarrow> 'w sdev \<Rightarrow> 'w sdev option" where
  "recreate_read_loop K p i 0 s = Some s"
| "recreate_read_loop K p i (Suc n) s = do {
     info \<leftarrow> infos (core s) p;
     (ret, s) \<leftarrow> read_into K p (swap_sec (table info) + of_nat i) 1 (i * 512) s;
     s \<leftarrow> (if ret \<noteq> 0 then do {
            info \<leftarrow> infos (core s) p;
            d \<leftarrow> sdata info;
            d' \<leftarrow> memwrite d (i * 512) (replicate 512 0);
            Some (set_info p (info\<lparr>sdata := Some d'\<rparr>) s)
          } else Some s);
     recreate_read_loop K p (i + 1) n s
   }"

definition swap_recreate :: "'w kernel \<Rightarrow> nat \<Rightarrow> 'w sdev \<Rightarrow> (int \<times> 'w sdev) option" where
  "swap_recreate K p s =
     (if info_num (core s) \<ge> MAX_SWAP_BLOCK_FOR_USE then Some (- 1, s)
      else
        let (index, s) = u_swap_alloc_new_block K s in
        if index = - 1 then Some (- 1, s)
        else do {
          s \<leftarrow> recreate_read_loop K p 0 128 s;
          i \<leftarrow> infos (core s) p;
          let i = i\<lparr>table := map_entry (core s) index (table i)\<rparr>;
          let s = set_info p i s;
          let (ret, s) = flush_swap_info_data K i s;
          if ret \<noteq> 0 then Some (- 1, mark_block (nat index) False s)
          else do {
            (ret, s) \<leftarrow> flush_swap_info_table K s;
            if ret \<noteq> 0 then Some (- 1, mark_block (nat index) False s)
            else
              let (ret, s) = flush_swap_head K s in
              if ret \<noteq> 0 then Some (- 1, mark_block (nat index) False s) else Some (0, s)
          }
        })"

definition swap_write ::
    "'w kernel \<Rightarrow> nat \<Rightarrow> sector_t \<Rightarrow> byte list \<Rightarrow> 'w sdev \<Rightarrow> (int \<times> 'w sdev) option" where
  "swap_write K p sector_start buf s = do {
     (ret, s) \<leftarrow> u_swap_write K p sector_start buf s;
     if ret = 0 then Some (0, s)
     else do {
       (ret, s) \<leftarrow> swap_recreate K p s;
       if ret \<noteq> 0 then Some (- 1, s)
       else do {
         (ret, s) \<leftarrow> u_swap_write K p sector_start buf s;
         if ret \<noteq> 0 then Some (- 1, s) else Some (- 0xaa, s)
       }
     }
   }"

end
