(* ===== verification/Core_Init.thy ===== *)
theory Core_Init
  imports Core
begin

text \<open>
  The life cycle of \<^verbatim>\<open>core.c\<close>: finding or creating the head, loading the table of mappings,
  starting and stopping the core, and the text of the file that lists the mappings.
\<close>

subsection \<open>The head\<close>

definition swap_head_valid :: "swap_head \<Rightarrow> bool" where
  "swap_head_valid h \<longleftrightarrow> strneq (status h) ''valid'' 5"

definition swap_head_invalid :: "swap_head \<Rightarrow> bool" where
  "swap_head_invalid h \<longleftrightarrow> strneq (status h) ''invalid'' 7"

definition swap_head_exist :: "swap_head \<Rightarrow> bool" where
  "swap_head_exist h \<longleftrightarrow> strneq (head_string h) ''DHSWAP'' 6"

text \<open>
  The structure is the buffer of the read: it is overwritten whatever the read returns. A null
  buffer does not occur.
\<close>

definition swap_get_head_state ::
    "'w kernel \<Rightarrow> sector_t \<Rightarrow> u32 \<Rightarrow> swap_head \<Rightarrow> 'w sdev \<Rightarrow> swap_head_state \<times> swap_head \<times> 'w sdev" where
  "swap_get_head_state K sector sec_num h s =
     (let (ret, b, s) = hd_read_sector_retry K sector sec_num (Some (head_bytes h)) s;
          h = head_of_bytes (the b)
      in if ret \<noteq> 0 then (HEAD_FAIL, h, s)
         else if \<not> swap_head_exist h then (HEAD_EMPTY, h, s)
         else if swap_head_invalid h then (HEAD_INVALID, h, s)
         else if swap_head_valid h then
           if scsi_swap_check h \<noteq> checksum h then (HEAD_BROKEN, h, s) else (HEAD_OK, h, s)
         else (HEAD_BROKEN, h, s))"

text \<open>Round \<open>i\<close> of the search, with \<open>n\<close> rounds left.\<close>

fun init_head_loop :: "'w kernel \<Rightarrow> sector_t \<Rightarrow> nat \<Rightarrow> nat \<Rightarrow> swap_head \<Rightarrow> 'w sdev \<Rightarrow> int \<times> 'w sdev" where
  "init_head_loop K start 0 i head_back s = (- 1, atomic_inc_dead s)"
| "init_head_loop K start (Suc n) i head_back s =
     (let sec_start = start + of_nat (i * 128);
          (head_state, h, s) = swap_get_head_state K sec_start 1 (head (core s)) s;
          s = set_head h s
      in if head_state = HEAD_INVALID then init_head_loop K start n (i + 1) head_back s
      else
        let (head_back_state, head_back, s) =
              swap_get_head_state K (sec_start + of_nat SWAP_HEAD_BACKUP_OFFEST) 1 head_back s
        in if head_state = HEAD_FAIL \<and> head_back_state = HEAD_FAIL
           then init_head_loop K start n (i + 1) head_back s
        else if head_state = HEAD_OK then
          let s = (if head_back_state \<noteq> HEAD_OK
                   then snd (hd_write_sector_retry K (sec_start + of_nat SWAP_HEAD_BACKUP_OFFEST) 1
                     (Some (head_bytes (head (core s)))) s)
                   else s)
          in (0, upd_core (\<lambda>c. c\<lparr>sector_head := sec_start\<rparr>) s)
        else if head_back_state = HEAD_OK then
          let s = set_head head_back s;
              s = snd (hd_write_sector_retry K sec_start 1 (Some (head_bytes head_back)) s)
          in (0, upd_core (\<lambda>c. c\<lparr>sector_head := sec_start\<rparr>) s)
        else
          let (ret, s) = swap_create_new_head K s
          in if ret = - 1 then (- 1, atomic_inc_dead s) else (0, s))"

definition init_swap_head :: "'w kernel \<Rightarrow> sector_t \<Rightarrow> 'w sdev \<Rightarrow> int \<times> 'w sdev" where
  "init_swap_head K start s = init_head_loop K start MAX_SWAP_HEAD_BLOCK_NUM 0 zero_head s"

subsection \<open>The table of mappings\<close>

definition alloc_swap_info_data ::
    "'w kernel \<Rightarrow> sector_t \<Rightarrow> u32 \<Rightarrow> 'w sdev \<Rightarrow> byte list option \<times> 'w sdev" where
  "alloc_swap_info_data K start num s =
     (let nbytes = unat (num * 512);
          (m, s) = alloc K nbytes s in
      case m of None \<Rightarrow> (None, s)
      | Some _ \<Rightarrow>
          let (ret, data, s) = hd_read_sector_retry K start num (Some (replicate nbytes 0)) s
          in if ret \<noteq> 0 then (None, s) else (data, s))"

text \<open>The entries \<open>j, \<dots>, j + n - 1\<close> of a sector; the flag tells that an invalid one was met.\<close>

fun count_entries :: "byte list \<Rightarrow> nat \<Rightarrow> nat \<Rightarrow> int \<Rightarrow> bool \<times> int" where
  "count_entries tbuf 0 j tnum = (False, tnum)"
| "count_entries tbuf (Suc n) j tnum =
     (let t = table_of_bytes (slice (64 * j) 64 tbuf)
      in if sec_size t \<noteq> 128 then (True, tnum)
         else if table_crc t \<noteq> tchecksum t then (True, tnum)
         else count_entries tbuf n (j + 1) (tnum + 1))"

fun calc_num_loop :: "'w kernel \<Rightarrow> nat \<Rightarrow> sector_t \<Rightarrow> int \<Rightarrow> 'w sdev \<Rightarrow> int \<times> 'w sdev" where
  "calc_num_loop K 0 start tnum s = (tnum, s)"
| "calc_num_loop K (Suc n) start tnum s =
     (let (ret, tbuf, s) = hd_read_sector_retry K start 1 (Some (replicate 512 0)) s
      in if ret \<noteq> 0 then calc_num_loop K n (start + 1) tnum s
      else
        let (stop, tnum) = count_entries (the tbuf) 8 0 tnum
        in if stop then (tnum, s) else calc_num_loop K n (start + 1) tnum s)"

definition calc_swap_info_num :: "'w kernel \<Rightarrow> sector_t \<Rightarrow> nat \<Rightarrow> 'w sdev \<Rightarrow> int \<times> 'w sdev" where
  "calc_swap_info_num K start num s = calc_num_loop K num start 0 s"

text \<open>
  The loop over the entries of a sector: 0 when all are loaded, 1 when an unused entry ends the
  table, -1 for the return with an error. A mapping whose block cannot be read goes through
  \<open>swap_recreate\<close> with a null data pointer, which is a fault when it comes to copy into it.
\<close>

fun load_entries :: "'w kernel \<Rightarrow> nat \<Rightarrow> nat \<Rightarrow> byte list \<Rightarrow> 'w sdev \<Rightarrow> (int \<times> byte list \<times> 'w sdev) option" where
  "load_entries K 0 j tbuf s = Some (0, tbuf, s)"
| "load_entries K (Suc n) j tbuf s =
     (let (m, s) = alloc K 112 s in
      case m of None \<Rightarrow> Some (- 1, tbuf, s)
      | Some _ \<Rightarrow>
          let t = table_of_bytes (slice (64 * j) 64 tbuf);
              p = next_info (core s);
              s = upd_core (\<lambda>c. c\<lparr>next_info := p + 1\<rparr>) (set_info p \<lparr>table = t, sdata = None\<rparr> s)
          in if sec_size t \<noteq> 128 then Some (1, tbuf, u_swap_dealloc_info p s)
          else if swap_sec t < sector_data (core s) \<or> src_sec t > sector_reserve_start (core s)
          then Some (- 1, tbuf, u_swap_dealloc_info p s)
          else if table_crc t \<noteq> tchecksum t then Some (- 1, tbuf, u_swap_dealloc_info p s)
          else
            let (d, s) = alloc_swap_info_data K (swap_sec t) (sec_size t) s;
                s = set_info p \<lparr>table = t, sdata = d\<rparr> s
            in do {
              (ret, tbuf, s) \<leftarrow>
                (if d = None then do {
                   (ret, s) \<leftarrow> swap_recreate K p s;
                   if ret = 0 then do {
                     i \<leftarrow> infos (core s) p;
                     Some (0, overwrite (64 * j) (table_bytes (table i)) tbuf, s)
                   } else Some (- 1, tbuf, u_swap_dealloc_info p s)
                 } else Some (0 :: int, tbuf, s));
              if ret \<noteq> 0 then Some (- 1, tbuf, s)
              else load_entries K n (j + 1) tbuf
                (upd_core (\<lambda>c. c\<lparr>info_list := info_list c @ [p], info_num := info_num c + 1\<rparr>) s)
            })"

fun load_loop ::
    "'w kernel \<Rightarrow> swap_table_sync \<Rightarrow> nat \<Rightarrow> sector_t \<Rightarrow> sector_t \<Rightarrow> sector_t \<Rightarrow> 'w sdev \<Rightarrow> (int \<times> 'w sdev) option" where
  "load_loop K sy 0 start start_master start_back s = Some (0, s)"
| "load_loop K sy (Suc n) start start_master start_back s =
     (let (ret, tbuf, s) = hd_read_sector_retry K start 1 (Some (replicate 512 0)) s
      in if ret \<noteq> 0 then load_loop K sy n (start + 1) start_master start_back s
      else do {
        (ret, tbuf, s) \<leftarrow> load_entries K 8 0 (the tbuf) s;
        if ret = - 1 then Some (- 1, s)
        else
          let (start_master, s) =
                (if sy = MASTER_NEED_SYNC
                 then table_write_loop K tbuf start_master
                   (sector_table (core s) + of_nat SWPA_TABLE_N_SECTOR) s
                 else (start_master, s));
              (start_back, s) =
                (if sy = BACKUP_NEED_SYNC
                 then table_write_loop K tbuf start_back
                   (sector_reserve_start (core s) + of_nat SWAP_TABLE_BACKUP_OFFSET
                    + of_nat SWPA_TABLE_N_SECTOR) s
                 else (start_back, s))
          in if ret = 1 then Some (0, s)
             else load_loop K sy n (start + 1) start_master start_back s
      })"

definition init_swap_info :: "'w kernel \<Rightarrow> 'w sdev \<Rightarrow> (int \<times> 'w sdev) option" where
  "init_swap_info K s =
     (let start_master = sector_table (core s);
          start_back = sector_reserve_start (core s) + of_nat SWAP_TABLE_BACKUP_OFFSET;
          s = upd_core (\<lambda>c. c\<lparr>info_list := [], info_num := 0\<rparr>) s;
          (table_num, s) = calc_swap_info_num K start_master SWPA_TABLE_N_SECTOR s;
          (table_num_back, s) = calc_swap_info_num K start_back SWPA_TABLE_N_SECTOR s
      in if table_num_back > table_num
         then load_loop K MASTER_NEED_SYNC SWPA_TABLE_N_SECTOR start_back start_master start_back s
         else if table_num_back < table_num
         then load_loop K BACKUP_NEED_SYNC SWPA_TABLE_N_SECTOR start_master start_master start_back s
         else if table_num = 0 then Some (0, s)
         else load_loop K NO_NEED_SYNC SWPA_TABLE_N_SECTOR start_master start_master start_back s)"

subsection \<open>Starting and stopping\<close>

fun destroy_loop :: "nat list \<Rightarrow> (nat \<Rightarrow> swap_info option) \<Rightarrow> (nat \<Rightarrow> swap_info option) option" where
  "destroy_loop [] f = Some f"
| "destroy_loop (p # ps) f = do { entry \<leftarrow> f p; destroy_loop ps (f(p := None)) }"

definition swap_info_destroy :: "'w sdev \<Rightarrow> (int \<times> 'w sdev) option" where
  "swap_info_destroy s = do {
     f \<leftarrow> destroy_loop (info_list (core s)) (infos (core s));
     Some (0, upd_core (\<lambda>c. c\<lparr>infos := f, info_list := []\<rparr>) s)
   }"

definition scsi_swap_core_init :: "'w kernel \<Rightarrow> sector_t \<Rightarrow> 'w sdev \<Rightarrow> (int \<times> 'w sdev) option" where
  "scsi_swap_core_init K reserve_sector s =
     (let s = upd_core (\<lambda>c. c\<lparr>sector_reserve_start := reserve_sector,
            sector_head := reserve_sector + of_nat SWAP_HEAD_OFFEST,
            sector_data := reserve_sector + of_nat SWAP_DATA_OFFSET,
            sector_table := reserve_sector + of_nat SWAP_TABLE_OFFSET\<rparr>) s;
          (ret, s) = init_swap_head K (sector_head (core s)) s
      in if ret \<noteq> 0 then Some (- 1, s)
      else do {
        (ret, s) \<leftarrow> init_swap_info K s;
        if ret \<noteq> 0 then do { (_, s) \<leftarrow> swap_info_destroy s; Some (- 1, s) }
        else Some (0, upd_core (\<lambda>c. c\<lparr>device_dead := 0, user := 0\<rparr>) s)
      })"

text \<open>
  The requests in flight finish on their own: \<open>later i\<close> is the number of users that is read after
  the sleep of round \<open>i\<close>. The result is the last value read and the number of sleeps.
\<close>

fun wait_loop :: "(nat \<Rightarrow> int) \<Rightarrow> nat \<Rightarrow> nat \<Rightarrow> int \<Rightarrow> int \<times> nat" where
  "wait_loop later 0 i users = (users, i)"
| "wait_loop later (Suc n) i users =
     (if users = 0 then (users, i) else wait_loop later n (i + 1) (later i))"

definition scsi_swap_core_destroy ::
    "'w kernel \<Rightarrow> (nat \<Rightarrow> int) \<Rightarrow> 'w sdev \<Rightarrow> (int \<times> nat \<times> 'w sdev) option" where
  "scsi_swap_core_destroy K later s =
     (let s = atomic_inc_dead s;
          users = user (core s);
          s = (if users \<noteq> 0 then snd (hd_sync_cache K s) else s);
          (users, sleeps) = wait_loop later 100 0 users;
          s = upd_core (\<lambda>c. c\<lparr>user := users\<rparr>) s
      in do { (_, s) \<leftarrow> swap_info_destroy s; Some (0, sleeps, s) })"

subsection \<open>The list of mappings as text\<close>

definition core_line :: "swap_table \<Rightarrow> string" where
  "core_line t =
     dec (unat (src_sec t)) @ '' '' @ dec (unat (swap_sec t)) @ '' '' @ dec (unat (sec_size t)) @ [CHR 10]"

fun core_show_loop :: "scsi_swap_core \<Rightarrow> nat list \<Rightarrow> nat \<Rightarrow> string \<Rightarrow> (string \<times> nat) option" where
  "core_show_loop c [] left page = Some (page, left)"
| "core_show_loop c (p # ps) left page = do {
     info \<leftarrow> infos c p;
     let buf = core_line (table info);
     if left \<le> length buf then Some (page, left)
     else core_show_loop c ps (left - length buf) (page @ buf)
   }"

definition scsi_swap_core_show :: "scsi_swap_core \<Rightarrow> (string \<times> nat) option" where
  "scsi_swap_core_show c = do {
     (page, left) \<leftarrow> core_show_loop c (info_list c) PAGE_SIZE [];
     Some (page, PAGE_SIZE - left)
   }"

end
