(* ===== verification/Core_IO.thy ===== *)
theory Core_IO
  imports Core
begin

text \<open>
  The read and write entry points of \<^verbatim>\<open>core.c\<close>. Each handles a request block by block; the body
  of the loop is a function of its own, with the status 0 for ``go on'', 1 for ``go on, the data
  may be dirty'' and -1 for the jump to the error label.

  The buffer is the region the caller owns and \<open>off\<close> the distance the pointer \<^verbatim>\<open>buf\<close> has
  moved; reading or writing outside the region is a fault. The parameter \<^verbatim>\<open>buf_size\<close> of the
  source is only decremented and has no counterpart.
\<close>

definition swap_repair_successive_sectors ::
    "'w kernel \<Rightarrow> sector_t \<Rightarrow> u32 \<Rightarrow> 'w sdev \<Rightarrow> int \<times> 'w sdev" where
  "swap_repair_successive_sectors K sector count s =
     (let (result, s) = hd_test_unit_ready K s
      in if result \<noteq> 0 then (- 5, atomic_inc_dead s) else (- 1, s))"

definition append_info :: "nat \<Rightarrow> 'w sdev \<Rightarrow> 'w sdev" where
  "append_info p s = upd_core (\<lambda>c. c\<lparr>info_list := info_list c @ [p]\<rparr>) s"

text \<open>Undoing a mapping that could not be completed.\<close>

definition drop_info :: "nat \<Rightarrow> swap_info \<Rightarrow> 'w sdev \<Rightarrow> 'w sdev" where
  "drop_info p i s = u_swap_dealloc_info p (mark_block (unat (tindex (table i))) False s)"

subsection \<open>Reading\<close>

text \<open>The part of the loop body from the repair on: a new mapping is created and filled.\<close>

definition core_read_bad ::
    "'w kernel \<Rightarrow> u32 \<Rightarrow> sector_t \<Rightarrow> u32 \<Rightarrow> byte list \<Rightarrow> 'w sdev \<Rightarrow> (int \<times> byte list \<times> 'w sdev) option" where
  "core_read_bad K b_start s_start s_count chunk s =
     (let (ret, s) = swap_repair_successive_sectors K s_start s_count s in
      if ret = 0 then Some (0, replicate (length chunk) 0, s)
      else if device_dead (core s) \<noteq> 0 then Some (- 1, chunk, s)
      else do {
        (info, s) \<leftarrow> swap_create K s_start s_count s;
        case info of
          None \<Rightarrow> Some (- 1, chunk, s)
        | Some p \<Rightarrow> do {
            i \<leftarrow> infos (core s) p;
            d \<leftarrow> sdata i;
            src \<leftarrow> memread d (unat (ucast (s_start - ucast b_start) * 512 :: u32))
                     (min (length chunk) SWAP_BLOCK_SIZE);
            chunk \<leftarrow> memwrite chunk 0 src;
            let (ret, s) = flush_swap_info_data K i s;
            if ret \<noteq> 0 then Some (- 1, chunk, drop_info p i s)
            else do {
              let s = append_info p s;
              (ret, s) \<leftarrow> flush_swap_info_table K s;
              if ret \<noteq> 0 then Some (- 1, chunk, drop_info p i s)
              else Some (1, chunk, upd_core (\<lambda>c. c\<lparr>info_num := info_num c + 1\<rparr>) s)
            }
          }
      })"

definition core_read_block ::
    "'w kernel \<Rightarrow> bool \<Rightarrow> u32 \<Rightarrow> sector_t \<Rightarrow> u32 \<Rightarrow> byte list \<Rightarrow> 'w sdev
      \<Rightarrow> (int \<times> byte list \<times> 'w sdev) option" where
  "core_read_block K is_bad b_start s_start s_count chunk s = do {
     info \<leftarrow> swap_find_swap_info (core s) (ucast b_start);
     case info of
       Some p \<Rightarrow> do {
         i \<leftarrow> infos (core s) p;
         src \<leftarrow> u_swap_read i s_start (unat s_count);
         chunk \<leftarrow> memwrite chunk 0 src;
         Some (0, chunk, s)
       }
     | None \<Rightarrow>
         if is_bad then core_read_bad K b_start s_start s_count chunk s
         else do {
           let (ret, chunk', s) = hd_read_sector_retry K s_start s_count (Some chunk) s;
           chunk \<leftarrow> chunk';
           if ret = 0 then Some (0, chunk, s)
           else if device_dead (core s) \<noteq> 0 then Some (- 1, chunk, s)
           else core_read_bad K b_start s_start s_count chunk s
         }
   }"

text \<open>The first sector of round \<open>i\<close> and the number of sectors it handles.\<close>

definition blk_start :: "u32 \<Rightarrow> u32 \<Rightarrow> u32" where
  "blk_start i_start i = (i_start + i) * 128"

definition seg_start :: "sector_t \<Rightarrow> u32 \<Rightarrow> u32 \<Rightarrow> sector_t" where
  "seg_start start i_start i = (if i = 0 then start else ucast (blk_start i_start i))"

definition seg_count :: "sector_t \<Rightarrow> u32 \<Rightarrow> u32 \<Rightarrow> u32 \<Rightarrow> u32" where
  "seg_count start i_start i count =
     min count (ucast (scast ((i_start + i + 1) * 128) - seg_start start i_start i))"

fun core_read_loop ::
    "'w kernel \<Rightarrow> sector_t \<Rightarrow> u32 \<Rightarrow> u32 \<Rightarrow> nat \<Rightarrow> u32 \<Rightarrow> u32 \<Rightarrow> nat \<Rightarrow> bool \<Rightarrow> byte list \<Rightarrow> 'w sdev
      \<Rightarrow> (int \<times> byte list \<times> 'w sdev) option" where
  "core_read_loop K start i_start i_bad 0 i count off dirty buf s =
     Some (if dirty then - 0xaa else 0, buf, s)"
| "core_read_loop K start i_start i_bad (Suc n) i count off dirty buf s = do {
     let s_count = seg_count start i_start i count;
     let s_len = unat s_count * 512;
     chunk \<leftarrow> memread buf off s_len;
     (st, chunk, s) \<leftarrow> core_read_block K (i_bad = i_start + i) (blk_start i_start i)
       (seg_start start i_start i) s_count chunk s;
     buf \<leftarrow> memwrite buf off chunk;
     if st = - 1 then Some (- 1, buf, s)
     else core_read_loop K start i_start i_bad n (i + 1) (count - s_count) (off + s_len)
       (dirty \<or> st = 1) buf s
   }"

definition bad_index :: "sector_t \<Rightarrow> u32" where
  "bad_index bad = (if bad = - 1 then - 1 else ucast (SWAP_BLOCK_INDEX bad))"

definition scsi_swap_core_read ::
    "'w kernel \<Rightarrow> sector_t \<Rightarrow> u32 \<Rightarrow> sector_t \<Rightarrow> byte list \<Rightarrow> 'w sdev
      \<Rightarrow> (int \<times> byte list \<times> 'w sdev) option" where
  "scsi_swap_core_read K start count bad buf s =
     (if device_dead (core s) \<noteq> 0 then Some (- 1, buf, s)
      else do {
        let s = upd_core (\<lambda>c. c\<lparr>user := user c + 1\<rparr>) s;
        (ret, buf, s) \<leftarrow> core_read_loop K start (ucast (SWAP_BLOCK_INDEX start)) (bad_index bad)
          (nat (get_swap_block_count start count)) 0 count 0 False buf s;
        Some (ret, buf, upd_core (\<lambda>c. c\<lparr>user := user c - 1\<rparr>) s)
      })"

subsection \<open>Writing\<close>

definition core_write_bad ::
    "'w kernel \<Rightarrow> sector_t \<Rightarrow> u32 \<Rightarrow> byte list \<Rightarrow> 'w sdev \<Rightarrow> (int \<times> 'w sdev) option" where
  "core_write_bad K s_start s_count chunk s =
     (let (ret, s) = swap_repair_successive_sectors K s_start s_count s;
          (w, s) = (if ret = 0 then hd_write_sector_retry K s_start s_count (Some chunk) s else (- 1, s))
      in if w = 0 then Some (0, s)
      else if ret \<noteq> 0 \<and> device_dead (core s) \<noteq> 0 then Some (- 1, s)
      else do {
        (info, s) \<leftarrow> swap_create K s_start s_count s;
        case info of
          None \<Rightarrow> Some (- 1, s)
        | Some p \<Rightarrow> do {
            (ret, s) \<leftarrow> swap_write K p s_start chunk s;
            i \<leftarrow> infos (core s) p;
            if ret \<noteq> 0 then Some (- 1, drop_info p i s)
            else do {
              let s = append_info p s;
              (ret, s) \<leftarrow> flush_swap_info_table K s;
              if ret \<noteq> 0 then Some (- 1, drop_info p i s)
              else
                let s = upd_core (\<lambda>c. c\<lparr>info_num := info_num c + 1\<rparr>) s
                in Some (if s_count < 128 then 1 else 0, s)
            }
          }
      })"

definition core_write_block ::
    "'w kernel \<Rightarrow> bool \<Rightarrow> u32 \<Rightarrow> sector_t \<Rightarrow> u32 \<Rightarrow> byte list \<Rightarrow> 'w sdev \<Rightarrow> (int \<times> 'w sdev) option" where
  "core_write_block K is_bad b_start s_start s_count chunk s = do {
     info \<leftarrow> swap_find_swap_info (core s) (ucast b_start);
     case info of
       Some p \<Rightarrow> do {
         (ret, s) \<leftarrow> swap_write K p s_start chunk s;
         if ret = 0 then Some (0, s)
         else if ret = - 0xaa then Some (if s_count < 128 then 1 else 0, s)
         else Some (- 1, s)
       }
     | None \<Rightarrow>
         if is_bad then core_write_bad K s_start s_count chunk s
         else
           let (ret, s) = hd_write_sector_retry K s_start s_count (Some chunk) s
           in if ret = 0 then Some (0, s)
              else if device_dead (core s) \<noteq> 0 then Some (- 1, s)
              else core_write_bad K s_start s_count chunk s
   }"

fun core_write_loop ::
    "'w kernel \<Rightarrow> sector_t \<Rightarrow> u32 \<Rightarrow> u32 \<Rightarrow> nat \<Rightarrow> u32 \<Rightarrow> u32 \<Rightarrow> nat \<Rightarrow> bool \<Rightarrow> byte list \<Rightarrow> 'w sdev
      \<Rightarrow> (int \<times> 'w sdev) option" where
  "core_write_loop K start i_start i_bad 0 i count off dirty buf s =
     Some (if dirty then - 0xaa else 0, s)"
| "core_write_loop K start i_start i_bad (Suc n) i count off dirty buf s = do {
     let s_count = seg_count start i_start i count;
     let s_len = unat s_count * 512;
     chunk \<leftarrow> memread buf off s_len;
     (st, s) \<leftarrow> core_write_block K (i_bad = i_start + i) (blk_start i_start i)
       (seg_start start i_start i) s_count chunk s;
     if st = - 1 then Some (- 1, s)
     else core_write_loop K start i_start i_bad n (i + 1) (count - s_count) (off + s_len)
       (dirty \<or> st = 1) buf s
   }"

definition scsi_swap_core_write ::
    "'w kernel \<Rightarrow> sector_t \<Rightarrow> u32 \<Rightarrow> sector_t \<Rightarrow> byte list \<Rightarrow> 'w sdev \<Rightarrow> (int \<times> 'w sdev) option" where
  "scsi_swap_core_write K start count bad buf s =
     (if device_dead (core s) \<noteq> 0 then Some (- 1, s)
      else do {
        let s = upd_core (\<lambda>c. c\<lparr>user := user c + 1\<rparr>) s;
        (ret, s) \<leftarrow> core_write_loop K start (ucast (SWAP_BLOCK_INDEX start)) (bad_index bad)
          (nat (get_swap_block_count start count)) 0 count 0 False buf s;
        Some (ret, upd_core (\<lambda>c. c\<lparr>user := user c - 1\<rparr>) s)
      })"

end
