(* ===== verification/Sim.thy ===== *)
theory Sim
  imports Sysfs_Text
begin

text \<open>
  \<^verbatim>\<open>drivers/scsi/swap/sim.c\<close>: the list of sectors that are to fail on purpose. A node is a
  start sector and a count; a command is made to fail when its sectors meet those of a node.
\<close>

record sim_node =
  sim_start :: sector_t
  sim_num :: u32

type_synonym scsi_swap_sim = "sim_node list"

definition sectorA_hit_sectorB :: "sector_t \<Rightarrow> sector_t \<Rightarrow> sector_t \<Rightarrow> sector_t \<Rightarrow> bool" where
  "sectorA_hit_sectorB Astart Aend Bstart Bend \<longleftrightarrow>
     (Astart \<ge> Bstart \<and> Astart \<le> Bend)
     \<or> (Aend \<ge> Bstart \<and> Aend \<le> Bend)
     \<or> (Astart \<le> Bstart \<and> Aend \<ge> Bend)"

definition scsi_swap_sim_init :: "scsi_swap_sim" where
  "scsi_swap_sim_init = []"

fun scsi_swap_sim_destroy :: "scsi_swap_sim \<Rightarrow> scsi_swap_sim" where
  "scsi_swap_sim_destroy [] = []"
| "scsi_swap_sim_destroy (node # sim) = scsi_swap_sim_destroy sim"

text \<open>The first argument says whether the allocation of the node succeeds.\<close>

definition scsi_swap_sim_add ::
  "bool \<Rightarrow> scsi_swap_sim \<Rightarrow> sector_t \<Rightarrow> u32 \<Rightarrow> int \<times> scsi_swap_sim" where
  "scsi_swap_sim_add alloc sim sector num =
     (if \<not> alloc then (- 1, sim)
      else (0, sim @ [\<lparr>sim_start = sector, sim_num = num\<rparr>]))"

fun scsi_swap_sim_remove :: "scsi_swap_sim \<Rightarrow> sector_t \<Rightarrow> u32 \<Rightarrow> scsi_swap_sim" where
  "scsi_swap_sim_remove [] sector num = []"
| "scsi_swap_sim_remove (node # sim) sector num =
     (if sim_start node = sector then sim else node # scsi_swap_sim_remove sim sector num)"

fun scsi_swap_sim_hit :: "scsi_swap_sim \<Rightarrow> sector_t \<Rightarrow> u32 \<Rightarrow> bool" where
  "scsi_swap_sim_hit [] sector num = False"
| "scsi_swap_sim_hit (node # sim) sector num =
     (if sectorA_hit_sectorB sector (sector + scast num - 1)
           (sim_start node) (sim_start node + ucast (sim_num node) - 1)
      then True else scsi_swap_sim_hit sim sector num)"

definition sim_line :: "sim_node \<Rightarrow> string" where
  "sim_line node = dec (unat (sim_start node)) @ '' '' @ dec (unat (sim_num node)) @ [CHR 10]"

definition scsi_swap_sim_show :: "scsi_swap_sim \<Rightarrow> string \<times> nat" where
  "scsi_swap_sim_show sim =
     (let (page, left) = page_fill (map sim_line sim) PAGE_SIZE []
      in (page, PAGE_SIZE - left))"

subsection \<open>What the tests decide\<close>

text \<open>The sectors of a request or of a node that does not run past the last sector number.\<close>

definition sectors :: "sector_t \<Rightarrow> nat \<Rightarrow> nat set" where
  "sectors start n = {unat start ..< unat start + n}"

definition node_sectors :: "sim_node \<Rightarrow> nat set" where
  "node_sectors node = sectors (sim_start node) (unat (sim_num node))"

definition in_range :: "sector_t \<Rightarrow> nat \<Rightarrow> bool" where
  "in_range start n \<longleftrightarrow> 0 < n \<and> n < 2 ^ 31 \<and> unat start + n \<le> 2 ^ 64"

lemma unat_last_sector:
  assumes "0 < n" "unat s + n \<le> 2 ^ 64"
  shows "unat (s + word_of_nat n - 1 :: sector_t) = unat s + n - 1"
proof -
  have "s + word_of_nat n - 1 = word_of_nat (unat s + (n - 1))"
    using assms by (simp add: of_nat_diff algebra_simps)
  moreover have "unat (word_of_nat (unat s + (n - 1)) :: sector_t) = unat s + (n - 1)"
    using assms by (intro unat_of_nat_small) simp
  ultimately show ?thesis using assms by simp
qed

lemma ucast_u32_nat: "(ucast (n :: u32) :: sector_t) = word_of_nat (unat n)"
  by simp

lemma hit_overlap:
  assumes "0 < m" "unat a + m \<le> 2 ^ 64" "0 < n" "unat b + n \<le> 2 ^ 64"
  shows "sectorA_hit_sectorB a (a + word_of_nat m - 1) b (b + word_of_nat n - 1)
    \<longleftrightarrow> sectors a m \<inter> sectors b n \<noteq> {}"
proof -
  have "sectors a m \<inter> sectors b n \<noteq> {} \<longleftrightarrow> unat a < unat b + n \<and> unat b < unat a + m"
    using assms(1,3) by (auto simp: sectors_def intro!: exI [of _ "max (unat a) (unat b)"])
  then show ?thesis
    using assms unat_last_sector [OF assms(1,2)] unat_last_sector [OF assms(3,4)]
    by (auto simp: sectorA_hit_sectorB_def word_le_nat_alt)
qed

lemma sim_hit_iff:
  assumes "in_range sector (unat num)" "\<forall>node \<in> set sim. in_range (sim_start node) (unat (sim_num node))"
  shows "scsi_swap_sim_hit sim sector num \<longleftrightarrow>
    (\<exists>node \<in> set sim. sectors sector (unat num) \<inter> node_sectors node \<noteq> {})"
  using assms
proof (induction sim)
  case Nil
  then show ?case by simp
next
  case (Cons node sim)
  then have "sectorA_hit_sectorB sector (sector + scast num - 1)
           (sim_start node) (sim_start node + ucast (sim_num node) - 1)
    \<longleftrightarrow> sectors sector (unat num) \<inter> node_sectors node \<noteq> {}"
    using hit_overlap [of "unat num" sector "unat (sim_num node)" "sim_start node"]
    by (simp add: in_range_def scast_u32_small node_sectors_def)
  with Cons show ?case by auto
qed

lemma sim_remove_set:
  "node \<in> set (scsi_swap_sim_remove sim sector num) \<Longrightarrow> node \<in> set sim"
  by (induction sim) (auto split: if_splits)

lemma sim_remove_add:
  "sector \<notin> sim_start ` set sim \<Longrightarrow>
   scsi_swap_sim_remove (snd (scsi_swap_sim_add True sim sector num)) sector num' = sim"
  by (induction sim) (auto simp: scsi_swap_sim_add_def)



end
