(* ===== verification/Swap.thy ===== *)
theory Swap
  imports Core_IO Core_Init Sim
begin

text \<open>
  \<^verbatim>\<open>swap.c\<close>, \<^verbatim>\<open>swap.h\<close> and \<^verbatim>\<open>scsi_swap.h\<close>: the interface between the block layer and the core.
  A block request (\<^verbatim>\<open>struct bio\<close>) that meets a mapped block, or that failed, becomes a work
  item; the work handler copies the data between the pages of the bio and a buffer and calls the
  core. The theory also has the decoding of commands for the simulated bad sectors and the life
  cycle of the handler.

  Of the block layer's structures, which are not part of the repository, the records below keep
  the fields that the sources use. A pointer to a block device or a SCSI device is an address.
\<close>

subsection \<open>Structures\<close>

datatype device = Sdev nat | Other_device

record gendisk =
  dev_parent :: "device option"

record block_device =
  bd_disk :: "gendisk option"
  bd_contains :: nat
  start_sect :: sector_t
  i_size :: u64

text \<open>
  The flags of a bio or a request; the positions of their bits are the block layer's business and
  a flag word is the set of its flags.
\<close>

datatype req_flag =
    REQ_WRITE | REQ_FAILFAST_DEV | REQ_FAILFAST_TRANSPORT | REQ_FAILFAST_DRIVER | REQ_SYNC | REQ_DISCARD
  | REQ_SECURE | REQ_WRITE_SAME | REQ_FUA | REQ_FLUSH | REQ_RAHEAD | REQ_QUIET | REQ_MIXED_MERGE
  | REQ_FLUSH_SEQ

text \<open>The memory of a page is reachable when one of the two ways to map it gives an address.\<close>

record bio_vec =
  bv_page :: "byte list option"
  bv_offset :: u32
  bv_len :: u32

record bio =
  bi_sector :: sector_t
  bi_bdev :: "nat option"
  bi_uptodate :: bool
  bi_eof :: bool
  bi_quiet :: bool
  bi_rw :: "req_flag set"
  bi_size :: u32
  bi_idx :: nat
  bi_io_vec :: "bio_vec list"
  bi_end_io :: bool

record swap_bio_item =
  item_sdev :: nat
  item_bio :: bio
  start_sec :: sector_t
  isize :: u32
  bad_sec :: sector_t
  may_create :: bool

text \<open>
  \<^verbatim>\<open>private_data\<close> points to the handler; the core and the log of the handler are in \<open>sd\<close>, the
  simulated sectors in \<open>sim\<close>. Following a pointer that is null or to freed memory is a fault.
\<close>

datatype handler_ptr = Null_ptr | Live_ptr | Freed_ptr

record 'w scsi_dev =
  sd :: "'w sdev"
  proc_name :: "string option option"
  enable :: bool
  private_data :: handler_ptr
  sim :: scsi_swap_sim

record 'w blk =
  bdevs :: "nat \<Rightarrow> block_device"
  sdevs :: "nat \<Rightarrow> 'w scsi_dev"
  swap_wq :: "swap_bio_item list"

abbreviation set_sdev :: "nat \<Rightarrow> 'w scsi_dev \<Rightarrow> 'w blk \<Rightarrow> 'w blk" where
  "set_sdev p d b \<equiv> b\<lparr>sdevs := (sdevs b)(p := d)\<rparr>"

definition deref_handler :: "'w scsi_dev \<Rightarrow> 'w sdev option" where
  "deref_handler d = (if private_data d = Live_ptr then Some (sd d) else None)"

definition bio_sectors :: "bio \<Rightarrow> u32" where
  "bio_sectors bio = drop_bit 9 (bi_size bio)"

abbreviation is_write :: "bio \<Rightarrow> bool" where
  "is_write bio \<equiv> REQ_WRITE \<in> bi_rw bio"

abbreviation (input) EIO :: int where
  "EIO \<equiv> 5"

subsection \<open>From a bio to its device\<close>

definition sdev_from_bdev :: "'w blk \<Rightarrow> nat option \<Rightarrow> nat option" where
  "sdev_from_bdev b bdev =
     (case bdev of None \<Rightarrow> None
      | Some p \<Rightarrow>
          (case bd_disk (bdevs b p) of None \<Rightarrow> None
           | Some g \<Rightarrow>
               (case dev_parent g of None \<Rightarrow> None
                | Some dev \<Rightarrow> (case dev of Sdev q \<Rightarrow> Some q | Other_device \<Rightarrow> None))))"

definition bio_get_scsi_swap :: "'w blk \<Rightarrow> bio \<Rightarrow> nat option" where
  "bio_get_scsi_swap b bio =
     (case sdev_from_bdev b (bi_bdev bio) of None \<Rightarrow> None
      | Some q \<Rightarrow>
          let d = sdevs b q
          in if removable (sd d) \<or> changed (sd d) then None
             else if \<not> enable d then None
             else Some q)"

subsection \<open>Copying between a bio and a buffer\<close>

text \<open>\<open>p\<close> is the distance the running pointer has moved into the buffer.\<close>

fun buf_fill_loop :: "byte list \<Rightarrow> int \<Rightarrow> int \<Rightarrow> bio_vec list \<Rightarrow> bio_vec list option" where
  "buf_fill_loop buf len p [] = Some []"
| "buf_fill_loop buf len p (v # vs) =
     (if p < len then do {
        v' \<leftarrow> (case bv_page v of
            None \<Rightarrow> Some v
          | Some page \<Rightarrow> do {
              d \<leftarrow> memread buf (nat p) (unat (bv_len v));
              page \<leftarrow> memwrite page (unat (bv_offset v)) d;
              Some (v\<lparr>bv_page := Some page\<rparr>)
            });
        vs' \<leftarrow> buf_fill_loop buf len (p + int (unat (bv_len v))) vs;
        Some (v' # vs')
      } else do {
        vs' \<leftarrow> buf_fill_loop buf len p vs;
        Some (v # vs')
      })"

definition buf_fill_bio :: "bio \<Rightarrow> byte list \<Rightarrow> u32 \<Rightarrow> bio option" where
  "buf_fill_bio bio buf len = do {
     vs \<leftarrow> buf_fill_loop buf (sint len) 0 (drop (bi_idx bio) (bi_io_vec bio));
     Some (bio\<lparr>bi_io_vec := take (bi_idx bio) (bi_io_vec bio) @ vs\<rparr>)
   }"

fun bio_fill_loop :: "int \<Rightarrow> int \<Rightarrow> bio_vec list \<Rightarrow> byte list \<Rightarrow> byte list option" where
  "bio_fill_loop len p [] buf = Some buf"
| "bio_fill_loop len p (v # vs) buf =
     (if p < len then do {
        buf \<leftarrow> (case bv_page v of
            None \<Rightarrow> Some buf
          | Some page \<Rightarrow> do {
              d \<leftarrow> memread page (unat (bv_offset v)) (unat (bv_len v));
              memwrite buf (nat p) d
            });
        bio_fill_loop len (p + int (unat (bv_len v))) vs buf
      } else bio_fill_loop len p vs buf)"

definition bio_fill_buf :: "bio \<Rightarrow> byte list \<Rightarrow> u32 \<Rightarrow> byte list option" where
  "bio_fill_buf bio buf len =
     bio_fill_loop (sint len) 0 (drop (bi_idx bio) (bi_io_vec bio)) buf"

subsection \<open>The work handler\<close>

text \<open>
  The result is the error code and the bio that \<^verbatim>\<open>bi_end_io\<close> is called with, if it is set, and
  the device. A size below zero makes the allocation huge; it is an unsigned number there.
\<close>

definition swap_bio_work_handler ::
    "'w kernel \<Rightarrow> swap_bio_item \<Rightarrow> 'w scsi_dev \<Rightarrow> (int \<times> bio \<times> 'w scsi_dev) option" where
  "swap_bio_work_handler K item d = do {
     let bio = item_bio item;
     let sector = start_sec item;
     let size = isize item;
     let bad = bad_sec item;
     let num = signed_drop_bit 9 size;
     s \<leftarrow> deref_handler d;
     let (m, s) = alloc K (unat (scast size :: u64)) s;
     case m of
       None \<Rightarrow> Some (- EIO, bio, d\<lparr>sd := s\<rparr>)
     | Some buf \<Rightarrow> do {
         (done, bio, s) \<leftarrow>
           (if is_write bio then do {
              buf \<leftarrow> bio_fill_buf bio buf size;
              (ret, s) \<leftarrow> scsi_swap_core_write K sector num bad buf s;
              Some (ret = 0 \<or> ret = - 0xaa, bio, s)
            } else do {
              (ret, buf, s) \<leftarrow> scsi_swap_core_read K sector num bad buf s;
              if ret = 0 \<or> ret = - 0xaa then do {
                bio \<leftarrow> buf_fill_bio bio buf size;
                Some (True, bio, s)
              } else Some (False, bio, s)
            });
         let bio = (if done then bio\<lparr>bi_uptodate := True\<rparr> else bio);
         let error = (if done then 0 else - EIO);
         let bio = (if bi_size bio \<ge> size
                    then bio\<lparr>bi_size := bi_size bio - size, bi_sector := bi_sector bio + scast num\<rparr>
                    else bio);
         Some (error, bio, d\<lparr>sd := s\<rparr>)
       }
   }"

subsection \<open>Which devices, which requests\<close>

definition swap_filter_table :: "string list" where
  "swap_filter_table = [''mv64xx'', ''pm8001'']"

definition scsi_device_can_swap :: "'w scsi_dev \<Rightarrow> bool" where
  "scsi_device_can_swap d =
     (case proc_name d of None \<Rightarrow> False
      | Some None \<Rightarrow> False
      | Some (Some name) \<Rightarrow> list_ex (\<lambda>x. name = x) swap_filter_table)"

definition scsi_get_reserve_sectors_for_swap :: "'w scsi_dev \<Rightarrow> sector_t" where
  "scsi_get_reserve_sectors_for_swap d =
     (if scsi_device_can_swap d then of_nat MAX_RESERVED_SECTOR else 0)"

definition swap_bio ::
    "'w kernel \<Rightarrow> bio option \<Rightarrow> sector_t \<Rightarrow> u32 \<Rightarrow> sector_t \<Rightarrow> int \<Rightarrow> bool \<Rightarrow> 'w blk \<Rightarrow> (bool \<times> 'w blk) option" where
  "swap_bio K bio sector len bad error mayc b =
     (case bio of None \<Rightarrow> Some (False, b)
      | Some bio \<Rightarrow>
          if error = - EIO then
            if \<not> is_write bio \<and> bad \<noteq> - 1 then Some (False, b)
            else
              (case bio_get_scsi_swap b bio of None \<Rightarrow> Some (False, b)
               | Some q \<Rightarrow> do {
                   let d = sdevs b q;
                   s \<leftarrow> deref_handler d;
                   if \<not> scsi_swap_core_can_swap (core s) sector len then Some (False, b)
                   else
                     let (m, s) = alloc K 80 s;
                         b = set_sdev q (d\<lparr>sd := s\<rparr>) b
                     in case m of None \<Rightarrow> Some (False, b)
                        | Some _ \<Rightarrow>
                            Some (True, b\<lparr>swap_wq := swap_wq b @
                              [\<lparr>item_sdev = q, item_bio = bio, start_sec = sector, isize = len,
                                bad_sec = bad, may_create = mayc\<rparr>]\<rparr>)
                 })
          else Some (False, b))"

definition bio_has_bad_block :: "'w blk \<Rightarrow> bio \<Rightarrow> bool option" where
  "bio_has_bad_block b bio =
     (case bio_get_scsi_swap b bio of None \<Rightarrow> Some False
      | Some q \<Rightarrow> do {
          s \<leftarrow> deref_handler (sdevs b q);
          scsi_swap_core_swapped (core s) (bi_sector bio) (bio_sectors bio)
        })"

subsection \<open>Commands and the simulated bad sectors\<close>

definition be32 :: "byte list \<Rightarrow> nat \<Rightarrow> u32" where
  "be32 cdb i = push_bit 24 (ucast (cdb ! i)) OR push_bit 16 (ucast (cdb ! (i + 1)))
     OR push_bit 8 (ucast (cdb ! (i + 2))) OR ucast (cdb ! (i + 3))"

text \<open>The number of sectors and the first one; a command buffer has at least 16 bytes.\<close>

definition sector_from_scmd :: "byte list \<Rightarrow> u32 \<times> sector_t" where
  "sector_from_scmd cdb =
     (let op = cdb ! 0;
          (high, low, count) =
            (if op = 0x08 \<or> op = 0x0a then
               (0, push_bit 16 (ucast (cdb ! 1 AND 0x1f)) OR push_bit 8 (ucast (cdb ! 2)) OR ucast (cdb ! 3),
                ucast (cdb ! 4))
             else if op = 0x28 \<or> op = 0x2a then
               (0, be32 cdb 2, push_bit 8 (ucast (cdb ! 7)) OR ucast (cdb ! 8))
             else if op = 0xa8 \<or> op = 0xaa then (0, be32 cdb 2, be32 cdb 6)
             else if op = 0x88 \<or> op = 0x8a then (be32 cdb 2, be32 cdb 6, be32 cdb 10)
             else (0 :: u32, 0 :: u32, 0))
      in (count, push_bit 32 (ucast high) OR ucast low))"

datatype scsi_action = SCSI_ACTION_UNKNOWN | SCSI_ACTION_READ | SCSI_ACTION_WRITE

definition scmd_get_action :: "byte list \<Rightarrow> scsi_action" where
  "scmd_get_action cdb =
     (let op = cdb ! 0
      in if op = 0x08 \<or> op = 0x28 \<or> op = 0xa8 \<or> op = 0x88 then SCSI_ACTION_READ
         else if op = 0x0a \<or> op = 0x2a \<or> op = 0xaa \<or> op = 0x8a then SCSI_ACTION_WRITE
         else SCSI_ACTION_UNKNOWN)"

definition scmd_should_be_bad :: "byte list \<Rightarrow> 'w scsi_dev \<Rightarrow> bool option" where
  "scmd_should_be_bad cdb d =
     (if \<not> enable d then Some False
      else if scmd_get_action cdb \<noteq> SCSI_ACTION_WRITE then Some False
      else
        let (num, sector) = sector_from_scmd cdb
        in do {
          _ \<leftarrow> deref_handler d;
          Some (scsi_swap_sim_hit (sim d) sector num)
        })"

subsection \<open>The life cycle of the handler\<close>

definition zero_core :: scsi_swap_core where
  "zero_core = \<lparr>device_dead = 0, info_num = 0, user = 0, head = zero_head, info_list = [],
     infos = \<lambda>_. None, next_info = 0, sector_reserve_start = 0, sector_head = 0,
     sector_table = 0, sector_data = 0\<rparr>"

definition zero_log :: scsi_swap_log where
  "zero_log = \<lparr>lhead = \<lparr>lh_crc = 0, lh_item_num = 0, lh_item_next = 0\<rparr>, ring = None,
     log_sector_head = 0, log_sector_data = 0\<rparr>"

text \<open>The result of the initialisation of the log is not used.\<close>

definition scsi_swap_init :: "'w kernel \<Rightarrow> sector_t \<Rightarrow> 'w scsi_dev \<Rightarrow> (int \<times> 'w scsi_dev) option" where
  "scsi_swap_init K reserve_sector d =
     (if \<not> scsi_device_can_swap d then Some (- 1, d)
      else
        let (m, s) = alloc K 672 (sd d) in
        case m of None \<Rightarrow> Some (- 1, d\<lparr>sd := s\<rparr>)
        | Some _ \<Rightarrow> do {
            let s = s\<lparr>core := zero_core, slog := zero_log\<rparr>;
            let d = d\<lparr>private_data := Live_ptr\<rparr>;
            (ret, s) \<leftarrow> scsi_swap_core_init K reserve_sector s;
            if ret < 0 then Some (- 1, d\<lparr>private_data := Freed_ptr, sd := s\<rparr>)
            else do {
              (_, s) \<leftarrow> scsi_swap_log_init K (reserve_sector + of_nat SWAP_LOG_HEAD_OFFSET)
                (reserve_sector + of_nat SWAP_LOG_DATA_OFFSET) s;
              Some (0, d\<lparr>sd := s, sim := scsi_swap_sim_init, enable := True\<rparr>)
            }
          })"

definition scsi_swap_destroy ::
    "'w kernel \<Rightarrow> (nat \<Rightarrow> int) \<Rightarrow> 'w scsi_dev \<Rightarrow> (int \<times> 'w scsi_dev) option" where
  "scsi_swap_destroy K later d =
     (if \<not> enable d then Some (- 1, d)
      else do {
        s \<leftarrow> deref_handler d;
        (_, _, s) \<leftarrow> scsi_swap_core_destroy K later s;
        let (_, s) = scsi_swap_log_destroy s;
        Some (0, d\<lparr>sd := s, sim := scsi_swap_sim_destroy (sim d), private_data := Freed_ptr\<rparr>)
      })"

text \<open>The work queue is one for the module; the flag says whether it could be created.\<close>

definition module_scsi_swap_init :: "bool \<Rightarrow> int" where
  "module_scsi_swap_init created = (if created then 0 else - 1)"

end
