(* ===== verification/Blk_Core.thy ===== *)
theory Blk_Core
  imports Swap
begin

text \<open>
  \<^verbatim>\<open>block/blk-core.c\<close>, the parts that a bio passes through on its way to a device and back:
  submission with the hook that sends a bio on a mapped block to the swap module, merging of bios
  into requests, and completion with the hook that retries a failed bio through the swap module.

  What the block layer calls outside the repository is an argument: the limits of a queue, the
  checks of the integrity and throttling code, and the driver's request function. Locks, tracing
  and accounting are omitted. A bio that is submitted has a block device. \<open>ended\<close> lists the bios that were completed, with their error codes.
\<close>

subsection \<open>Structures\<close>

record request_queue =
  max_hw_sectors :: u32
  flush_flags :: bool
  q_discard :: bool
  q_secdiscard :: bool
  q_write_same :: bool
  max_segments :: u32
  max_sectors :: u32

record 'w layer =
  below :: "'w blk"
  ended :: "(bio \<times> int) list"
  task_list :: "bio list option"

record 'w blk_env =
  queue_of :: "nat option \<Rightarrow> request_queue option"
  integrity_fails :: "bio \<Rightarrow> bool"
  throttled :: "bio \<Rightarrow> bool"
  make_request_fn :: "bio \<Rightarrow> 'w layer \<Rightarrow> 'w layer"

datatype cmd_type = REQ_TYPE_FS | REQ_TYPE_BLOCK_PC | REQ_TYPE_OTHER

text \<open>The bios of a request are its list, from \<^verbatim>\<open>rq->bio\<close> on.\<close>

record request =
  rq_bios :: "bio list"
  rq_type :: cmd_type
  rq_flags :: "req_flag set"
  rq_errors :: int
  data_len :: u32
  rq_sector :: sector_t
  resid_len :: u32
  nr_phys_segments :: u32

abbreviation FAILFAST_MASK :: "req_flag set" where
  "FAILFAST_MASK \<equiv> {REQ_FAILFAST_DEV, REQ_FAILFAST_TRANSPORT, REQ_FAILFAST_DRIVER}"

abbreviation (input) EOPNOTSUPP :: int where
  "EOPNOTSUPP \<equiv> 95"

definition bio_endio :: "bio \<Rightarrow> int \<Rightarrow> 'w layer \<Rightarrow> 'w layer" where
  "bio_endio bio error L = L\<lparr>ended := ended L @ [(bio, error)]\<rparr>"

definition bio_has_data :: "bio \<Rightarrow> bool" where
  "bio_has_data bio \<longleftrightarrow> bi_io_vec bio \<noteq> []"

subsection \<open>Queue parameters\<close>

definition blk_queue_congestion_threshold :: "u64 \<Rightarrow> int \<times> int" where
  "blk_queue_congestion_threshold nr_requests =
     (let nr = sint (ucast (nr_requests - nr_requests div 8 + 1) :: u32);
          on = (if of_int nr > nr_requests then sint (ucast nr_requests :: u32) else nr);
          nr = sint (ucast (nr_requests - nr_requests div 8 - nr_requests div 16 - 1) :: u32);
          off = (if nr < 1 then 1 else nr)
      in (on, off))"

subsection \<open>Submitting a bio\<close>

definition blk_partition_remap :: "'w blk \<Rightarrow> bio \<Rightarrow> bio" where
  "blk_partition_remap b bio =
     (case bi_bdev bio of None \<Rightarrow> bio
      | Some p \<Rightarrow>
          if bio_sectors bio \<noteq> 0 \<and> p \<noteq> bd_contains (bdevs b p)
          then bio\<lparr>bi_sector := bi_sector bio + start_sect (bdevs b p),
                   bi_bdev := Some (bd_contains (bdevs b p))\<rparr>
          else bio)"

definition handle_bad_sector :: "bio \<Rightarrow> bio" where
  "handle_bad_sector bio = bio\<lparr>bi_eof := True\<rparr>"

text \<open>A device of size zero is one whose size is not known.\<close>

definition bio_check_eod :: "'w blk \<Rightarrow> bio \<Rightarrow> u32 \<Rightarrow> bool \<times> bio" where
  "bio_check_eod b bio nr_sectors =
     (if nr_sectors = 0 then (False, bio)
      else
        let maxsector = (case bi_bdev bio of None \<Rightarrow> 0 | Some p \<Rightarrow> drop_bit 9 (i_size (bdevs b p)))
        in if maxsector \<noteq> 0 \<and> (maxsector < ucast nr_sectors \<or> maxsector - ucast nr_sectors < bi_sector bio)
           then (True, handle_bad_sector bio) else (False, bio))"

text \<open>
  The result tells whether the bio goes on, with the bio as it was changed; fault injection is
  not configured.
\<close>

definition generic_make_request_checks ::
    "'w blk_env \<Rightarrow> bio \<Rightarrow> 'w layer \<Rightarrow> bool \<times> bio \<times> 'w layer" where
  "generic_make_request_checks E bio L =
     (let nr_sectors = bio_sectors bio;
          (eod, bio) = bio_check_eod (below L) bio nr_sectors
      in if eod then (False, bio, bio_endio bio (- EIO) L)
      else
        case queue_of E (bi_bdev bio) of
          None \<Rightarrow> (False, bio, bio_endio bio (- EIO) L)
        | Some q \<Rightarrow>
            if bio_has_data bio \<and> REQ_WRITE_SAME \<notin> bi_rw bio \<and> nr_sectors > max_hw_sectors q
            then (False, bio, bio_endio bio (- EIO) L)
            else
              let bio = blk_partition_remap (below L) bio
              in if integrity_fails E bio then (False, bio, bio_endio bio (- EIO) L)
              else
                let (eod, bio) = bio_check_eod (below L) bio nr_sectors
                in if eod then (False, bio, bio_endio bio (- EIO) L)
                else
                  let strip = bi_rw bio \<inter> {REQ_FLUSH, REQ_FUA} \<noteq> {} \<and> \<not> flush_flags q;
                      bio = (if strip then bio\<lparr>bi_rw := bi_rw bio - {REQ_FLUSH, REQ_FUA}\<rparr> else bio)
                  in if strip \<and> nr_sectors = 0 then (False, bio, bio_endio bio 0 L)
                  else if REQ_DISCARD \<in> bi_rw bio \<and>
                    (\<not> q_discard q \<or> REQ_SECURE \<in> bi_rw bio \<and> \<not> q_secdiscard q)
                  then (False, bio, bio_endio bio (- EOPNOTSUPP) L)
                  else if REQ_WRITE_SAME \<in> bi_rw bio \<and> \<not> q_write_same q
                  then (False, bio, bio_endio bio (- EOPNOTSUPP) L)
                  else if throttled E bio then (False, bio, L)
                  else (True, bio, L))"

text \<open>
  The loop that hands the bios over while the driver's request function submits more of them; it
  need not end, so the result is an option.
\<close>

partial_function (option) request_loop :: "'w blk_env \<Rightarrow> bio \<Rightarrow> 'w layer \<Rightarrow> 'w layer option" where
  "request_loop E bio L =
     (let L = make_request_fn E bio L
      in case task_list L of
           Some (next # rest) \<Rightarrow> request_loop E next (L\<lparr>task_list := Some rest\<rparr>)
         | _ \<Rightarrow> Some (L\<lparr>task_list := None\<rparr>))"

definition generic_make_request ::
    "'w kernel \<Rightarrow> 'w blk_env \<Rightarrow> bio \<Rightarrow> 'w layer \<Rightarrow> 'w layer option" where
  "generic_make_request K E bio L = do {
     bad \<leftarrow> bio_has_bad_block (below L) bio;
     if bad then do {
       (queued, b) \<leftarrow> swap_bio K (Some bio) (bi_sector bio) (bi_size bio) (- 1) (- EIO) False (below L);
       let L = L\<lparr>below := b\<rparr>;
       Some (if queued then L else bio_endio bio (- EIO) L)
     } else
       let (go, bio, L) = generic_make_request_checks E bio L
       in if \<not> go then Some L
       else case task_list L of
         Some l \<Rightarrow> Some (L\<lparr>task_list := Some (l @ [bio])\<rparr>)
       | None \<Rightarrow> request_loop E bio (L\<lparr>task_list := Some []\<rparr>)
   }"

definition submit_bio ::
    "'w kernel \<Rightarrow> 'w blk_env \<Rightarrow> req_flag set \<Rightarrow> bio \<Rightarrow> 'w layer \<Rightarrow> 'w layer option" where
  "submit_bio K E rw bio L = generic_make_request K E (bio\<lparr>bi_rw := bi_rw bio \<union> rw\<rparr>) L"

subsection \<open>Requests made of bios\<close>

definition blk_rq_init :: request where
  "blk_rq_init =
     \<lparr>rq_bios = [], rq_type = REQ_TYPE_OTHER, rq_flags = {}, rq_errors = 0, data_len = 0,
      rq_sector = - 1, resid_len = 0, nr_phys_segments = 0\<rparr>"

definition blk_rq_bio_prep :: "u32 \<Rightarrow> request \<Rightarrow> bio \<Rightarrow> request" where
  "blk_rq_bio_prep phys rq bio =
     (let rq = rq\<lparr>rq_flags := rq_flags rq \<union> (bi_rw bio \<inter> {REQ_WRITE})\<rparr>;
          rq = (if bio_has_data bio then rq\<lparr>nr_phys_segments := phys\<rparr> else rq)
      in rq\<lparr>data_len := bi_size bio, rq_bios := [bio]\<rparr>)"

text \<open>\<open>common\<close> is the mask of the flags that a request takes over from a bio.\<close>

definition init_request_from_bio :: "req_flag set \<Rightarrow> u32 \<Rightarrow> request \<Rightarrow> bio \<Rightarrow> request" where
  "init_request_from_bio common phys rq bio =
     (let rq = rq\<lparr>rq_type := REQ_TYPE_FS, rq_flags := rq_flags rq \<union> (bi_rw bio \<inter> common)\<rparr>;
          rq = (if REQ_RAHEAD \<in> bi_rw bio then rq\<lparr>rq_flags := rq_flags rq \<union> FAILFAST_MASK\<rparr> else rq)
      in blk_rq_bio_prep phys (rq\<lparr>rq_errors := 0, rq_sector := bi_sector bio\<rparr>) bio)"

text \<open>
  \<open>fits\<close> is the answer of the merge function of the queue, and \<open>set_mixed\<close> what the block layer
  does to a request that becomes one of mixed fail-fast flags; both are outside the repository.
\<close>

definition bio_attempt_back_merge :: "bool \<Rightarrow> (request \<Rightarrow> request) \<Rightarrow> request \<Rightarrow> bio \<Rightarrow> bool \<times> request" where
  "bio_attempt_back_merge fits set_mixed rq bio =
     (if \<not> fits then (False, rq)
      else
        let rq = (if rq_flags rq \<inter> FAILFAST_MASK \<noteq> bi_rw bio \<inter> FAILFAST_MASK
                  then set_mixed rq else rq)
        in (True, rq\<lparr>rq_bios := rq_bios rq @ [bio], data_len := data_len rq + bi_size bio\<rparr>))"

definition bio_attempt_front_merge :: "bool \<Rightarrow> (request \<Rightarrow> request) \<Rightarrow> request \<Rightarrow> bio \<Rightarrow> bool \<times> request" where
  "bio_attempt_front_merge fits set_mixed rq bio =
     (if \<not> fits then (False, rq)
      else
        let rq = (if rq_flags rq \<inter> FAILFAST_MASK \<noteq> bi_rw bio \<inter> FAILFAST_MASK
                  then set_mixed rq else rq)
        in (True, rq\<lparr>rq_bios := bio # rq_bios rq, rq_sector := bi_sector bio,
                     data_len := data_len rq + bi_size bio\<rparr>))"

text \<open>\<open>mergeable\<close> and the recounted number of segments come from code outside the repository.\<close>

definition blk_rq_check_limits :: "request_queue \<Rightarrow> bool \<Rightarrow> u32 \<Rightarrow> request \<Rightarrow> int" where
  "blk_rq_check_limits q mergeable segments rq =
     (if \<not> mergeable then 0
      else if drop_bit 9 (data_len rq) > max_sectors q then - EIO
      else if segments > max_segments q then - EIO
      else 0)"

fun err_bytes_loop :: "req_flag set \<Rightarrow> bio list \<Rightarrow> u32 \<Rightarrow> u32" where
  "err_bytes_loop ff [] bytes = bytes"
| "err_bytes_loop ff (bio # bios) bytes =
     (if bi_rw bio \<inter> ff \<noteq> ff then bytes else err_bytes_loop ff bios (bytes + bi_size bio))"

text \<open>The last check of the source is a bug trap: a fault.\<close>

definition blk_rq_err_bytes :: "request \<Rightarrow> u32 option" where
  "blk_rq_err_bytes rq =
     (if REQ_MIXED_MERGE \<notin> rq_flags rq then Some (data_len rq)
      else
        let bytes = err_bytes_loop (rq_flags rq \<inter> FAILFAST_MASK) (rq_bios rq) 0
        in if data_len rq \<noteq> 0 \<and> bytes = 0 then None else Some bytes)"

subsection \<open>Completing a request\<close>

text \<open>The result is the bio as it is left and the layer.\<close>

definition req_bio_endio ::
    "'w kernel \<Rightarrow> request \<Rightarrow> bio \<Rightarrow> u32 \<Rightarrow> int \<Rightarrow> 'w layer \<Rightarrow> (bio \<times> 'w layer) option" where
  "req_bio_endio K rq bio nbytes error L =
     (let bio = (if error \<noteq> 0 then bio\<lparr>bi_uptodate := False\<rparr> else bio);
          error = (if error = 0 \<and> \<not> bi_uptodate bio then - EIO else error);
          nbytes = (if nbytes > bi_size bio then bi_size bio else nbytes);
          bio = (if REQ_QUIET \<in> rq_flags rq then bio\<lparr>bi_quiet := True\<rparr> else bio);
          start = bi_sector bio;
          len = bi_size bio;
          bad = rq_sector rq;
          bio = bio\<lparr>bi_size := bi_size bio - nbytes, bi_sector := bi_sector bio + ucast (drop_bit 9 nbytes)\<rparr>
      in if bi_size bio = 0 \<and> REQ_FLUSH_SEQ \<notin> rq_flags rq then do {
           (queued, b) \<leftarrow> swap_bio K (Some bio) start len bad error True (below L);
           let L = L\<lparr>below := b\<rparr>;
           Some (bio, if queued then L else bio_endio bio error L)
         } else Some (bio, L))"

text \<open>
  The loop over the bios and their segments: the bios that are left, the bytes of the first of
  them and its segments that are done, the total, and the bytes not used up. A bio whose segments
  run out before its bytes ends the loop.
\<close>

function (sequential) update_loop ::
    "'w kernel \<Rightarrow> request \<Rightarrow> int \<Rightarrow> bio list \<Rightarrow> nat \<Rightarrow> u32 \<Rightarrow> u32 \<Rightarrow> u32 \<Rightarrow> 'w layer
      \<Rightarrow> (bio list \<times> nat \<times> u32 \<times> u32 \<times> u32 \<times> 'w layer) option" where
  "update_loop K rq error [] next_idx bio_nbytes tot nr_bytes L =
     Some ([], next_idx, bio_nbytes, tot, nr_bytes, L)"
| "update_loop K rq error (bio # bios) next_idx bio_nbytes tot nr_bytes L =
     (if nr_bytes \<ge> bi_size bio then do {
        (_, L) \<leftarrow> req_bio_endio K rq bio (bi_size bio) error L;
        let tot = tot + bi_size bio;
        let nr_bytes = nr_bytes - bi_size bio;
        if bios \<noteq> [] \<and> nr_bytes = 0 then Some (bios, 0, 0, tot, nr_bytes, L)
        else update_loop K rq error bios 0 0 tot nr_bytes L
      } else if bi_idx bio + next_idx \<ge> length (bi_io_vec bio) then
        Some (bio # bios, next_idx, bio_nbytes, tot, nr_bytes, L)
      else
        let nbytes = bv_len (bi_io_vec bio ! (bi_idx bio + next_idx))
        in if nbytes > bi_size bio then None
        else if nbytes > nr_bytes then
          Some (bio # bios, next_idx, bio_nbytes + nr_bytes, tot + nr_bytes, nr_bytes, L)
        else
          let nr_bytes = nr_bytes - nbytes
          in if nr_bytes = 0 then
               Some (bio # bios, next_idx + 1, bio_nbytes + nbytes, tot + nbytes, nr_bytes, L)
             else update_loop K rq error (bio # bios) (next_idx + 1) (bio_nbytes + nbytes) (tot + nbytes) nr_bytes L)"
  by pat_completeness auto
termination
  by (relation "measures [\<lambda>(K, rq, error, bios, next_idx, bn, t, nr, L). length bios,
        \<lambda>(K, rq, error, bios, next_idx, bn, t, nr, L).
          (case bios of [] \<Rightarrow> 0 | bio # _ \<Rightarrow> length (bi_io_vec bio) - next_idx)]") auto

definition rq_cur_bytes :: "request \<Rightarrow> u32" where
  "rq_cur_bytes rq =
     (case rq_bios rq of [] \<Rightarrow> 0
      | bio # _ \<Rightarrow> if bio_has_data bio then bv_len (bi_io_vec bio ! bi_idx bio) else bi_size bio)"

text \<open>\<open>segments\<close> is the recounted number of segments.\<close>

definition blk_update_request ::
    "'w kernel \<Rightarrow> u32 \<Rightarrow> request \<Rightarrow> int \<Rightarrow> u32 \<Rightarrow> 'w layer \<Rightarrow> (bool \<times> request \<times> 'w layer) option" where
  "blk_update_request K segments rq error nr_bytes L =
     (if rq_bios rq = [] then Some (False, rq, L)
      else do {
        let rq = (if rq_type rq = REQ_TYPE_FS then rq\<lparr>rq_errors := 0\<rparr> else rq);
        (bios, next_idx, bio_nbytes, tot, nr_bytes, L) \<leftarrow>
          update_loop K rq error (rq_bios rq) 0 0 0 nr_bytes L;
        case bios of
          [] \<Rightarrow> Some (False, rq\<lparr>rq_bios := [], data_len := 0\<rparr>, L)
        | bio # bios \<Rightarrow> do {
            (bio, L) \<leftarrow>
              (if bio_nbytes \<noteq> 0 then do {
                 (bio, L) \<leftarrow> req_bio_endio K rq bio bio_nbytes error L;
                 let idx = bi_idx bio + next_idx;
                 let v = bi_io_vec bio ! idx;
                 if idx \<ge> length (bi_io_vec bio) then None
                 else Some (bio\<lparr>bi_idx := idx, bi_io_vec := (bi_io_vec bio)
                   [idx := v\<lparr>bv_offset := bv_offset v + nr_bytes, bv_len := bv_len v - nr_bytes\<rparr>]\<rparr>, L)
               } else Some (bio, L));
            let rq = rq\<lparr>rq_bios := bio # bios, data_len := data_len rq - tot\<rparr>;
            let rq = (if rq_type rq = REQ_TYPE_FS
                      then rq\<lparr>rq_sector := rq_sector rq + scast (signed_drop_bit 9 tot)\<rparr> else rq);
            let rq = (if REQ_MIXED_MERGE \<in> rq_flags rq
                      then rq\<lparr>rq_flags := rq_flags rq - FAILFAST_MASK \<union> (bi_rw bio \<inter> FAILFAST_MASK)\<rparr> else rq);
            let rq = (if data_len rq < rq_cur_bytes rq then rq\<lparr>data_len := rq_cur_bytes rq\<rparr> else rq);
            Some (True, rq\<lparr>nr_phys_segments := segments\<rparr>, L)
          }
      })"

end
