(* ===== verification/Scsi.thy ===== *)
theory Scsi
  imports Blk_Core
begin

text \<open>
  \<^verbatim>\<open>include/scsi/scsi_device.h\<close> and the parts of \<^verbatim>\<open>drivers/scsi/scsi.c\<close> that the disk driver and the
  swap module meet: dispatching a command, its completion with the hook for simulated bad
  sectors, queue depth tracking, and the inquiries on a device.

  The low-level driver and the rest of the mid layer are arguments. The numbers of the SCSI
  levels and of the result bytes are those of the SCSI headers of the kernel.
\<close>

unbundle bit_operations_syntax

subsection \<open>Structures\<close>

abbreviation (input) SCSI_UNKNOWN :: int where "SCSI_UNKNOWN \<equiv> 0"
abbreviation (input) SCSI_2 :: int where "SCSI_2 \<equiv> 3"
abbreviation (input) SCSI_SPC_2 :: int where "SCSI_SPC_2 \<equiv> 5"
abbreviation (input) SCSI_SPC_3 :: int where "SCSI_SPC_3 \<equiv> 6"
abbreviation (input) EINVAL :: int where "EINVAL \<equiv> 22"
abbreviation (input) ENODEV :: int where "ENODEV \<equiv> 19"
abbreviation (input) DID_NO_CONNECT :: u32 where "DID_NO_CONNECT \<equiv> 1"
abbreviation (input) DID_ABORT :: u32 where "DID_ABORT \<equiv> 5"
abbreviation (input) DRIVER_INVALID :: u32 where "DRIVER_INVALID \<equiv> 5"
abbreviation (input) DRIVER_SENSE :: u32 where "DRIVER_SENSE \<equiv> 8"
abbreviation (input) NO_SENSE :: byte where "NO_SENSE \<equiv> 0"
abbreviation (input) RECOVERED_ERROR :: byte where "RECOVERED_ERROR \<equiv> 1"
abbreviation (input) NOT_READY :: byte where "NOT_READY \<equiv> 2"
abbreviation (input) MEDIUM_ERROR :: byte where "MEDIUM_ERROR \<equiv> 3"
abbreviation (input) HARDWARE_ERROR :: byte where "HARDWARE_ERROR \<equiv> 4"
abbreviation (input) ILLEGAL_REQUEST :: byte where "ILLEGAL_REQUEST \<equiv> 5"
abbreviation (input) UNIT_ATTENTION :: byte where "UNIT_ATTENTION \<equiv> 6"
abbreviation (input) ABORTED_COMMAND :: byte where "ABORTED_COMMAND \<equiv> 11"

record scsi_host =
  max_cmd_len :: u32
  cmd_per_lun :: int
  host_tags :: bool
  host_deleted :: bool
  host_blocked :: u32
  target_blocked :: u32
  cmd_serial_number :: u64

text \<open>The fields that the modelled code uses; \<open>swap\<close> is the part of the swap module.\<close>

record 'w scsi_device =
  swap :: "'w scsi_dev"
  host :: scsi_host
  sector_size :: u32
  sdev_type :: byte
  scsi_level :: int
  inquiry :: "byte list"
  lun :: u32
  device_blocked :: u32
  queue_depth :: u16
  ordered_tags :: bool
  simple_tags :: bool
  last_queue_full_depth :: u16
  last_queue_full_count :: u16
  last_queue_full_time :: u64
  writeable :: bool
  use_10_for_rw :: bool
  use_16_for_rw :: bool
  no_report_opcodes :: bool
  no_write_same :: bool
  skip_ms_page_8 :: bool
  skip_ms_page_3f :: bool
  skip_vpd_pages :: bool
  use_192_bytes_for_3f :: bool
  no_start_on_add :: bool
  manage_start_stop :: bool
  start_stop_pwr_cond :: bool
  fix_capacity :: bool
  guess_capacity :: bool
  last_sector_bug :: bool
  no_read_capacity_16 :: bool
  try_rc_10_first :: bool
  wce_default_on :: bool
  no_dif :: bool

datatype prot_kind = PROT_NORMAL | PROT_READ_PASS | PROT_READ_STRIP | PROT_READ_INSERT
  | PROT_WRITE_PASS | PROT_WRITE_INSERT | PROT_WRITE_STRIP

record scsi_cmnd =
  cmnd :: "byte list"
  cmd_len :: u32
  from_pool :: bool
  sc_data_direction :: dma_direction
  sdb_length :: u32
  resid :: u32
  transfersize :: u32
  underflow :: u32
  allowed :: nat
  prot_sg_count :: u32
  prot_op :: prot_kind
  prot_type :: u32
  cresult :: u32
  sense_buffer :: "byte list"
  serial_number :: u64

abbreviation device_world :: "'w scsi_device \<Rightarrow> 'w" where
  "device_world d \<equiv> world (sd (swap d))"

abbreviation set_device_world :: "'w \<Rightarrow> 'w scsi_device \<Rightarrow> 'w scsi_device" where
  "set_device_world w d \<equiv> d\<lparr>swap := (swap d)\<lparr>sd := (sd (swap d))\<lparr>world := w\<rparr>\<rparr>\<rparr>"

definition scsi_device_protection :: "'w scsi_device \<Rightarrow> bool" where
  "scsi_device_protection d \<longleftrightarrow>
     \<not> no_dif d \<and> scsi_level d > SCSI_2 \<and> (inquiry d ! 5) AND 1 \<noteq> 0"

text \<open>
  A command sent through the mid layer: what the device sends lands in the buffer, which keeps its
  length.
\<close>

definition dma_fill :: "byte list \<Rightarrow> byte list \<Rightarrow> byte list" where
  "dma_fill buf data = take (length buf) data @ drop (length data) buf"

definition send_req ::
    "'w kernel \<Rightarrow> byte list \<Rightarrow> dma_direction \<Rightarrow> byte list \<Rightarrow> nat \<Rightarrow> nat \<Rightarrow> 'w scsi_device
      \<Rightarrow> u32 \<times> scsi_sense_hdr \<times> byte list \<times> 'w scsi_device" where
  "send_req K cmd dir buf timeout retries d =
     (let (res, sshdr, data, w) = scsi_execute_req K cmd dir buf timeout retries (device_world d)
      in (res, sshdr, dma_fill buf data, set_device_world w d))"

lemma length_dma_fill [simp]: "length (dma_fill buf data) = length buf"
  by (simp add: dma_fill_def)

lemma send_req_facts:
  assumes "send_req K cmd dir buf t r d = (res, sshdr, buf', d')"
  shows "length buf' = length buf" "\<exists>w. d' = set_device_world w d"
  using assms by (auto simp: send_req_def Let_def split: prod.splits)

subsection \<open>Dispatching a command\<close>

definition scsi_cmd_get_serial :: "scsi_host \<Rightarrow> scsi_cmnd \<Rightarrow> scsi_host \<times> scsi_cmnd" where
  "scsi_cmd_get_serial h cmd =
     (let cmd = cmd\<lparr>serial_number := cmd_serial_number h\<rparr>;
          h = h\<lparr>cmd_serial_number := cmd_serial_number h + 1\<rparr>
      in if serial_number cmd = 0
         then (h\<lparr>cmd_serial_number := cmd_serial_number h + 1\<rparr>, cmd\<lparr>serial_number := cmd_serial_number h\<rparr>)
         else (h, cmd))"

text \<open>The completion, with the simulated bad sectors.\<close>

definition scsi_done :: "'w scsi_device \<Rightarrow> scsi_cmnd \<Rightarrow> scsi_cmnd option" where
  "scsi_done d cmd = do {
     bad \<leftarrow> scmd_should_be_bad (cmnd cmd) (swap d);
     Some (if bad
           then cmd\<lparr>cresult := cresult cmd OR (push_bit 24 DRIVER_INVALID OR push_bit 16 DID_ABORT)\<rparr>
           else cmd)
   }"

text \<open>
  What becomes of a command: it is completed at once, put back on the queue with a reason, or
  taken by the low-level driver (\<open>queuecommand\<close>, which returns 0 when it takes it). The wait after
  a bus reset is a delay and is omitted. The reasons are those of the mid layer.
\<close>

datatype mlqueue = SCSI_MLQUEUE_HOST_BUSY | SCSI_MLQUEUE_DEVICE_BUSY | SCSI_MLQUEUE_TARGET_BUSY | Other_reason

datatype dispatch = Completed scsi_cmnd | Inserted mlqueue scsi_cmnd | Taken scsi_cmnd

definition scsi_dispatch_cmd ::
    "'w kernel \<Rightarrow> (scsi_cmnd \<Rightarrow> mlqueue option) \<Rightarrow> 'w scsi_device \<Rightarrow> scsi_cmnd
      \<Rightarrow> (mlqueue option \<times> dispatch) option" where
  "scsi_dispatch_cmd K queuecommand d cmd =
     (if sdev_state K (device_world d) = SDEV_DEL then do {
        cmd \<leftarrow> scsi_done d (cmd\<lparr>cresult := push_bit 16 DID_NO_CONNECT\<rparr>);
        Some (None, Completed cmd)
      } else if scsi_device_blocked K (device_world d) then
        Some (None, Inserted SCSI_MLQUEUE_DEVICE_BUSY cmd)
      else
        let cmd = (if scsi_level d \<le> SCSI_2 \<and> scsi_level d \<noteq> SCSI_UNKNOWN
                   then cmd\<lparr>cmnd := (cmnd cmd)
                     [1 := (cmnd cmd ! 1 AND 0x1f) OR ucast (push_bit 5 (lun d) AND 0xe0)]\<rparr>
                   else cmd)
        in if cmd_len cmd > max_cmd_len (host d) then do {
             cmd \<leftarrow> scsi_done d (cmd\<lparr>cresult := push_bit 16 DID_ABORT\<rparr>);
             Some (None, Completed cmd)
           } else if host_deleted (host d) then do {
             cmd \<leftarrow> scsi_done d (cmd\<lparr>cresult := push_bit 16 DID_NO_CONNECT\<rparr>);
             Some (None, Completed cmd)
           } else
             (case queuecommand cmd of
                None \<Rightarrow> Some (None, Taken cmd)
              | Some rtn \<Rightarrow>
                  let rtn = (if rtn \<noteq> SCSI_MLQUEUE_DEVICE_BUSY \<and> rtn \<noteq> SCSI_MLQUEUE_TARGET_BUSY
                             then SCSI_MLQUEUE_HOST_BUSY else rtn)
                  in Some (Some rtn, Inserted rtn cmd)))"

text \<open>
  Finishing a command; the result has the number of bytes that the mid layer completes. \<open>drv_done\<close>
  is the handler of the upper-level driver, if it has one.
\<close>

definition scsi_finish_command ::
    "(scsi_cmnd \<Rightarrow> (u32 \<times> scsi_cmnd) option) option \<Rightarrow> request \<Rightarrow> 'w scsi_device \<Rightarrow> scsi_cmnd
      \<Rightarrow> (u32 \<times> scsi_cmnd \<times> 'w scsi_device) option" where
  "scsi_finish_command drv_done rq d cmd =
     (let d = d\<lparr>host := (host d)\<lparr>host_blocked := 0, target_blocked := 0\<rparr>, device_blocked := 0\<rparr>;
          cmd = (if sense_buffer cmd ! 0 AND 0x70 = 0x70
                 then cmd\<lparr>cresult := cresult cmd OR push_bit 24 DRIVER_SENSE\<rparr> else cmd);
          good_bytes = sdb_length cmd
      in if rq_type rq \<noteq> REQ_TYPE_BLOCK_PC then do {
           let old_good_bytes = good_bytes;
           (good_bytes, cmd) \<leftarrow> (case drv_done of None \<Rightarrow> Some (good_bytes, cmd) | Some f \<Rightarrow> f cmd);
           let good_bytes = (if good_bytes = old_good_bytes then good_bytes - resid cmd else good_bytes);
           Some (good_bytes, cmd, d)
         } else Some (good_bytes, cmd, d))"

subsection \<open>Queue depth\<close>

text \<open>\<open>tagged\<close> says whether the block layer manages the tags, \<open>resized\<close> whether it could resize them.\<close>

abbreviation (input) MSG_SIMPLE_TAG :: int where "MSG_SIMPLE_TAG \<equiv> 0x20"
abbreviation (input) MSG_ORDERED_TAG :: int where "MSG_ORDERED_TAG \<equiv> 0x22"

definition scsi_adjust_queue_depth ::
    "bool \<Rightarrow> (int \<Rightarrow> bool) \<Rightarrow> int \<Rightarrow> int \<Rightarrow> 'w scsi_device \<Rightarrow> 'w scsi_device" where
  "scsi_adjust_queue_depth block_tags resized tagged tags d =
     (if tags \<le> 0 then d
      else if \<not> host_tags (host d) \<and> block_tags \<and> \<not> resized tags then d
      else
        let d = d\<lparr>queue_depth := of_int tags\<rparr>
        in if tagged = MSG_ORDERED_TAG then d\<lparr>ordered_tags := True, simple_tags := True\<rparr>
           else if tagged = MSG_SIMPLE_TAG then d\<lparr>ordered_tags := False, simple_tags := True\<rparr>
           else d\<lparr>ordered_tags := False, simple_tags := False, queue_depth := of_int tags\<rparr>)"

definition scsi_track_queue_full ::
    "bool \<Rightarrow> (int \<Rightarrow> bool) \<Rightarrow> u64 \<Rightarrow> int \<Rightarrow> 'w scsi_device \<Rightarrow> int \<times> 'w scsi_device" where
  "scsi_track_queue_full block_tags resized jiffies depth d =
     (if drop_bit 4 jiffies = drop_bit 4 (last_queue_full_time d) then (0, d)
      else
        let d = d\<lparr>last_queue_full_time := jiffies\<rparr>;
            d = (if int (unat (last_queue_full_depth d)) \<noteq> depth
                 then d\<lparr>last_queue_full_count := 1, last_queue_full_depth := of_int depth\<rparr>
                 else d\<lparr>last_queue_full_count := last_queue_full_count d + 1\<rparr>)
        in if last_queue_full_count d \<le> 10 then (0, d)
           else if last_queue_full_depth d < 8 then
             (- 1, scsi_adjust_queue_depth block_tags resized 0 (cmd_per_lun (host d)) d)
           else if ordered_tags d then
             (depth, scsi_adjust_queue_depth block_tags resized MSG_ORDERED_TAG depth d)
           else (depth, scsi_adjust_queue_depth block_tags resized MSG_SIMPLE_TAG depth d))"

subsection \<open>Inquiries\<close>

text \<open>
  The code after the first six bytes of the command is not initialised by the source; the command
  has six bytes. A buffer is at least two bytes long.
\<close>

definition scsi_vpd_inquiry ::
    "'w kernel \<Rightarrow> byte \<Rightarrow> byte list \<Rightarrow> 'w scsi_device \<Rightarrow> bool \<times> byte list \<times> 'w scsi_device" where
  "scsi_vpd_inquiry K page buf d =
     (let len = (of_nat (length buf) :: u32);
          cmd = [0x12, 1, page, ucast (drop_bit 8 len), ucast (len AND 0xff), 0];
          (res, _, buf, d) = send_req K cmd DMA_FROM_DEVICE buf 30 3 d
      in if res \<noteq> 0 then (False, buf, d) else (buf ! 1 = page, buf, d))"

fun vpd_loop :: "byte \<Rightarrow> byte list \<Rightarrow> nat \<Rightarrow> nat \<Rightarrow> bool" where
  "vpd_loop page buf i 0 = False"
| "vpd_loop page buf i (Suc n) = (if buf ! (i + 4) = page then True else vpd_loop page buf (i + 1) n)"

text \<open>The result tells whether the page is in the buffer (the source returns 0).\<close>

definition scsi_get_vpd_page ::
    "'w kernel \<Rightarrow> byte \<Rightarrow> byte list \<Rightarrow> 'w scsi_device \<Rightarrow> bool \<times> byte list \<times> 'w scsi_device" where
  "scsi_get_vpd_page K page buf d =
     (let buf_len = length buf;
          (ok, buf, d) = scsi_vpd_inquiry K 0 buf d
      in if \<not> ok then (False, buf, d)
         else if page = 0 then (True, buf, d)
         else
           let n = unat (buf ! 3);
               found = vpd_loop page buf 0 (min n (buf_len - 4));
               cut = buf_len - 4 < n
           in if found \<or> cut then scsi_vpd_inquiry K page buf d else (False, buf, d))"

definition scsi_report_opcode ::
    "'w kernel \<Rightarrow> byte list \<Rightarrow> byte \<Rightarrow> 'w scsi_device \<Rightarrow> bool \<times> byte list \<times> 'w scsi_device" where
  "scsi_report_opcode K buf opcode d =
     (if no_report_opcodes d \<or> scsi_level d < SCSI_SPC_3 then (False, buf, d)
      else
        let cmd = [0xa3, 0x0c, 1, opcode, 0, 0] @ be_bytes 4 (of_nat (length buf) :: u32) @ replicate 6 0;
            (res, sshdr, buf, d) = send_req K cmd DMA_FROM_DEVICE (replicate (length buf) 0) 30 3 d
        in if res \<noteq> 0 \<and> scsi_sense_valid (Some sshdr) \<and> sense_key sshdr = ILLEGAL_REQUEST \<and>
             (asc sshdr = 0x20 \<or> asc sshdr = 0x24) \<and> ascq sshdr = 0
           then (False, buf, d)
           else (buf ! 1 AND 3 = 3, buf, d))"

end
