(* ===== verification/Sd.thy ===== *)
theory Sd
  imports Scsi
begin

text \<open>
  \<^verbatim>\<open>drivers/scsi/sd.c\<close>, the commands of the disk driver: a block request becomes a command
  descriptor block (\<^verbatim>\<open>sd_prep_fn\<close> and the functions it calls), and the completion of a command
  becomes a number of good bytes (\<^verbatim>\<open>sd_done\<close>).

  The header \<^verbatim>\<open>sd.h\<close> and the mid layer's library are outside the repository: their constants and
  functions are the record \<open>sd_env\<close>. Calls of the block layer's functions that set a parameter of
  the queue are recorded, in order, in \<open>qcalls\<close>.
\<close>

subsection \<open>Structures\<close>

datatype blkprep = BLKPREP_OK | BLKPREP_KILL | BLKPREP_DEFER

datatype sd_lbp = SD_LBP_FULL | SD_LBP_UNMAP | SD_LBP_WS16 | SD_LBP_WS10 | SD_LBP_ZERO | SD_LBP_DISABLE

datatype queue_flag = QUEUE_FLAG_DISCARD | QUEUE_FLAG_NONROT

datatype queue_call =
    Logical_block_size u32 | Physical_block_size u32 | Alignment_offset u32 | Io_min u32 | Io_opt u32
  | Max_write_same_sectors u32 | Flag_set queue_flag | Flag_clear queue_flag | Flush "req_flag set"
  | Prep_rq bool | Unprep_rq bool

record mode_data =
  md_length :: u32
  block_descriptor_length :: u16
  device_specific :: byte
  header_length :: byte

text \<open>
  \<open>scsi_setup_fs_cmnd\<close> and \<open>scsi_setup_blk_pc_cmnd\<close> attach a command to a request;
  \<open>scsi_prep_return\<close> turns the outcome into the answer for the block layer; \<open>alloc_page\<close> and
  \<open>cdb_pool\<close> say whether memory is there; \<open>sense_info_fld\<close> reads the address of a failed block from
  the sense data.
\<close>

record 'w sd_env =
  SD_TIMEOUT :: nat
  SD_FLUSH_TIMEOUT :: nat
  SD_MAX_RETRIES :: nat
  SD_MAX_MEDIUM_TIMEOUTS :: u32
  SD_MAX_WS16_BLOCKS :: u32
  SD_MAX_WS10_BLOCKS :: u32
  SD_LAST_BUGGY_SECTORS :: u32
  SD_BUF_SIZE :: nat
  SCSI_DISK0_MAJOR :: nat
  SCSI_DISK1_MAJOR :: nat
  SCSI_DISK8_MAJOR :: nat
  scsi_host_dif_capable :: "u32 \<Rightarrow> u32"
  scsi_setup_fs_cmnd :: "request \<Rightarrow> blkprep \<times> scsi_cmnd"
  scsi_setup_blk_pc_cmnd :: "request \<Rightarrow> byte list \<Rightarrow> blkprep \<times> scsi_cmnd"
  scsi_prep_return :: "blkprep \<Rightarrow> blkprep"
  alloc_page :: "'w \<Rightarrow> bool"
  cdb_pool :: "'w \<Rightarrow> bool"
  scsi_sense_is_deferred :: "scsi_sense_hdr \<Rightarrow> bool"
  sense_info_fld :: "byte list \<Rightarrow> u64 option"
  scsi_mode_sense :: "byte \<Rightarrow> byte \<Rightarrow> byte list \<Rightarrow> nat \<Rightarrow> 'w \<Rightarrow> u32 \<times> byte list \<times> mode_data \<times> 'w"
  scsi_device_set_state :: "scsi_device_state \<Rightarrow> 'w \<Rightarrow> 'w"
  jiffies :: "'w \<Rightarrow> u64"
  HZ :: u64
  msleep :: "nat \<Rightarrow> 'w \<Rightarrow> 'w"

record 'w sd_disk =
  device :: "'w scsi_device"
  capacity :: sector_t
  disk_capacity :: sector_t
  disk_ro :: bool
  disk_index :: u32
  gd_major :: nat
  first_minor :: u32
  gd_removable :: bool
  openers :: int
  max_ws_blocks :: u32
  max_unmap_blocks :: u32
  unmap_granularity :: u32
  unmap_alignment :: u32
  physical_block_size :: u32
  provisioning_mode :: sd_lbp
  protection_type :: u32
  media_present :: bool
  write_prot :: bool
  WCE :: bool
  RCD :: bool
  DPOFUA :: bool
  ATO :: bool
  first_scan :: bool
  lbpme :: bool
  lbprz :: bool
  lbpu :: bool
  lbpws :: bool
  lbpws10 :: bool
  lbpvpd :: bool
  ws16 :: bool
  medium_access_timed_out :: u32
  max_medium_access_timeouts :: u32
  discard_zeroes_data :: bool
  discard_alignment :: u32
  discard_granularity :: u32
  max_discard_sectors :: u32
  qcalls :: "queue_call list"

abbreviation qcall :: "queue_call \<Rightarrow> 'w sd_disk \<Rightarrow> 'w sd_disk" where
  "qcall c k \<equiv> k\<lparr>qcalls := qcalls k @ [c]\<rparr>"

definition min_not_zero :: "u32 \<Rightarrow> u32 \<Rightarrow> u32" where
  "min_not_zero x y = (if x = 0 then y else if y = 0 then x else min x y)"

definition blk_rq_sectors :: "request \<Rightarrow> u32" where
  "blk_rq_sectors rq = drop_bit 9 (data_len rq)"

text \<open>
  The base-two logarithm of the sector size, rounded down, less 9; a shift count. For sectors of
  less than 512 bytes the count of the source is negative and the shift is undefined: a fault.
\<close>

fun log2_floor :: "nat \<Rightarrow> nat" where
  "log2_floor n = (if n < 2 then 0 else Suc (log2_floor (n div 2)))"

declare log2_floor.simps [simp del]

definition sector_shift :: "u32 \<Rightarrow> nat" where
  "sector_shift bsize = log2_floor (unat bsize) - 9"

subsection \<open>Discarding and writing the same\<close>

definition sd_config_discard :: "'w sd_env \<Rightarrow> sd_lbp \<Rightarrow> 'w sd_disk \<Rightarrow> 'w sd_disk" where
  "sd_config_discard E mode k =
     (let logical_block_size = sector_size (device k);
          k = k\<lparr>discard_zeroes_data := lbprz k,
                discard_alignment := unmap_alignment k * logical_block_size,
                discard_granularity := max (physical_block_size k) (unmap_granularity k * logical_block_size),
                provisioning_mode := mode\<rparr>
      in if mode = SD_LBP_DISABLE then
           qcall (Flag_clear QUEUE_FLAG_DISCARD) (k\<lparr>max_discard_sectors := 0\<rparr>)
         else
           let max_blocks =
                 (case mode of
                    SD_LBP_UNMAP \<Rightarrow> min_not_zero (max_unmap_blocks k) (SD_MAX_WS16_BLOCKS E)
                  | SD_LBP_WS16 \<Rightarrow> min_not_zero (max_ws_blocks k) (SD_MAX_WS16_BLOCKS E)
                  | SD_LBP_WS10 \<Rightarrow> min_not_zero (max_ws_blocks k) (SD_MAX_WS10_BLOCKS E)
                  | SD_LBP_ZERO \<Rightarrow> min_not_zero (max_ws_blocks k) (SD_MAX_WS10_BLOCKS E)
                  | _ \<Rightarrow> 0);
               k = (if mode = SD_LBP_ZERO then k\<lparr>discard_zeroes_data := True\<rparr> else k)
           in qcall (Flag_set QUEUE_FLAG_DISCARD)
                (k\<lparr>max_discard_sectors := max_blocks * drop_bit 9 logical_block_size\<rparr>))"

definition sd_config_write_same :: "'w sd_env \<Rightarrow> 'w sd_disk \<Rightarrow> 'w sd_disk" where
  "sd_config_write_same E k =
     (let logical_block_size = sector_size (device k);
          (blocks, k) =
            (if no_write_same (device k) then (0, k\<lparr>max_ws_blocks := 0\<rparr>)
             else
               let k = (if max_ws_blocks k = 0 then k\<lparr>max_ws_blocks := SD_MAX_WS10_BLOCKS E\<rparr> else k)
               in if ws16 k \<or> max_ws_blocks k > SD_MAX_WS10_BLOCKS E
                  then (min_not_zero (max_ws_blocks k) (SD_MAX_WS16_BLOCKS E), k)
                  else (min_not_zero (max_ws_blocks k) (SD_MAX_WS10_BLOCKS E), k))
      in qcall (Max_write_same_sectors (blocks * drop_bit 9 logical_block_size)) k)"

text \<open>
  The command block and the payload of a discard; the payload is the page that goes with the
  command, of which \<open>len\<close> bytes are sent. The command block of the request has 16 bytes.
\<close>

definition sd_setup_discard_cmnd ::
    "'w sd_env \<Rightarrow> 'w sd_disk \<Rightarrow> request \<Rightarrow> (blkprep \<times> byte list \<times> u32 \<times> byte list \<times> request) option" where
  "sd_setup_discard_cmnd E k rq =
     (if sector_size (device k) < 512 then None else Some (
      let d = device k;
          sector = drop_bit (sector_shift (sector_size d)) (rq_sector rq);
          nr_sectors = drop_bit (sector_shift (sector_size d)) (blk_rq_sectors rq);
          nr_bytes = data_len rq;
          zero = replicate 16 0;
          page = replicate 4096 0
      in if \<not> alloc_page E (device_world d) then (BLKPREP_DEFER, zero, 0, [], rq)
         else
           (case provisioning_mode k of
              SD_LBP_UNMAP \<Rightarrow>
                let page = overwrite 0 (be_bytes 2 (6 + 16 :: u16)) page;
                    page = overwrite 2 (be_bytes 2 (16 :: u16)) page;
                    page = overwrite 8 (be_bytes 8 sector) page;
                    page = overwrite 16 (be_bytes 4 nr_sectors) page;
                    cmd = zero[0 := 0x42, 8 := 24];
                    (ret, _) = scsi_setup_blk_pc_cmnd E rq cmd
                in (ret, cmd, 24, if ret = BLKPREP_OK then take 24 page else [], rq\<lparr>data_len := nr_bytes\<rparr>)
            | SD_LBP_WS16 \<Rightarrow>
                let cmd = overwrite 10 (be_bytes 4 nr_sectors) (overwrite 2 (be_bytes 8 sector) (zero[0 := 0x93, 1 := 8]));
                    len = sector_size d;
                    (ret, _) = scsi_setup_blk_pc_cmnd E rq cmd
                in (ret, cmd, len, if ret = BLKPREP_OK then take (unat len) page else [], rq\<lparr>data_len := nr_bytes\<rparr>)
            | mode \<Rightarrow>
                if mode = SD_LBP_WS10 \<or> mode = SD_LBP_ZERO then
                  let cmd = zero[0 := 0x41];
                      cmd = (if mode = SD_LBP_WS10 then cmd[1 := 8] else cmd);
                      cmd = overwrite 7 (be_bytes 2 nr_sectors) (overwrite 2 (be_bytes 4 sector) cmd);
                      len = sector_size d;
                      (ret, _) = scsi_setup_blk_pc_cmnd E rq cmd
                  in (ret, cmd, len, if ret = BLKPREP_OK then take (unat len) page else [], rq\<lparr>data_len := nr_bytes\<rparr>)
                else (BLKPREP_KILL, zero, 0, [], rq))))"

text \<open>A request to write the same has one bio of one sector at the start of its page.\<close>

definition sd_setup_write_same_cmnd ::
    "'w sd_env \<Rightarrow> 'w sd_disk \<Rightarrow> request \<Rightarrow> (blkprep \<times> byte list \<times> request) option" where
  "sd_setup_write_same_cmnd E k rq =
     (let d = device k;
          sector = rq_sector rq;
          nr_sectors = blk_rq_sectors rq;
          nr_bytes = data_len rq
      in if no_write_same d then Some (BLKPREP_KILL, replicate 16 0, rq)
         else
           case rq_bios rq of [] \<Rightarrow> None
           | bio # _ \<Rightarrow>
               if bi_idx bio \<ge> length (bi_io_vec bio) then None
               else
                 let v = bi_io_vec bio ! bi_idx bio
                 in if bv_offset v \<noteq> 0 \<or> bv_len v \<noteq> sector_size d \<or> sector_size d < 512 then None
                 else
                   let sector = drop_bit (sector_shift (sector_size d)) sector;
                       nr_sectors = drop_bit (sector_shift (sector_size d)) nr_sectors;
                       rq = rq\<lparr>data_len := sector_size d\<rparr>;
                       cmd =
                         (if ws16 k \<or> sector > 0xffffffff \<or> nr_sectors > 0xffff
                          then overwrite 10 (be_bytes 4 nr_sectors)
                                 (overwrite 2 (be_bytes 8 sector) ((replicate 16 0)[0 := 0x93]))
                          else overwrite 7 (be_bytes 2 nr_sectors)
                                 (overwrite 2 (be_bytes 4 sector) ((replicate 16 0)[0 := 0x41])));
                       (ret, _) = scsi_setup_blk_pc_cmnd E rq cmd
                   in Some (ret, cmd, rq\<lparr>data_len := nr_bytes\<rparr>))"

definition scsi_setup_flush_cmnd :: "'w sd_env \<Rightarrow> byte list \<Rightarrow> request \<Rightarrow> blkprep \<times> byte list" where
  "scsi_setup_flush_cmnd E cmd rq =
     (let cmd = cmd[0 := 0x35]; (ret, _) = scsi_setup_blk_pc_cmnd E rq cmd in (ret, cmd))"

subsection \<open>Reading and writing\<close>

definition sd_prot_op :: "scsi_cmnd \<Rightarrow> u32 \<Rightarrow> scsi_cmnd" where
  "sd_prot_op scmd dif =
     (let dix = prot_sg_count scmd;
          op =
            (if sc_data_direction scmd = DMA_FROM_DEVICE then
               if dif \<noteq> 0 \<and> dix \<noteq> 0 then PROT_READ_PASS
               else if dif \<noteq> 0 \<and> dix = 0 then PROT_READ_STRIP
               else if dif = 0 \<and> dix \<noteq> 0 then PROT_READ_INSERT
               else PROT_NORMAL
             else
               if dif \<noteq> 0 \<and> dix \<noteq> 0 then PROT_WRITE_PASS
               else if dif \<noteq> 0 \<and> dix = 0 then PROT_WRITE_INSERT
               else if dif = 0 \<and> dix \<noteq> 0 then PROT_WRITE_STRIP
               else PROT_NORMAL)
      in scmd\<lparr>prot_op := op, prot_type := dif\<rparr>)"

text \<open>
  The part of a request that a drive with the last-sector bug may get at once, and the scaling
  from sectors of 512 bytes to those of the drive; None where the source refuses.
\<close>

definition sd_last_sectors :: "'w sd_env \<Rightarrow> 'w scsi_device \<Rightarrow> sector_t \<Rightarrow> sector_t \<Rightarrow> u32 \<Rightarrow> u32" where
  "sd_last_sectors E d cap block this_count =
     (let threshold = cap - ucast (SD_LAST_BUGGY_SECTORS E * (sector_size d div 512))
      in if last_sector_bug d \<and> block + ucast this_count > threshold then
           if block < threshold then ucast (threshold - block) else sector_size d div 512
         else this_count)"

definition sd_scale :: "u32 \<Rightarrow> sector_t \<Rightarrow> u32 \<Rightarrow> u32 \<Rightarrow> (sector_t \<times> u32) option" where
  "sd_scale bsize block this_count rq_sectors =
     (if bsize = 1024 then
        if block AND 1 \<noteq> 0 \<or> rq_sectors AND 1 \<noteq> 0 then None
        else Some (drop_bit 1 block, drop_bit 1 this_count)
      else if bsize = 2048 then
        if block AND 3 \<noteq> 0 \<or> rq_sectors AND 3 \<noteq> 0 then None
        else Some (drop_bit 2 block, drop_bit 2 this_count)
      else if bsize = 4096 then
        if block AND 7 \<noteq> 0 \<or> rq_sectors AND 7 \<noteq> 0 then None
        else Some (drop_bit 3 block, drop_bit 3 this_count)
      else Some (block, this_count))"

definition sd_cdb_32 :: "bool \<Rightarrow> byte \<Rightarrow> byte \<Rightarrow> sector_t \<Rightarrow> u32 \<Rightarrow> byte list" where
  "sd_cdb_32 wr protect fua block this_count =
     overwrite 28 (be_bytes 4 this_count) (overwrite 20 (be_bytes 4 block) (overwrite 12 (be_bytes 8 block)
       ((replicate 32 0)[0 := 0x7f, 7 := 0x18, 9 := (if wr then 0x0b else 0x09), 10 := protect OR fua])))"

definition sd_cdb_16 :: "byte list \<Rightarrow> byte \<Rightarrow> byte \<Rightarrow> sector_t \<Rightarrow> u32 \<Rightarrow> byte list" where
  "sd_cdb_16 cdb protect fua block this_count =
     (overwrite 10 (be_bytes 4 this_count) (overwrite 2 (be_bytes 8 block)
       (cdb[0 := cdb ! 0 + (0x88 - 0x08), 1 := protect OR fua])))[14 := 0, 15 := 0]"

definition sd_cdb_10 :: "byte list \<Rightarrow> byte \<Rightarrow> byte \<Rightarrow> sector_t \<Rightarrow> u32 \<Rightarrow> byte list" where
  "sd_cdb_10 cdb protect fua block this_count =
     overwrite 7 (be_bytes 2 this_count) ((overwrite 2 (be_bytes 4 block)
       (cdb[0 := cdb ! 0 + (0x28 - 0x08), 1 := protect OR fua]))[6 := 0, 9 := 0])"

definition sd_cdb_6 :: "byte list \<Rightarrow> sector_t \<Rightarrow> u32 \<Rightarrow> byte list" where
  "sd_cdb_6 cdb block this_count =
     cdb[1 := cdb ! 1 OR ucast (drop_bit 16 block AND 0x1f), 2 := ucast (drop_bit 8 block AND 0xff),
         3 := ucast (block AND 0xff), 4 := ucast this_count, 5 := 0]"

text \<open>The fields that every accepted command gets, and the choice of the form of the command.\<close>

definition sd_rw_finish :: "'w sd_env \<Rightarrow> 'w sd_disk \<Rightarrow> u32 \<Rightarrow> u32 \<Rightarrow> scsi_cmnd \<Rightarrow> blkprep \<times> scsi_cmnd" where
  "sd_rw_finish E k host_dif this_count scmd =
     (let scmd = scmd\<lparr>sdb_length := this_count * sector_size (device k)\<rparr>;
          scmd = (if host_dif \<noteq> 0 \<or> prot_sg_count scmd \<noteq> 0 then sd_prot_op scmd host_dif else scmd)
      in (BLKPREP_OK, scmd\<lparr>transfersize := sector_size (device k), underflow := push_bit 9 this_count,
                           allowed := SD_MAX_RETRIES E\<rparr>))"

definition sd_rw_cdb ::
    "'w sd_env \<Rightarrow> 'w sd_disk \<Rightarrow> request \<Rightarrow> sector_t \<Rightarrow> u32 \<Rightarrow> scsi_cmnd \<Rightarrow> blkprep \<times> scsi_cmnd" where
  "sd_rw_cdb E k rq block this_count scmd =
     (let d = device k;
          host_dif = scsi_host_dif_capable E (protection_type k);
          protect = (if host_dif \<noteq> 0 then push_bit 5 1 else 0);
          fua = (if REQ_FUA \<in> rq_flags rq then 8 else 0)
      in if host_dif = 2 then
           if \<not> cdb_pool E (device_world d) then (BLKPREP_DEFER, scmd)
           else sd_rw_finish E k host_dif this_count
                  (scmd\<lparr>cmnd := sd_cdb_32 (REQ_WRITE \<in> rq_flags rq) protect fua block this_count,
                        cmd_len := 32, from_pool := True\<rparr>)
         else if use_16_for_rw d then
           sd_rw_finish E k host_dif this_count
             (scmd\<lparr>cmnd := sd_cdb_16 (cmnd scmd) protect fua block this_count\<rparr>)
         else if this_count > 0xff \<or> block > 0x1fffff \<or> scsi_device_protection d \<or> use_10_for_rw d then
           let this_count = (if this_count > 0xffff then 0xffff else this_count)
           in sd_rw_finish E k host_dif this_count
                (scmd\<lparr>cmnd := sd_cdb_10 (cmnd scmd) protect fua block this_count\<rparr>)
         else if REQ_FUA \<in> rq_flags rq then (BLKPREP_KILL, scmd)
         else sd_rw_finish E k host_dif this_count (scmd\<lparr>cmnd := sd_cdb_6 (cmnd scmd) block this_count\<rparr>))"

text \<open>
  The command for a file system request: the checks, and then the command with its block,
  direction and lengths. Protection data is not modelled.
\<close>

definition sd_prep_rw ::
    "'w kernel \<Rightarrow> 'w sd_env \<Rightarrow> 'w sd_disk \<Rightarrow> request \<Rightarrow> scsi_cmnd \<Rightarrow> blkprep \<times> scsi_cmnd" where
  "sd_prep_rw K E k rq scmd =
     (let d = device k;
          block = rq_sector rq;
          wr = REQ_WRITE \<in> rq_flags rq
      in if \<not> scsi_device_online K (device_world d) \<or> block + ucast (blk_rq_sectors rq) > disk_capacity k
         then (BLKPREP_KILL, scmd)
         else if changed (sd (swap d)) then (BLKPREP_KILL, scmd)
         else
           case sd_scale (sector_size d) block
                  (sd_last_sectors E d (disk_capacity k) block (blk_rq_sectors rq)) (blk_rq_sectors rq) of
             None \<Rightarrow> (BLKPREP_KILL, scmd)
           | Some (block, this_count) \<Rightarrow>
               if wr \<and> \<not> writeable d then (BLKPREP_KILL, scmd)
               else sd_rw_cdb E k rq block this_count
                 (scmd\<lparr>cmnd := (cmnd scmd)[0 := (if wr then 0x0a else 0x08)],
                       sc_data_direction := (if wr then DMA_TO_DEVICE else DMA_FROM_DEVICE)\<rparr>))"

text \<open>
  The whole function: the outcome, the command block that goes to the device, and the command of
  a file system request. \<open>cmd\<close> is the command block of the request as it comes in.
\<close>

definition sd_prep_fn ::
    "'w kernel \<Rightarrow> 'w sd_env \<Rightarrow> 'w sd_disk \<Rightarrow> byte list \<Rightarrow> request
      \<Rightarrow> (blkprep \<times> byte list \<times> scsi_cmnd option \<times> request) option" where
  "sd_prep_fn K E k cmd rq =
     (if REQ_DISCARD \<in> rq_flags rq then do {
        (ret, cmd, _, _, rq) \<leftarrow> sd_setup_discard_cmnd E k rq;
        Some (scsi_prep_return E ret, cmd, None, rq)
      } else if REQ_WRITE_SAME \<in> rq_flags rq then do {
        (ret, cmd, rq) \<leftarrow> sd_setup_write_same_cmnd E k rq;
        Some (scsi_prep_return E ret, cmd, None, rq)
      } else if REQ_FLUSH \<in> rq_flags rq then
        let (ret, cmd) = scsi_setup_flush_cmnd E cmd rq
        in Some (scsi_prep_return E ret, cmd, None, rq)
      else if rq_type rq = REQ_TYPE_BLOCK_PC then
        Some (scsi_prep_return E (fst (scsi_setup_blk_pc_cmnd E rq cmd)), cmd, None, rq)
      else if rq_type rq \<noteq> REQ_TYPE_FS then Some (scsi_prep_return E BLKPREP_KILL, cmd, None, rq)
      else
        let (ret, scmd) = scsi_setup_fs_cmnd E rq
        in if ret \<noteq> BLKPREP_OK then Some (scsi_prep_return E ret, cmd, None, rq)
           else
             let (ret, scmd) = sd_prep_rw K E k rq scmd
             in Some (scsi_prep_return E ret, cmnd scmd, Some scmd, rq))"

subsection \<open>Completion\<close>

definition sd_completed_bytes :: "'w sd_env \<Rightarrow> u32 \<Rightarrow> request \<Rightarrow> scsi_cmnd \<Rightarrow> u32" where
  "sd_completed_bytes E bsize rq scmd =
     (let start_lba = rq_sector rq;
          end_lba = rq_sector rq + ucast (sdb_length scmd div 512);
          transferred = sdb_length scmd - resid scmd
      in if rq_type rq \<noteq> REQ_TYPE_FS then 0
         else
           case sense_info_fld E (sense_buffer scmd) of None \<Rightarrow> 0
           | Some bad_lba \<Rightarrow>
               if sdb_length scmd \<le> bsize then 0
               else
                 let (start_lba, end_lba) =
                       (if bsize < 512 then (push_bit 1 start_lba, push_bit 1 end_lba)
                        else (start_lba div ucast (bsize div 512), end_lba div ucast (bsize div 512)))
                 in if bad_lba < start_lba \<or> bad_lba \<ge> end_lba then 0
                    else min (ucast ((bad_lba - start_lba) * ucast bsize)) transferred)"

text \<open>
  The result has the number of good bytes, the command, the request and the disk. The report to
  the data integrity code is omitted. When the command block came from the pool it is given back.
\<close>

definition sd_done ::
    "'w kernel \<Rightarrow> 'w sd_env \<Rightarrow> request \<Rightarrow> scsi_cmnd \<Rightarrow> 'w sd_disk
      \<Rightarrow> u32 \<times> scsi_cmnd \<times> request \<times> 'w sd_disk" where
  "sd_done K E rq scmd k =
     (let res = cresult scmd;
          good_bytes = (if res \<noteq> 0 then 0 else sdb_length scmd);
          op = cmnd scmd ! 0;
          unmap = (cmnd scmd ! 1) AND 8;
          (good_bytes, scmd) =
            (if REQ_DISCARD \<in> rq_flags rq \<or> REQ_WRITE_SAME \<in> rq_flags rq then
               if res = 0 then (data_len rq, scmd\<lparr>resid := 0\<rparr>) else (0, scmd\<lparr>resid := data_len rq\<rparr>)
             else (good_bytes, scmd));
          sshdr = scsi_normalize_sense K (sense_buffer scmd);
          sense_valid = res \<noteq> 0 \<and> scsi_sense_valid (Some sshdr);
          sense_deferred = sense_valid \<and> scsi_sense_is_deferred E sshdr;
          (good_bytes, scmd, rq, k) =
            (if driver_byte res \<noteq> DRIVER_SENSE \<and> (\<not> sense_valid \<or> sense_deferred) then (good_bytes, scmd, rq, k)
             else
               let k = k\<lparr>medium_access_timed_out := 0\<rparr>;
                   key = sense_key sshdr;
                   completed = sd_completed_bytes E (sector_size (device k)) rq scmd
               in if key = HARDWARE_ERROR \<or> key = MEDIUM_ERROR then (completed, scmd, rq, k)
                  else if key = RECOVERED_ERROR then (sdb_length scmd, scmd, rq, k)
                  else if key = NO_SENSE then
                    (good_bytes, scmd\<lparr>cresult := 0, sense_buffer := map (\<lambda>_. 0) (sense_buffer scmd)\<rparr>, rq, k)
                  else if key = ABORTED_COMMAND then
                    (if asc sshdr = 0x10 then completed else good_bytes, scmd, rq, k)
                  else if key = ILLEGAL_REQUEST then
                    let good_bytes = (if asc sshdr = 0x10 then completed else good_bytes)
                    in if asc sshdr = 0x20 \<or> asc sshdr = 0x24 then
                         if op = 0x42 then (good_bytes, scmd, rq, sd_config_discard E SD_LBP_DISABLE k)
                         else if op = 0x93 \<or> op = 0x41 then
                           if unmap \<noteq> 0 then (good_bytes, scmd, rq, sd_config_discard E SD_LBP_DISABLE k)
                           else
                             (0, scmd, rq\<lparr>rq_flags := rq_flags rq \<union> {REQ_QUIET}\<rparr>,
                              sd_config_write_same E (k\<lparr>device := (device k)\<lparr>no_write_same := True\<rparr>\<rparr>))
                         else (good_bytes, scmd, rq, k)
                       else (good_bytes, scmd, rq, k)
                  else (good_bytes, scmd, rq, k));
          scmd = (if scsi_host_dif_capable E (protection_type k) = 2 \<and> from_pool scmd
                  then scmd\<lparr>cmnd := [], cmd_len := 0, from_pool := False\<rparr> else scmd)
      in (good_bytes, scmd, rq, k))"

text \<open>
  After a command of the error handler: whether the device is given up. \<open>SUCCESS\<close> and \<open>FAILED\<close>
  are dispositions of the mid layer; \<open>medium_access\<close> tells whether the command reads or writes the
  medium. The result byte for a timeout is 3.
\<close>

datatype disposition = SUCCESS | FAILED | Other_disposition

definition sd_eh_action ::
    "'w kernel \<Rightarrow> 'w sd_env \<Rightarrow> bool \<Rightarrow> scsi_cmnd \<Rightarrow> byte list \<Rightarrow> disposition \<Rightarrow> 'w sd_disk
      \<Rightarrow> disposition \<times> 'w sd_disk" where
  "sd_eh_action K E medium_access scmd eh_cmnd eh_disp k =
     (if \<not> scsi_device_online K (device_world (device k)) \<or> \<not> medium_access then (eh_disp, k)
      else
        let k = (if host_byte (cresult scmd) = 3 \<and> eh_disp = SUCCESS \<and> eh_cmnd \<noteq> [] \<and> eh_cmnd ! 0 = 0
                 then k\<lparr>medium_access_timed_out := medium_access_timed_out k + 1\<rparr> else k)
        in if medium_access_timed_out k \<ge> max_medium_access_timeouts k
           then (FAILED, k\<lparr>device := set_device_world
                   (scsi_device_set_state E SDEV_OFFLINE (device_world (device k))) (device k)\<rparr>)
           else (eh_disp, k))"

end
