(* ===== verification/Core_Inv.thy ===== *)
theory Core_Inv
  imports Core_IO
begin

text \<open>
  The invariant of the module's state, the contents of the disk as the users of the module see
  them, and the relation ``only the reserved area and the bookkeeping changed'' that the internal
  operations satisfy.
\<close>

subsection \<open>Well-formed states\<close>

definition head_ok :: "swap_head \<Rightarrow> bool" where
  "head_ok h \<longleftrightarrow> length (head_string h) = 16 \<and> length (status h) = 16 \<and> length (version h) = 4 \<and>
     length (bitmap h) = 32 \<and> length (reserved h) = 344"

definition log_ok :: "scsi_swap_log \<Rightarrow> bool" where
  "log_ok l \<longleftrightarrow> (case ring l of None \<Rightarrow> False
     | Some r \<Rightarrow> cspring_ok r \<and> item_cap r = 512 \<and> item_size r = 32)"

text \<open>
  The reserved area lies below the limit of a 32-bit sector address, its parts are where
  \<^verbatim>\<open>core.h\<close> puts them, and the head block is one of the blocks before the table.
\<close>

definition geom_ok :: "scsi_swap_core \<Rightarrow> scsi_swap_log \<Rightarrow> bool" where
  "geom_ok c l \<longleftrightarrow>
     unat (sector_reserve_start c) + MAX_RESERVED_SECTOR \<le> 2 ^ 32 \<and>
     unat (sector_table c) = unat (sector_reserve_start c) + SWAP_TABLE_OFFSET \<and>
     unat (sector_data c) = unat (sector_reserve_start c) + SWAP_DATA_OFFSET \<and>
     unat (sector_reserve_start c) + SWAP_HEAD_OFFEST \<le> unat (sector_head c) \<and>
     unat (sector_head c) + 128 \<le> unat (sector_table c) \<and>
     unat (log_sector_head l) = unat (sector_reserve_start c) + SWAP_LOG_HEAD_OFFSET \<and>
     unat (log_sector_data l) = unat (sector_reserve_start c) + SWAP_LOG_DATA_OFFSET"

definition info_ok :: "scsi_swap_core \<Rightarrow> swap_info \<Rightarrow> bool" where
  "info_ok c i \<longleftrightarrow>
     (case sdata i of None \<Rightarrow> False | Some d \<Rightarrow> length d = 65536) \<and>
     unat (src_sec (table i)) mod 128 = 0 \<and>
     unat (src_sec (table i)) < unat (sector_reserve_start c) \<and>
     sec_size (table i) = 128 \<and> unat (tindex (table i)) < 1024 \<and>
     swap_sec (table i) = sector_data c + ucast (128 * tindex (table i)) \<and>
     length (reserverd (table i)) = 6 \<and>
     tchecksum (table i) = table_crc (table i)"

definition src_of :: "scsi_swap_core \<Rightarrow> nat \<Rightarrow> nat" where
  "src_of c p = unat (src_sec (table (the (infos c p))))"

text \<open>The table on disk has room for 256 entries.\<close>

definition infos_ok :: "scsi_swap_core \<Rightarrow> bool" where
  "infos_ok c \<longleftrightarrow>
     distinct (info_list c) \<and>
     (\<forall>p \<in> set (info_list c). case infos c p of None \<Rightarrow> False | Some i \<Rightarrow> info_ok c i) \<and>
     distinct (map (src_of c) (info_list c)) \<and>
     (\<forall>p \<ge> next_info c. infos c p = None) \<and>
     info_num c = int (length (info_list c)) \<and> length (info_list c) \<le> 256"

definition sys_ok :: "'w sdev \<Rightarrow> bool" where
  "sys_ok s \<longleftrightarrow> geom_ok (core s) (slog s) \<and> head_ok (head (core s)) \<and> log_ok (slog s)"

definition core_ok :: "'w sdev \<Rightarrow> bool" where
  "core_ok s \<longleftrightarrow> sys_ok s \<and> infos_ok (core s)"

lemma sys_okD:
  assumes "sys_ok s"
  shows "geom_ok (core s) (slog s)" "head_ok (head (core s))" "log_ok (slog s)"
  using assms by (auto simp: sys_ok_def)

lemma core_okD:
  assumes "core_ok s"
  shows "sys_ok s" "infos_ok (core s)"
  using assms by (auto simp: core_ok_def)

lemma infos_okD:
  assumes "infos_ok c" "p \<in> set (info_list c)"
  shows "\<exists>i d. infos c p = Some i \<and> sdata i = Some d \<and> info_ok c i \<and> length d = 65536 \<and> p < next_info c"
proof -
  obtain i where i: "infos c p = Some i" "info_ok c i"
    using assms by (auto simp: infos_ok_def split: option.splits)
  moreover have "p < next_info c"
    using assms i(1) by (auto simp: infos_ok_def intro: ccontr)
  ultimately show ?thesis
    by (auto simp: info_ok_def split: option.splits)
qed

subsection \<open>The disk as its users see it\<close>

definition find_src :: "scsi_swap_core \<Rightarrow> nat \<Rightarrow> nat option" where
  "find_src c b = List.find (\<lambda>p. src_of c p = b) (info_list c)"

definition logical :: "('w \<Rightarrow> nat \<Rightarrow> byte list) \<Rightarrow> 'w sdev \<Rightarrow> nat \<Rightarrow> byte list" where
  "logical dsk s m =
     (case find_src (core s) (128 * (m div 128)) of
        None \<Rightarrow> dsk (world s) m
      | Some p \<Rightarrow> slice (512 * (m mod 128)) 512 (the (sdata (the (infos (core s) p)))))"

lemma find_info_loop_eq:
  assumes "\<forall>p \<in> set ps. infos c p \<noteq> None"
  shows "find_info_loop c ps sector = Some (List.find (\<lambda>p. src_of c p = unat sector) ps)"
  using assms by (induction ps) (auto simp: src_of_def word_unat_eq_iff)

lemma swap_find_eq:
  assumes "infos_ok c"
  shows "swap_find_swap_info c sector = Some (find_src c (unat sector))"
proof -
  have "\<forall>p \<in> set (info_list c). infos c p \<noteq> None"
    using infos_okD [OF assms] by fastforce
  then show ?thesis
    by (simp add: swap_find_swap_info_def find_src_def find_info_loop_eq)
qed

lemma find_src_Some:
  assumes "find_src c b = Some p"
  shows "p \<in> set (info_list c)" "src_of c p = b"
  using assms by (auto simp: find_src_def find_Some_iff)

lemma find_src_None: "find_src c b = None \<longleftrightarrow> b \<notin> src_of c ` set (info_list c)"
  by (auto simp: find_src_def find_None_iff)

lemma find_src_unique:
  assumes "infos_ok c" "p \<in> set (info_list c)"
  shows "find_src c (src_of c p) = Some p"
proof (cases "find_src c (src_of c p)")
  case None
  then show ?thesis using assms(2) by (auto simp: find_src_None)
next
  case (Some q)
  have "distinct (map (src_of c) (info_list c))"
    using assms(1) by (simp add: infos_ok_def)
  then have "inj_on (src_of c) (set (info_list c))"
    by (simp add: distinct_map)
  then show ?thesis
    using find_src_Some [OF Some] assms(2) Some by (auto dest: inj_onD)
qed

lemma find_src_cong:
  assumes "info_list c' = info_list c" "\<And>p. p \<in> set (info_list c) \<Longrightarrow> src_of c' p = src_of c p"
  shows "find_src c' b = find_src c b"
  using assms by (auto simp: find_src_def intro!: find_cong)

subsection \<open>Steps that leave the users' view alone\<close>

text \<open>Two objects that agree in everything but the place the entry was last saved at.\<close>

definition same_info :: "swap_info \<Rightarrow> swap_info \<Rightarrow> bool" where
  "same_info i i' \<longleftrightarrow> sdata i' = sdata i \<and> (\<exists>x. table i' = (table i)\<lparr>save_sec := x\<rparr>)"

lemma same_info_refl [simp]: "same_info i i"
  by (auto simp: same_info_def intro: exI [of _ "save_sec (table i)"])

lemma same_info_trans: "same_info i j \<Longrightarrow> same_info j k \<Longrightarrow> same_info i k"
  by (auto simp: same_info_def)

lemma same_infoD:
  assumes "same_info i i'"
  shows "sdata i' = sdata i" "src_sec (table i') = src_sec (table i)"
    "swap_sec (table i') = swap_sec (table i)" "tindex (table i') = tindex (table i)"
    "sec_size (table i') = sec_size (table i)"
  using assms by (auto simp: same_info_def)

lemma table_crc_save [simp]: "table_crc (t\<lparr>save_sec := x\<rparr>) = table_crc t"
  by (simp add: table_crc_def table_body_def)

lemma same_info_ok: "same_info i i' \<Longrightarrow> info_ok c i' = info_ok c i"
  by (auto simp: same_info_def info_ok_def)

text \<open>
  The objects at the addresses of \<open>A\<close> and those that did not exist before may change in any way;
  the bitmap, the counter \<open>device_dead\<close>, the log and the reserved area may change.
\<close>

definition quiet :: "('w \<Rightarrow> nat \<Rightarrow> byte list) \<Rightarrow> nat set \<Rightarrow> 'w sdev \<Rightarrow> 'w sdev \<Rightarrow> bool" where
  "quiet dsk A s s' \<longleftrightarrow>
     (\<exists>d h f n. core s' = (core s)\<lparr>device_dead := d, head := h, infos := f, next_info := n\<rparr>) \<and>
     device_dead (core s) \<le> device_dead (core s') \<and>
     (head_ok (head (core s)) \<longrightarrow> head_ok (head (core s'))) \<and>
     next_info (core s) \<le> next_info (core s') \<and>
     (\<forall>q < next_info (core s). q \<notin> A \<longrightarrow> rel_option same_info (infos (core s) q) (infos (core s') q)) \<and>
     ((\<forall>q \<ge> next_info (core s). infos (core s) q = None) \<longrightarrow>
        (\<forall>q \<ge> next_info (core s'). infos (core s') q = None)) \<and>
     log_sector_head (slog s') = log_sector_head (slog s) \<and>
     log_sector_data (slog s') = log_sector_data (slog s) \<and>
     (log_ok (slog s) \<longrightarrow> log_ok (slog s')) \<and>
     (\<forall>m < unat (sector_reserve_start (core s)). dsk (world s') m = dsk (world s) m)"

lemma rel_same_info_refl [simp]: "rel_option same_info x x"
  by (cases x) simp_all

lemma rel_same_info_trans:
  "rel_option same_info x y \<Longrightarrow> rel_option same_info y z \<Longrightarrow> rel_option same_info x z"
  by (cases x; cases y; cases z) (auto intro: same_info_trans)

lemma quietD:
  assumes "quiet dsk A s s'"
  shows "info_list (core s') = info_list (core s)" "info_num (core s') = info_num (core s)"
    "user (core s') = user (core s)"
    "sector_reserve_start (core s') = sector_reserve_start (core s)"
    "sector_head (core s') = sector_head (core s)"
    "sector_table (core s') = sector_table (core s)"
    "sector_data (core s') = sector_data (core s)"
    "device_dead (core s) \<le> device_dead (core s')"
    "next_info (core s) \<le> next_info (core s')"
    "m < unat (sector_reserve_start (core s)) \<Longrightarrow> dsk (world s') m = dsk (world s) m"
  using assms by (auto simp: quiet_def)

lemma quiet_refl [simp]: "quiet dsk A s s"
  by (auto simp: quiet_def intro!: exI [of _ "device_dead (core s)"] exI [of _ "head (core s)"]
      exI [of _ "infos (core s)"] exI [of _ "next_info (core s)"])

lemma quiet_trans:
  assumes 1: "quiet dsk A s t" and 2: "quiet dsk A t u"
  shows "quiet dsk A s u"
proof -
  note q1 = 1 [unfolded quiet_def] and q2 = 2 [unfolded quiet_def]
  obtain d h f n where e1: "core t = (core s)\<lparr>device_dead := d, head := h, infos := f, next_info := n\<rparr>"
    using q1 by blast
  obtain d' h' f' n' where
    e2: "core u = (core t)\<lparr>device_dead := d', head := h', infos := f', next_info := n'\<rparr>"
    using q2 by blast
  have i: "rel_option same_info (infos (core s) q) (infos (core u) q)"
    if "q < next_info (core s)" "q \<notin> A" for q
  proof (rule rel_same_info_trans)
    show "rel_option same_info (infos (core s) q) (infos (core t) q)"
      using q1 that by blast
    have "q < next_info (core t)" using that quietD(9) [OF 1] by simp
    then show "rel_option same_info (infos (core t) q) (infos (core u) q)"
      using q2 that by blast
  qed
  have "core u = (core s)\<lparr>device_dead := d', head := h', infos := f', next_info := n'\<rparr>"
    using e1 e2 by simp
  moreover have "dsk (world u) m = dsk (world s) m" if "m < unat (sector_reserve_start (core s))" for m
    using that quietD(4,10) [OF 1] quietD(10) [OF 2] by simp
  moreover have "device_dead (core s) \<le> device_dead (core u)" "next_info (core s) \<le> next_info (core u)"
    using quietD(8,9) [OF 1] quietD(8,9) [OF 2] by simp_all
  moreover have "head_ok (head (core s)) \<longrightarrow> head_ok (head (core u))"
    "(\<forall>q \<ge> next_info (core s). infos (core s) q = None) \<longrightarrow>
      (\<forall>q \<ge> next_info (core u). infos (core u) q = None)"
    "log_ok (slog s) \<longrightarrow> log_ok (slog u)"
    "log_sector_head (slog u) = log_sector_head (slog s)"
    "log_sector_data (slog u) = log_sector_data (slog s)"
    using q1 q2 by (elim conjE, metis)+
  ultimately show ?thesis
    using i unfolding quiet_def by (intro conjI exI allI impI) (assumption | simp)+
qed

lemma quiet_mono: "quiet dsk A s s' \<Longrightarrow> A \<subseteq> B \<Longrightarrow> quiet dsk B s s'"
  unfolding quiet_def by blast


lemma quiet_info:
  assumes "quiet dsk A s s'" "infos (core s) p = Some i" "p < next_info (core s)" "p \<notin> A"
  shows "\<exists>i'. infos (core s') p = Some i' \<and> same_info i i'"
proof -
  have "rel_option same_info (infos (core s) p) (infos (core s') p)"
    using assms by (auto simp: quiet_def)
  then show ?thesis
    using assms(2) by (auto elim: option.rel_cases)
qed

lemma quiet_io_step:
  assumes "io_step s s'" "\<forall>m < unat (sector_reserve_start (core s)). dsk (world s') m = dsk (world s) m"
  shows "quiet dsk A s s'"
  using assms unfolding io_step_def quiet_def
  by (elim exE conjE)
    (auto intro!: exI [of _ "head (core s)"] exI [of _ "infos (core s)"] exI [of _ "next_info (core s)"])

lemma quiet_geom_ok: "quiet dsk A s s' \<Longrightarrow> geom_ok (core s') (slog s') = geom_ok (core s) (slog s)"
  by (auto simp: quiet_def geom_ok_def)

text \<open>
  After a quiet step the invariant holds again as soon as it holds for the objects of the list
  that the step was free to change.
\<close>

lemma quiet_infos_ok:
  assumes q: "quiet dsk A s s'" and ok: "infos_ok (core s)"
    and A: "\<And>p. p \<in> A \<Longrightarrow> p \<in> set (info_list (core s)) \<Longrightarrow>
      \<exists>i'. infos (core s') p = Some i' \<and> info_ok (core s') i' \<and> src_of (core s') p = src_of (core s) p"
  shows "infos_ok (core s')" "\<And>b. find_src (core s') b = find_src (core s) b"
proof -
  note l = quietD [OF q]
  have each: "\<exists>i'. infos (core s') p = Some i' \<and> info_ok (core s') i' \<and>
      src_of (core s') p = src_of (core s) p" if p: "p \<in> set (info_list (core s))" for p
  proof (cases "p \<in> A")
    case True
    then show ?thesis using A p by simp
  next
    case False
    obtain i where i: "infos (core s) p = Some i" "info_ok (core s) i" "p < next_info (core s)"
      using infos_okD [OF ok p] by blast
    obtain i' where i': "infos (core s') p = Some i'" "same_info i i'"
      using quiet_info [OF q i(1,3) False] by blast
    have "info_ok (core s') i'"
      using i(2) same_info_ok [OF i'(2), of "core s"] l by (simp add: info_ok_def)
    then show ?thesis
      using i i' by (simp add: src_of_def same_infoD(2))
  qed
  have "map (src_of (core s')) (info_list (core s)) = map (src_of (core s)) (info_list (core s))"
    using each by auto
  moreover have "\<forall>p \<ge> next_info (core s'). infos (core s') p = None"
    using q ok by (auto simp: quiet_def infos_ok_def)
  moreover have "case infos (core s') p of None \<Rightarrow> False | Some i \<Rightarrow> info_ok (core s') i"
    if "p \<in> set (info_list (core s))" for p
    using each [OF that] by auto
  ultimately show "infos_ok (core s')"
    using ok unfolding infos_ok_def l(1,2) by (simp del: map_eq_conv)
  show "find_src (core s') b = find_src (core s) b" for b
    using each l by (intro find_src_cong) auto
qed

lemma quiet_sys_ok: "quiet dsk A s s' \<Longrightarrow> sys_ok s \<Longrightarrow> sys_ok s'"
  using quiet_geom_ok [of dsk A s s'] by (auto simp: sys_ok_def quiet_def)

lemma quiet_core_ok:
  assumes "quiet dsk A s s'" "core_ok s" "A \<inter> set (info_list (core s)) = {}"
  shows "core_ok s'"
  using assms quiet_infos_ok(1) [OF assms(1)] quiet_sys_ok [OF assms(1)]
  by (auto simp: core_ok_def)

lemma quiet_logical:
  assumes q: "quiet dsk A s s'" and ok: "core_ok s" and A: "A \<inter> set (info_list (core s)) = {}"
    and m: "m < unat (sector_reserve_start (core s))"
  shows "logical dsk s' m = logical dsk s m"
proof -
  have io: "infos_ok (core s)" using ok by (simp add: core_ok_def)
  have f: "find_src (core s') b = find_src (core s) b" for b
    using quiet_infos_ok(2) [OF q io] A by blast
  show ?thesis
  proof (cases "find_src (core s) (128 * (m div 128))")
    case None
    then show ?thesis using f quietD(10) [OF q m] by (simp add: logical_def)
  next
    case (Some p)
    obtain i where i: "infos (core s) p = Some i" "p < next_info (core s)"
      using infos_okD [OF io find_src_Some(1) [OF Some]] by blast
    have "p \<notin> A" using A find_src_Some(1) [OF Some] by blast
    then obtain i' where "infos (core s') p = Some i'" "same_info i i'"
      using quiet_info [OF q i] by blast
    then show ?thesis using f Some i by (simp add: logical_def same_infoD(1))
  qed
qed

end
