(* ===== verification/Core_Step.thy ===== *)
theory Core_Step
  imports Core_Inv
begin

text \<open>
  The operations of the core on a disk that keeps the contract \<open>scsi_disk\<close>: none of them faults in
  a well-formed state, and what they do to the view of the users.
\<close>

lemma item_at_total:
  assumes "cspring_ok r" "item_size r = 32" "0 \<le> i" "i < item_cap r"
  shows "\<exists>item. item_at r (i * 32) = Some item"
proof -
  have "nat (i * 32) + 32 \<le> length (buffer r)"
    using cspring_ok_slot_bound [OF assms(1,3,4)] assms(2) by simp
  then show ?thesis
    using assms(3) by (simp add: item_at_def memread_def)
qed

lemma log_item_init_total:
  assumes "cspring_ok r" "item_size r = 32"
  shows "\<exists>item. scsi_swap_log_item_init now r type result src dst count = Some item"
proof (cases "item_num r = 0")
  case True
  then show ?thesis by (simp add: scsi_swap_log_item_init_def scsi_swap_log_last_def Let_def)
next
  case False
  then have n: "0 < item_num r" "0 < item_cap r" using assms(1) by (auto simp: cspring_ok_def)
  define k where "k = nat (item_num r - 1)"
  then have k: "item_num r - 1 = int k" using n by simp
  have "scsi_swap_log_last r = Some (slot_of r k * 32)"
    using n k cspring_peek_slot [OF assms(1), of k] assms(2)
    by (simp add: scsi_swap_log_last_def scsi_swap_log_peek_def Let_def)
  moreover obtain item where "item_at r (slot_of r k * 32) = Some item"
    using item_at_total [OF assms, of "slot_of r k"] slot_of_less [OF n(2)] by blast
  ultimately show ?thesis
    by (simp add: scsi_swap_log_item_init_def Let_def)
qed

lemma length_item_bytes [simp]: "length (item_bytes i) = 32"
  by (simp add: item_bytes_def)

text \<open>The bookkeeping in memory is untouched.\<close>

definition keeps :: "'w sdev \<Rightarrow> 'w sdev \<Rightarrow> bool" where
  "keeps s s' \<longleftrightarrow> infos (core s') = infos (core s) \<and> head (core s') = head (core s) \<and>
     next_info (core s') = next_info (core s)"

lemma keeps_refl [simp]: "keeps s s"
  by (simp add: keeps_def)

lemma keeps_trans: "keeps s t \<Longrightarrow> keeps t u \<Longrightarrow> keeps s u"
  by (simp add: keeps_def)

lemma keepsD:
  "keeps s s' \<Longrightarrow> infos (core s') = infos (core s)" "keeps s s' \<Longrightarrow> head (core s') = head (core s)"
  "keeps s s' \<Longrightarrow> next_info (core s') = next_info (core s)"
  by (simp_all add: keeps_def)

lemma keeps_io: "io_step s s' \<Longrightarrow> keeps s s'"
  by (simp add: keeps_def io_stepD(7,9,10))

text \<open>What the operations need to know of the entries of the list.\<close>

definition entries_ok :: "'w sdev \<Rightarrow> bool" where
  "entries_ok s \<longleftrightarrow> length (info_list (core s)) \<le> 256 \<and>
     (\<forall>p \<in> set (info_list (core s)). p < next_info (core s) \<and>
        (case infos (core s) p of None \<Rightarrow> False | Some i \<Rightarrow> length (reserverd (table i)) = 6))"

lemma quiet_slog:
  assumes "log_sector_head l = log_sector_head (slog s)" "log_sector_data l = log_sector_data (slog s)"
    "log_ok (slog s) \<longrightarrow> log_ok l"
  shows "quiet dsk A s (s\<lparr>slog := l\<rparr>)"
  using assms quiet_refl [of dsk A s] unfolding quiet_def by simp

lemma quiet_set_head:
  assumes "head_ok (head (core s)) \<longrightarrow> head_ok h"
  shows "quiet dsk A s (set_head h s)"
  using assms quiet_refl [of dsk A s] unfolding quiet_def
  by (auto intro!: exI [of _ "device_dead (core s)"] exI [of _ "infos (core s)"]
      exI [of _ "next_info (core s)"])

lemma quiet_set_info: "p \<in> A \<Longrightarrow> p < next_info (core s) \<Longrightarrow> quiet dsk A s (set_info p i s)"
  unfolding quiet_def
  by (auto intro!: exI [of _ "device_dead (core s)"] exI [of _ "head (core s)"]
      exI [of _ "next_info (core s)"])

lemma head_ok_mark [simp]: "head_ok (h\<lparr>bitmap := swap_bitmap_set_bit (bitmap h) n v\<rparr>) = head_ok h"
  by (simp add: head_ok_def swap_bitmap_set_bit_def)

lemma quiet_changed [simp]: "quiet dsk A s (s\<lparr>changed := b\<rparr>)"
  using quiet_refl [of dsk A s] unfolding quiet_def by simp

lemma quiet_fresh: "quiet dsk A s s' \<Longrightarrow> \<forall>p \<in> A. next_info (core s) \<le> p \<Longrightarrow> quiet dsk B s s'"
  unfolding quiet_def by (meson leD)

lemma quiet_dealloc: "p \<in> A \<Longrightarrow> quiet dsk A s (u_swap_dealloc_info p s)"
  unfolding quiet_def u_swap_dealloc_info_def
  by (auto intro!: exI [of _ "device_dead (core s)"] exI [of _ "head (core s)"]
      exI [of _ "next_info (core s)"])

lemma quiet_new_info:
  assumes "p = next_info (core s)"
  shows "quiet dsk A s (upd_core (\<lambda>c. c\<lparr>next_info := p + 1\<rparr>) (set_info p i s))"
  using assms unfolding quiet_def
  by (auto intro!: exI [of _ "device_dead (core s)"] exI [of _ "head (core s)"]
      exI [of _ "(infos (core s))(p \<mapsto> i)"] exI [of _ "p + 1"])

lemma head_dealloc [simp]: "head (core (u_swap_dealloc_info p s)) = head (core s)"
  by (simp add: u_swap_dealloc_info_def)

lemma quiet_mark: "quiet dsk A s (mark_block n v s)"
  unfolding mark_block_def by (rule quiet_set_head) simp

lemma quiet_dead: "quiet dsk A s (atomic_inc_dead s)"
  by (rule quiet_io_step [OF io_step_dead]) (simp add: atomic_inc_dead_def)

lemma infos_mark [simp]:
  "infos (core (mark_block n v s)) = infos (core s)"
  "next_info (core (mark_block n v s)) = next_info (core s)"
  "world (mark_block n v s) = world s"
  by (simp_all add: mark_block_def)

subsection \<open>The bitmap\<close>

lemma find_first_zero_bit_cases:
  "find_first_zero_bit bm n \<le> n" "k < find_first_zero_bit bm n \<Longrightarrow> bitmap_get bm k"
  "find_first_zero_bit bm n < n \<Longrightarrow> \<not> bitmap_get bm (find_first_zero_bit bm n)"
proof -
  show le: "find_first_zero_bit bm n \<le> n"
    using length_takeWhile_le [of "bitmap_get bm" "[0..<n]"] by (simp add: find_first_zero_bit_def)
  show "bitmap_get bm k" if k: "k < find_first_zero_bit bm n"
  proof -
    have "takeWhile (bitmap_get bm) [0..<n] ! k = [0..<n] ! k"
      using k by (simp add: find_first_zero_bit_def takeWhile_nth)
    moreover have "takeWhile (bitmap_get bm) [0..<n] ! k \<in> set (takeWhile (bitmap_get bm) [0..<n])"
      using k by (simp add: find_first_zero_bit_def)
    ultimately show ?thesis
      using k le by (metis add_0 nth_upt order_less_le_trans set_takeWhileD)
  qed
  show "\<not> bitmap_get bm (find_first_zero_bit bm n)" if "find_first_zero_bit bm n < n"
    using that nth_length_takeWhile [of "bitmap_get bm" "[0..<n]"] by (simp add: find_first_zero_bit_def)
qed

lemma first_zero_cases:
  obtains "swap_head_bitmap_get_first_zero_bit h = - 1" "\<forall>n < 1024. bitmap_get (bitmap h) n"
  | n where "swap_head_bitmap_get_first_zero_bit h = int n" "n < 1024" "\<not> bitmap_get (bitmap h) n"
    "\<forall>k < n. bitmap_get (bitmap h) k"
  using find_first_zero_bit_cases [where bm = "bitmap h" and n = 1024]
  by (cases "find_first_zero_bit (bitmap h) 1024 = 1024")
    (auto simp: swap_head_bitmap_get_first_zero_bit_def Let_def)

lemma bitmap_get_set:
  assumes "length bm = 32" "n < 1024"
  shows "bitmap_get (swap_bitmap_set_bit bm n v) m = (if m = n then v else bitmap_get bm m)"
proof (cases "m div 32 = n div 32")
  case True
  then have "m = n \<longleftrightarrow> m mod 32 = n mod 32"
    by (metis div_mult_mod_eq)
  moreover have "n div 32 < length bm" using assms by simp
  ultimately show ?thesis
    using True by (auto simp: bitmap_get_def swap_bitmap_set_bit_def bit_set_bit_iff bit_unset_bit_iff)
next
  case False
  then show ?thesis by (auto simp: bitmap_get_def swap_bitmap_set_bit_def)
qed

abbreviation used :: "'w sdev \<Rightarrow> nat \<Rightarrow> bool" where
  "used s n \<equiv> bitmap_get (bitmap (head (core s))) n"

lemma used_mark:
  "head_ok (head (core s)) \<Longrightarrow> n < 1024 \<Longrightarrow> used (mark_block n v s) m = (if m = n then v else used s m)"
  by (simp add: mark_block_def bitmap_get_set head_ok_def)

subsection \<open>Sector arithmetic\<close>

lemma align_facts:
  "unat (SWAP_SECTOR_ALIGN x) = 128 * (unat x div 128)"
  "unat (x - SWAP_SECTOR_ALIGN x) = unat x mod 128"
proof -
  have d: "unat (x div 128) = unat x div 128" by (simp add: unat_div)
  have "128 * (unat x div 128) \<le> unat x" by simp
  then have "128 * (unat x div 128) < 2 ^ 64" using unat_less_u64 [of x] by linarith
  then show a: "unat (SWAP_SECTOR_ALIGN x) = 128 * (unat x div 128)"
    by (simp add: SWAP_SECTOR_ALIGN_def SWAP_BLOCK_INDEX_def unat_word_ariths d mult.commute)
  have "SWAP_SECTOR_ALIGN x \<le> x" by (simp add: word_le_nat_alt a)
  then show "unat (x - SWAP_SECTOR_ALIGN x) = unat x mod 128"
    by (simp add: unat_sub a minus_mult_div_eq_mod)
qed

lemma create_offset: "sint (ucast (sec - SWAP_SECTOR_ALIGN sec) :: u32) = int (unat sec mod 128)"
proof -
  have "unat (ucast (sec - SWAP_SECTOR_ALIGN sec) :: u32) = unat sec mod 128"
    by (simp add: unsigned_ucast_eq take_bit_eq_mod align_facts)
  then show ?thesis
    using sint_nat_small [of "ucast (sec - SWAP_SECTOR_ALIGN sec) :: u32"]
    by (simp add: less_trans [OF mod_less_divisor])
qed

lemma unat_data_block:
  assumes "geom_ok c l" "0 \<le> n" "n < 1024"
  shows "unat (sector_data c + of_int (128 * n)) = unat (sector_data c) + 128 * nat n"
proof -
  have "(of_int (128 * n) :: sector_t) = word_of_nat (128 * nat n)"
    using assms(2) by simp
  moreover have "nat n < 1024" using assms(2,3) by simp
  ultimately show ?thesis
    using unat_plus_nat [of "sector_data c" "128 * nat n"] assms by (simp add: geom_ok_def layout_simps)
qed

subsection \<open>Input, output and the log\<close>

context scsi_disk
begin

lemma hd_read_quiet:
  assumes "hd_read_sector K sec n (Some b) t r s = (x, ob, s')"
  shows "quiet dsk A s s'"
  using hd_read_law [OF assms] io_step_hd_read [OF assms] by (intro quiet_io_step) auto

lemma hd_write_quiet:
  assumes "hd_write_sector K sec n (Some b) t r s = (x, s')"
    "unat (sector_reserve_start (core s)) \<le> unat sec" "unat sec < 2 ^ 32" "unat n < 2 ^ 16"
    "length b < 2 ^ 32"
  shows "quiet dsk A s s'"
  using hd_write_law [OF assms(1,3,4,5)] io_step_hd_write [OF assms(1)] assms(2)
  by (intro quiet_io_step) auto

lemma alloc_quiet: "alloc K n s = (m, s') \<Longrightarrow> quiet dsk A s s'"
  using alloc_law [of n s m s'] io_step_alloc [of K n s m s'] by (intro quiet_io_step) auto

lemma log_update_data_quiet:
  assumes sys: "sys_ok s"
  shows "\<exists>ret s'. scsi_swap_log_update_data K item s = Some (ret, s') \<and> quiet dsk A s s' \<and> keeps s s'"
proof -
  note g = sys_okD(1) [OF sys] and l = sys_okD(3) [OF sys]
  obtain r where r: "ring (slog s) = Some r" "cspring_ok r" "item_cap r = 512" "item_size r = 32"
    using l by (auto simp: log_ok_def split: option.splits)
  have len: "int (length (item_bytes item)) = item_size r" using r by simp
  obtain off r' where push: "cspring_push r (item_bytes item) = Some (off, r')"
    using cspring_push_eq [OF r(2) len] by blast
  note f = cspring_push_fields [OF r(2) len push] and ok' = cspring_push_ok [OF r(2) len push]
  have nx: "0 \<le> item_next r" "item_next r < 512" using r by (auto simp: cspring_ok_def)
  have off: "off = item_next r * 32" using f(6) r(4) by simp
  have i: "off sdiv 512 = off div 512" "0 \<le> off div 512" "off div 512 < 32" "nat (off div 512) < 32"
    using nx off by (auto simp: sdiv_nonneg)
  have bl: "length (buffer r') = 16384"
    using ok' r by (simp add: cspring_ok_def cspring_size_def f)
  define data where "data = slice (nat (off div 512)) 512 (buffer r')"
  have data: "memread (buffer r') (nat (off div 512)) 512 = Some data" "length data = 512"
    using i bl by (auto simp: memread_def data_def)
  define s1 where "s1 = s\<lparr>slog := (slog s)\<lparr>ring := Some r'\<rparr>\<rparr>"
  have q1: "quiet dsk A s s1"
    unfolding s1_def using ok' r by (intro quiet_slog) (simp_all add: log_ok_def f)
  let ?sec = "log_sector_data (slog s) + of_int (off div 512)"
  have sec: "unat ?sec = unat (log_sector_data (slog s)) + nat (off div 512)"
  proof -
    have "of_int (off div 512) = (word_of_nat (nat (off div 512)) :: sector_t)"
      using i(2) by simp
    then show ?thesis
      using unat_plus_nat [of "log_sector_data (slog s)" "nat (off div 512)"] i(4) g
      by (simp add: geom_ok_def layout_simps)
  qed
  obtain ret s' where w: "hd_write_sector K ?sec 1 (Some data) 5 0 s1 = (ret, s')"
    by fastforce
  have "quiet dsk A s1 s'"
    using g i sec data(2) by (intro hd_write_quiet [OF w]) (simp_all add: s1_def geom_ok_def layout_simps)
  moreover have "keeps s s'"
    using keeps_io [OF io_step_hd_write [OF w]] by (simp add: s1_def keeps_def)
  moreover have "scsi_swap_log_update_data K item s = Some (ret, s')"
    using r push data w i by (simp add: scsi_swap_log_update_data_def s1_def hd_write_sector_no_retry_def)
  ultimately show ?thesis
    using quiet_trans [OF q1] by blast
qed

lemma log_update_head_quiet:
  assumes sys: "sys_ok s"
  shows "\<exists>ret s'. scsi_swap_log_update_head K s = Some (ret, s') \<and> quiet dsk A s s' \<and> keeps s s'"
proof -
  note g = sys_okD(1) [OF sys] and l = sys_okD(3) [OF sys]
  obtain r where r: "ring (slog s) = Some r" using l by (auto simp: log_ok_def split: option.splits)
  define h where "h = (lhead (slog s))\<lparr>lh_item_num := of_int (item_num r), lh_item_next := of_int (item_next r)\<rparr>"
  define h' where "h' = h\<lparr>lh_crc := scsi_swap_log_crc_head h\<rparr>"
  define s1 where "s1 = s\<lparr>slog := (slog s)\<lparr>lhead := h'\<rparr>\<rparr>"
  have q1: "quiet dsk A s s1"
    unfolding s1_def by (rule quiet_slog) (simp_all add: log_ok_def)
  obtain ret s' where
    w: "hd_write_sector K (log_sector_head (slog s)) 1 (Some (log_head_bytes h' @ replicate 504 0)) 5 0 s1
      = (ret, s')"
    by fastforce
  have "quiet dsk A s1 s'"
    using g by (intro hd_write_quiet [OF w])
      (simp_all add: s1_def geom_ok_def layout_simps log_head_bytes_def)
  moreover have "keeps s s'"
    using keeps_io [OF io_step_hd_write [OF w]] by (simp add: s1_def keeps_def)
  moreover have "scsi_swap_log_update_head K s = Some (ret, s')"
    using r w by (simp add: scsi_swap_log_update_head_def s1_def h_def h'_def hd_write_sector_no_retry_def)
  ultimately show ?thesis
    using quiet_trans [OF q1] by blast
qed

lemma log_push_quiet:
  assumes sys: "sys_ok s"
  shows "\<exists>ret s'. scsi_swap_log_push K type result src dst count s = Some (ret, s') \<and>
    quiet dsk A s s' \<and> keeps s s'"
proof -
  note g = sys_okD(1) [OF sys] and l = sys_okD(3) [OF sys]
  obtain r where r: "ring (slog s) = Some r" "cspring_ok r" "item_size r = 32"
    using l by (auto simp: log_ok_def split: option.splits)
  obtain item where
    item: "scsi_swap_log_item_init (tv_sec K (world s)) r type result src dst count = Some item"
    using log_item_init_total [OF r(2,3)] by blast
  obtain ret1 s1 where 1: "scsi_swap_log_update_data K item s = Some (ret1, s1)" "quiet dsk A s s1"
    "keeps s s1"
    using log_update_data_quiet [OF sys] by blast
  obtain ret2 s2 where 2: "scsi_swap_log_update_head K s1 = Some (ret2, s2)" "quiet dsk A s1 s2"
    "keeps s1 s2"
    using log_update_head_quiet [OF quiet_sys_ok [OF 1(2) sys]] by blast
  show ?thesis
    using r(1) item 1 2 quiet_trans [OF 1(2) 2(2)] keeps_trans [OF 1(3) 2(3)]
    by (auto simp: scsi_swap_log_push_def)
qed

lemma log_create_quiet:
  assumes "sys_ok s"
  shows "\<exists>s'. log_create K reason src dst count s = Some s' \<and> quiet dsk A s s' \<and> keeps s s'"
  using log_push_quiet [OF assms, of LOG_TYPE_CREATE "LOG_RESULT reason" src dst "ucast count" A]
  by (auto simp: log_create_def)

lemma flush_swap_head_quiet:
  assumes sys: "sys_ok s" and e: "flush_swap_head K s = (ret, s')"
  shows "quiet dsk A s s'" "infos (core s') = infos (core s)"
    "next_info (core s') = next_info (core s)" "bitmap (head (core s')) = bitmap (head (core s))"
proof -
  note g = sys_okD(1) [OF sys] and h = sys_okD(2) [OF sys]
  define hh where "hh = (head (core s))\<lparr>checksum := swap_crc32 0xffffffff (head_body (head (core s)))\<rparr>"
  define s1 where "s1 = set_head hh s"
  obtain r2 s2 where w2: "hd_write_sector K (sector_head (core s)) 1 (Some (head_bytes hh)) 10 5 s1 = (r2, s2)"
    by fastforce
  obtain r3 s3 where w3: "hd_write_sector K (sector_head (core s2) + of_nat SWAP_HEAD_BACKUP_OFFEST) 1
      (Some (head_bytes hh)) 10 5 s2 = (r3, s3)"
    by fastforce
  have len: "length (head_bytes hh) = 512"
    using h by (simp add: hh_def head_ok_def head_bytes_def head_body_def length_concat
        comp_def sum_list_triv)
  have q1: "quiet dsk A s s1"
    unfolding s1_def by (rule quiet_set_head) (simp add: hh_def head_ok_def)
  have q2: "quiet dsk A s1 s2"
    using g len by (intro hd_write_quiet [OF w2]) (simp_all add: s1_def geom_ok_def layout_simps)
  have sh: "sector_head (core s2) = sector_head (core s)" "sector_reserve_start (core s2) = sector_reserve_start (core s)"
    using quietD(4,5) [OF q2] by (simp_all add: s1_def)
  have "unat (sector_head (core s) + 64) = unat (sector_head (core s)) + 64"
    using g by (simp add: unat_word_ariths geom_ok_def layout_simps)
  then have q3: "quiet dsk A s2 s3"
    using g len sh by (intro hd_write_quiet [OF w3]) (simp_all add: geom_ok_def layout_simps)
  have s3: "s' = s3"
    using e w2 w3 by (auto simp: flush_swap_head_def hd_write_sector_retry_def s1_def hh_def Let_def
        split: if_splits)
  then show "quiet dsk A s s'" using quiet_trans [OF quiet_trans [OF q1 q2] q3] by simp
  show "infos (core s') = infos (core s)" "next_info (core s') = next_info (core s)"
    "bitmap (head (core s')) = bitmap (head (core s))"
    using io_stepD(7,9,10) [OF io_step_hd_write [OF w2]] io_stepD(7,9,10) [OF io_step_hd_write [OF w3]] s3
    by (simp_all add: s1_def hh_def)
qed

lemma swap_check_block_quiet:
  assumes "swap_check_block K sec s = (ret, s')"
    "unat (sector_reserve_start (core s)) \<le> unat sec" "unat sec < 2 ^ 32"
  shows "quiet dsk A s s'" "core s' = (core s)\<lparr>device_dead := device_dead (core s')\<rparr>"
proof -
  obtain m s1 where a: "alloc K (512 * 128) s = (m, s1)" by fastforce
  note q1 = alloc_quiet [OF a] and i1 = io_step_alloc [OF a]
  have "quiet dsk A s s' \<and> io_step s s'"
  proof (cases m)
    case None
    then show ?thesis using assms(1) a q1 i1 by (simp add: swap_check_block_def)
  next
    case (Some b)
    obtain r2 s2 where w: "hd_write_sector K sec 128 (Some (replicate (512 * 128) 0)) 10 5 s1 = (r2, s2)"
      by fastforce
    have "quiet dsk A s1 s2"
      using assms(2,3) quietD(4) [OF q1] by (intro hd_write_quiet [OF w]) simp_all
    moreover have "s' = s2"
      using assms(1) a w Some
      by (auto simp: swap_check_block_def hd_write_sector_retry_def split: if_splits)
    ultimately show ?thesis
      using quiet_trans [OF q1] io_step_trans [OF i1 io_step_hd_write [OF w]] by blast
  qed
  then show "quiet dsk A s s'" "core s' = (core s)\<lparr>device_dead := device_dead (core s')\<rparr>"
    using io_stepD(4) by blast+
qed

lemma check_block_at:
  assumes "swap_check_block K (sector_data (core s) + of_int (128 * int n)) s = (ret, s1)"
    "n < 1024" "geom_ok (core s) (slog s)"
  shows "quiet dsk A s s1" "infos (core s1) = infos (core s)" "head (core s1) = head (core s)"
proof -
  have b: "unat (sector_data (core s) + of_int (128 * int n)) = unat (sector_data (core s)) + 128 * n"
    using unat_data_block [OF assms(3), of "int n"] assms(2) by simp
  show "quiet dsk A s s1"
    using b assms(2,3) by (intro swap_check_block_quiet(1) [OF assms(1)]) (simp_all add: geom_ok_def layout_simps)
  have c1: "core s1 = (core s)\<lparr>device_dead := device_dead (core s1)\<rparr>"
    using b assms(2,3) by (intro swap_check_block_quiet(2) [OF assms(1)]) (simp_all add: geom_ok_def layout_simps)
  show "infos (core s1) = infos (core s)" "head (core s1) = head (core s)" by (subst c1, simp)+
qed

lemma alloc_block_loop_ok:
  assumes "alloc_block_loop K k (int n) s = (r, s')" "n < 1024" "\<not> used s n"
    "sys_ok s"
  shows "quiet dsk A s s' \<and> infos (core s') = infos (core s) \<and>
    (\<forall>m. used s m \<longrightarrow> used s' m) \<and>
    (r = - 1 \<or> (\<exists>n < 1024. r = int n \<and> \<not> used s n \<and> used s' n))"
  using assms
proof (induction k arbitrary: n s)
  case 0
  obtain ret s1 where c: "swap_check_block K (sector_data (core s) + of_int (128 * int n)) s = (ret, s1)"
    by fastforce
  note q1 = check_block_at(1) [OF c 0(2) sys_okD(1) [OF 0(4)]] and i1 = check_block_at(2,3) [OF c 0(2) sys_okD(1) [OF 0(4)]]
  show ?case
  proof (cases "ret = 0")
    case True
    then have "r = int n" "s' = mark_block n True s1"
      using 0(1) c by (simp_all add: alloc_block_loop.simps)
    then show ?thesis
      using q1 i1 0 quiet_trans [OF q1 quiet_mark] used_mark [of s1 n True] sys_okD(2) [OF 0(4)] by auto
  next
    case False
    then have "r = - 1" "s' = atomic_inc_dead s1"
      using 0(1) c by (simp_all add: alloc_block_loop.simps)
    then show ?thesis
      using quiet_trans [OF q1 quiet_dead] i1 by (simp add: atomic_inc_dead_def)
  qed
next
  case (Suc k)
  obtain ret s1 where c: "swap_check_block K (sector_data (core s) + of_int (128 * int n)) s = (ret, s1)"
    by fastforce
  note q1 = check_block_at(1) [OF c Suc.prems(2) sys_okD(1) [OF Suc.prems(4)]] and i1 = check_block_at(2,3) [OF c Suc.prems(2) sys_okD(1) [OF Suc.prems(4)]]
  define s2 where "s2 = mark_block n True s1"
  have q2: "quiet dsk A s s2" unfolding s2_def by (rule quiet_trans [OF q1 quiet_mark])
  have u2: "used s2 m = (m = n \<or> used s m)" for m
    using used_mark [of s1 n True] Suc.prems(2) sys_okD(2) [OF Suc.prems(4)] i1 by (auto simp: s2_def)
  have i2: "infos (core s2) = infos (core s)" by (simp add: s2_def i1)
  show ?case
  proof (cases "ret = 0")
    case True
    then have "r = int n" "s' = s2"
      using Suc.prems(1) c by (simp_all add: alloc_block_loop.simps s2_def)
    then show ?thesis using q2 u2 i2 Suc.prems(2,3) by auto
  next
    case False
    then have loop: "(if swap_head_bitmap_get_first_zero_bit (head (core s2)) = - 1 then (- 1, s2)
        else alloc_block_loop K k (swap_head_bitmap_get_first_zero_bit (head (core s2))) s2) = (r, s')"
      using Suc.prems(1) c by (simp add: alloc_block_loop.simps [of K "Suc k"] s2_def Let_def split: if_splits)
    show ?thesis
    proof (cases rule: first_zero_cases [of "head (core s2)"])
      case 1
      then show ?thesis using loop q2 u2 i2 by auto
    next
      case (2 n')
      then have l: "alloc_block_loop K k (int n') s2 = (r, s')" using loop by simp
      show ?thesis
        using Suc.IH [OF l 2(2,3) quiet_sys_ok [OF q2 Suc.prems(4)]] quiet_trans [OF q2] u2 i2 by fastforce
    qed
  qed
qed

lemma alloc_new_block_ok:
  assumes "u_swap_alloc_new_block K s = (r, s')" "sys_ok s"
  shows "quiet dsk A s s'" "infos (core s') = infos (core s)" "\<And>m. used s m \<Longrightarrow> used s' m"
    "r = - 1 \<or> (\<exists>n < 1024. r = int n \<and> \<not> used s n \<and> used s' n)"
proof -
  have "quiet dsk A s s' \<and> infos (core s') = infos (core s) \<and> (\<forall>m. used s m \<longrightarrow> used s' m) \<and>
    (r = - 1 \<or> (\<exists>n < 1024. r = int n \<and> \<not> used s n \<and> used s' n))"
  proof (cases rule: first_zero_cases [of "head (core s)"])
    case 1
    then show ?thesis using assms(1) by (auto simp: u_swap_alloc_new_block_def)
  next
    case (2 n)
    then have "alloc_block_loop K 16 (int n) s = (r, s')"
      using assms(1) by (simp add: u_swap_alloc_new_block_def)
    then show ?thesis by (rule alloc_block_loop_ok [OF _ 2(2,3) assms(2)])
  qed
  then show "quiet dsk A s s'" "infos (core s') = infos (core s)" "\<And>m. used s m \<Longrightarrow> used s' m"
    "r = - 1 \<or> (\<exists>n < 1024. r = int n \<and> \<not> used s n \<and> used s' n)"
    by blast+
qed

lemma tur_loop_quiet:
  "tur_loop K hdr n s = (res, h, s') \<Longrightarrow> quiet dsk A s s' \<and> core s' = core s"
proof (induction n arbitrary: s rule: less_induct)
  case (less n)
  obtain result h0 b w where
    x: "scsi_execute_req K [0, 0, 0, 0, 0, 0] DMA_NONE [] 10 0 (world s) = (result, h0, b, w)"
    by (metis prod_cases4)
  define hh where "hh = (if hdr then Some h0 else None)"
  define s1 where "s1 = (let s = s\<lparr>world := w\<rparr> in
    if removable s \<and> sense_is hh 6 then s\<lparr>changed := True\<rparr> else s)"
  have "quiet dsk A s (s\<lparr>world := w\<rparr>)"
    using no_data [OF x] by (intro quiet_io_step [OF io_step_world]) simp
  then have q1: "quiet dsk A s s1" "core s1 = core s"
    using quiet_trans [OF _ quiet_changed] by (auto simp: s1_def Let_def)
  have e: "(if sense_is hh 6 \<and> 1 < n then tur_loop K hdr (n - 1) s1 else (result, hh, s1)) = (res, h, s')"
    using less.prems by (simp only: tur_loop.simps [of K hdr n s] x s1_def hh_def Let_def prod.case)
  show ?case
  proof (cases "sense_is hh 6 \<and> 1 < n")
    case True
    then show ?thesis
      using less.IH [of "n - 1" s1] e quiet_trans [OF q1(1)] q1(2) by auto
  next
    case False
    then show ?thesis using e q1 by auto
  qed
qed

lemma hd_test_unit_ready_quiet:
  assumes "hd_test_unit_ready K s = (res, s')"
  shows "quiet dsk A s s'" "core s' = core s"
proof -
  obtain m s1 where a: "alloc K 8 s = (m, s1)" by fastforce
  obtain r h s2 where l: "tur_loop K (m \<noteq> None) 3 s1 = (r, h, s2)" by (metis prod_cases3)
  have c1: "core s1 = core s" using a by (auto simp: alloc_def split: prod.splits)
  have "s' = s2 \<or> s' = s2\<lparr>changed := True\<rparr>"
    using assms a l by (auto simp: hd_test_unit_ready_def split: if_splits)
  then show "quiet dsk A s s'" "core s' = core s"
    using quiet_trans [OF alloc_quiet [OF a]] quiet_trans [OF _ quiet_changed]
      tur_loop_quiet [OF l] c1 by fastforce+
qed

lemma repair_quiet:
  assumes "swap_repair_successive_sectors K sec n s = (ret, s')"
  shows "quiet dsk A s s'" "ret \<noteq> 0" "infos (core s') = infos (core s)"
    "head (core s') = head (core s)"
proof -
  obtain r s1 where t: "hd_test_unit_ready K s = (r, s1)" by fastforce
  have "(ret = - 5 \<and> s' = atomic_inc_dead s1) \<or> (ret = - 1 \<and> s' = s1)"
    using assms t by (auto simp: swap_repair_successive_sectors_def split: if_splits)
  then show "quiet dsk A s s'" "ret \<noteq> 0" "infos (core s') = infos (core s)"
    "head (core s') = head (core s)"
    using hd_test_unit_ready_quiet [OF t] quiet_trans [OF hd_test_unit_ready_quiet(1) [OF t] quiet_dead]
    by (auto, simp_all add: atomic_inc_dead_def)
qed

lemma read_into_ok:
  assumes i: "infos (core s) p = Some i" "sdata i = Some d" and off: "off + n * 512 \<le> length d"
    and p: "p < next_info (core s)"
  shows "\<exists>ret s' d'. read_into K p sec n off s = Some (ret, s') \<and> quiet dsk {p} s s' \<and>
    infos (core s') = (infos (core s))(p \<mapsto> i\<lparr>sdata := Some d'\<rparr>) \<and> length d' = length d \<and>
    head (core s') = head (core s)"
proof -
  define chunk where "chunk = slice off (n * 512) d"
  have c: "memread d off (n * 512) = Some chunk" "length chunk = n * 512"
    using off by (auto simp: memread_def chunk_def)
  obtain ret ob s1 where r: "hd_read_sector K sec (of_nat n) (Some chunk) 5 0 s = (ret, ob, s1)"
    by (metis prod_cases3)
  obtain c' where c': "ob = Some c'" "length c' = length chunk"
    using hd_read_law [OF r] by blast
  define s' where "s' = set_info p (i\<lparr>sdata := Some (overwrite off c' d)\<rparr>) s1"
  note io = io_stepD [OF io_step_hd_read [OF r]]
  have "quiet dsk {p} s s'"
    unfolding s'_def using p io(10)
    by (intro quiet_trans [OF hd_read_quiet [OF r]] quiet_set_info) simp_all
  moreover have "read_into K p sec n off s = Some (ret, s')"
    using i c r c' by (simp add: read_into_def hd_read_sector_no_retry_def s'_def)
  ultimately show ?thesis
    using io c c' off by (auto simp: s'_def intro!: exI [of _ "overwrite off c' d"])
qed

lemma u_swap_create_ok:
  assumes ok: "sys_ok s"
    and i: "infos (core s) p = Some i" "sdata i = Some d" "length d = 65536"
      "length (reserverd (table i)) = 6" "p < next_info (core s)"
    and src: "unat src mod 128 = 0" "unat src < unat (sector_reserve_start (core s))"
    and zo: "0 \<le> zo" "zo \<le> 128" "0 \<le> zl"
  shows "\<exists>ret s' i'. u_swap_create K p src zo zl s = Some (ret, s') \<and> quiet dsk {p} s s' \<and>
    infos (core s') p = Some i' \<and> (\<forall>q. q \<noteq> p \<longrightarrow> infos (core s') q = infos (core s) q) \<and>
    (\<forall>m. used s m \<longrightarrow> used s' m) \<and>
    (ret = 0 \<longrightarrow> info_ok (core s') i' \<and> src_sec (table i') = src \<and>
      \<not> used s (unat (tindex (table i'))) \<and> used s' (unat (tindex (table i'))))"
proof -
  obtain r s1 where a: "u_swap_alloc_new_block K s = (r, s1)" by fastforce
  note al = alloc_new_block_ok [OF a ok]
  show ?thesis
  proof (cases "r = - 1")
    case True
    then show ?thesis
      using a al i by (auto simp: u_swap_create_def)
  next
    case False
    then obtain n where n: "n < 1024" "r = int n" "\<not> used s n" "used s1 n" using al(4) by blast
    define zl' where "zl' = (if zo + zl > 128 then 128 - zo else zl)"
    have zz: "0 \<le> zl'" "zo + zl' \<le> 128" using zo by (auto simp: zl'_def)
    have i1: "infos (core s1) p = Some i" using al(2) i by simp
    have p1: "p < next_info (core s1)" using quietD(9) [OF al(1)] i(5) by (meson order_less_le_trans)
    define front where "front = (if zo > 0 then map_option snd (read_into K p src (nat zo) 0 s1) else Some s1)"
    have "\<exists>s2 d2. front = Some s2 \<and> quiet dsk {p} s1 s2 \<and>
      infos (core s2) = (infos (core s1))(p \<mapsto> i\<lparr>sdata := Some d2\<rparr>) \<and> length d2 = 65536 \<and>
      head (core s2) = head (core s1)"
      using read_into_ok [OF i1 i(2) _ p1, of 0 "nat zo" src] zo i(2,3) i1
      by (cases "zo > 0") (fastforce simp: front_def, auto simp: front_def intro!: exI [of _ d])
    then obtain s2 d2 where 2: "front = Some s2" "quiet dsk {p} s1 s2"
      "infos (core s2) = (infos (core s1))(p \<mapsto> i\<lparr>sdata := Some d2\<rparr>)" "length d2 = 65536"
      "head (core s2) = head (core s1)" by blast
    let ?i2 = "i\<lparr>sdata := Some d2\<rparr>"
    have i2: "infos (core s2) p = Some ?i2" by (simp add: 2)
    have p2: "p < next_info (core s2)" using quietD(9) [OF 2(2)] p1 by (meson order_less_le_trans)
    define rear where "rear = (if 128 - (zo + zl') > 0
      then map_option snd (read_into K p (src + of_int (zo + zl')) (nat (128 - (zo + zl')))
        (nat (zo + zl') * 512) s2) else Some s2)"
    have "nat (zo + zl') * 512 + nat (128 - (zo + zl')) * 512 \<le> 65536"
      using zo zz by linarith
    then have "\<exists>s3 d3. rear = Some s3 \<and> quiet dsk {p} s2 s3 \<and>
      infos (core s3) = (infos (core s2))(p \<mapsto> i\<lparr>sdata := Some d3\<rparr>) \<and> length d3 = 65536 \<and>
      head (core s3) = head (core s2)"
      using read_into_ok [OF i2 _ _ p2, of d2 "nat (zo + zl') * 512" "nat (128 - (zo + zl'))"
          "src + of_int (zo + zl')"] 2(4) i2
      by (cases "128 - (zo + zl') > 0") (fastforce simp: rear_def, auto simp: rear_def intro!: exI [of _ d2])
    then obtain s3 d3 where 3: "rear = Some s3" "quiet dsk {p} s2 s3"
      "infos (core s3) = (infos (core s2))(p \<mapsto> i\<lparr>sdata := Some d3\<rparr>)" "length d3 = 65536"
      "head (core s3) = head (core s2)" by blast
    define i' where "i' = i\<lparr>sdata := Some d3, table := map_entry (core s3) (int n)
      ((table i)\<lparr>src_sec := src, sec_size := 128\<rparr>)\<rparr>"
    define s' where "s' = set_info p i' s3"
    have run: "u_swap_create K p src zo zl s = Some (0, s')"
      using a False n 2(1) 3(1,3) unfolding front_def rear_def
      by (simp add: u_swap_create_def zl'_def [symmetric] s'_def i'_def Let_def)
    have p3: "p < next_info (core s3)" using quietD(9) [OF 3(2)] p2 by (meson order_less_le_trans)
    have q3: "quiet dsk {p} s s3" using quiet_trans [OF quiet_trans [OF al(1) 2(2)] 3(2)] .
    have q: "quiet dsk {p} s s'"
      unfolding s'_def using quiet_trans [OF q3 quiet_set_info [OF _ p3]] by simp
    have ti: "unat (tindex (table i')) = n"
      using n by (simp add: i'_def map_entry_def Let_def unat_of_nat)
    have "info_ok (core s') i'"
      using 3(4) i(4) src n quietD(4,7) [OF q3] ti
      by (simp add: info_ok_def s'_def i'_def map_entry_def table_crc_def table_body_def Let_def)
    moreover have "src_sec (table i') = src" by (simp add: i'_def map_entry_def Let_def)
    moreover have "used s' m = used s1 m" for m by (simp add: s'_def 2 3)
    ultimately show ?thesis
      using run q ti n al(2,3) 2(3) 3(3) by (auto simp: s'_def)
  qed
qed

lemma alloc_info_ok:
  assumes "u_swap_alloc_info K s = (r, s')"
  shows "quiet dsk A s s'" "head (core s') = head (core s)"
    "r = Some p \<Longrightarrow> p = next_info (core s) \<and> next_info (core s') = Suc p \<and>
      infos (core s') p = Some \<lparr>table = zero_table, sdata = Some (replicate 65536 0)\<rparr>"
proof -
  obtain m1 s1 where a1: "alloc K 112 s = (m1, s1)" by fastforce
  obtain m2 s2 where a2: "alloc K SWAP_BLOCK_SIZE s1 = (m2, s2)" by fastforce
  note q1 = alloc_quiet [OF a1] and io1 = io_stepD [OF io_step_alloc [OF a1]]
  note q2 = alloc_quiet [OF a2] and io2 = io_stepD [OF io_step_alloc [OF a2]]
  define s3 where "s3 = upd_core (\<lambda>c. c\<lparr>next_info := next_info (core s2) + 1\<rparr>)
    (set_info (next_info (core s2)) \<lparr>table = zero_table, sdata = Some (replicate SWAP_BLOCK_SIZE 0)\<rparr> s2)"
  have q3: "quiet dsk A s2 s3" unfolding s3_def by (rule quiet_new_info) simp
  have "(r = None \<and> (s' = s1 \<or> s' = s2)) \<or> (r = Some (next_info (core s2)) \<and> s' = s3)"
    using assms a1 a2 by (auto simp: u_swap_alloc_info_def s3_def Let_def split: option.splits)
  then show "quiet dsk A s s'" "head (core s') = head (core s)"
    "r = Some p \<Longrightarrow> p = next_info (core s) \<and> next_info (core s') = Suc p \<and>
      infos (core s') p = Some \<lparr>table = zero_table, sdata = Some (replicate 65536 0)\<rparr>"
    using q1 quiet_trans [OF q1 q2] quiet_trans [OF quiet_trans [OF q1 q2] q3] io1 io2
    by (auto simp: s3_def SWAP_BLOCK_SIZE_def)
qed

text \<open>The object is allocated, the block is chosen and the entry filled in.\<close>

lemma swap_create_mapped:
  assumes sys: "sys_ok s" and sec: "unat sec < unat (sector_reserve_start (core s))"
    and cnt: "unat (count :: u32) < 2 ^ 31" and a: "u_swap_alloc_info K s = (Some p, s1)"
  shows "\<exists>ret s2 i. u_swap_create K p (SWAP_SECTOR_ALIGN sec)
      (sint (ucast (sec - SWAP_SECTOR_ALIGN sec) :: u32)) (sint count) s1 = Some (ret, s2) \<and>
    quiet dsk {p} s s2 \<and> p = next_info (core s) \<and> p < next_info (core s2) \<and>
    infos (core s2) p = Some i \<and> (\<forall>m. used s m \<longrightarrow> used s2 m) \<and>
    (ret = 0 \<longrightarrow> info_ok (core s2) i \<and> unat (src_sec (table i)) = 128 * (unat sec div 128) \<and>
      \<not> used s (unat (tindex (table i))) \<and> used s2 (unat (tindex (table i))))"
proof -
  let ?src = "SWAP_SECTOR_ALIGN sec"
  note q1 = alloc_info_ok(1) [OF a] and h1 = alloc_info_ok(2) [OF a]
    and p = alloc_info_ok(3) [OF a refl]
  have len: "length (reserverd zero_table) = 6" by (simp add: zero_table_def table_of_bytes_def)
  have src: "unat ?src mod 128 = 0" "unat ?src < unat (sector_reserve_start (core s1))"
    using sec quietD(4) [OF q1] by (simp_all add: align_facts order_le_less_trans)
  have zl: "0 \<le> sint count" using sint_nat_small [of count] cnt by simp
  obtain ret s2 i where 2: "u_swap_create K p ?src (int (unat sec mod 128)) (sint count) s1 = Some (ret, s2)"
    "quiet dsk {p} s1 s2" "infos (core s2) p = Some i" "\<forall>m. used s1 m \<longrightarrow> used s2 m"
    "ret = 0 \<longrightarrow> info_ok (core s2) i \<and> src_sec (table i) = ?src \<and>
      \<not> used s1 (unat (tindex (table i))) \<and> used s2 (unat (tindex (table i)))"
    using u_swap_create_ok [OF quiet_sys_ok [OF q1 sys], of p _ "replicate 65536 0" ?src
        "int (unat sec mod 128)" "sint count"] p len src zl
    by (force simp: less_imp_le)
  have "p < next_info (core s2)" using p quietD(9) [OF 2(2)] by simp
  then show ?thesis
    using 2 quiet_trans [OF q1 2(2)] p h1 by (auto simp: create_offset align_facts)
qed

lemma swap_create_ok:
  assumes sys: "sys_ok s" and sec: "unat sec < unat (sector_reserve_start (core s))"
    and cnt: "unat count < 2 ^ 31"
  shows "\<exists>r s'. swap_create K sec count s = Some (r, s') \<and> quiet dsk {} s s' \<and>
    (\<forall>m. used s m \<longrightarrow> used s' m) \<and>
    (case r of None \<Rightarrow> True | Some p \<Rightarrow> info_num (core s) < 128 \<and>
      next_info (core s) \<le> p \<and> p < next_info (core s') \<and>
      (\<exists>i. infos (core s') p = Some i \<and> info_ok (core s') i \<and>
        unat (src_sec (table i)) = 128 * (unat sec div 128) \<and>
        \<not> used s (unat (tindex (table i))) \<and> used s' (unat (tindex (table i)))))"
proof -
  consider (full) "info_num (core s) \<ge> MAX_SWAP_BLOCK_FOR_USE"
    | (nomem) s1 where "info_num (core s) < MAX_SWAP_BLOCK_FOR_USE" "u_swap_alloc_info K s = (None, s1)"
    | (mem) p s1 where "info_num (core s) < MAX_SWAP_BLOCK_FOR_USE" "u_swap_alloc_info K s = (Some p, s1)"
    by (metis not_le option.exhaust surj_pair)
  then show ?thesis
  proof cases
    case full
    obtain s' where "log_create K (Some LOG_FAILED_CREATE_MAXCOUNT) sec (- 1) count s = Some s'"
      "quiet dsk {} s s'" "keeps s s'"
      using log_create_quiet [OF sys] by blast
    then show ?thesis using full by (auto simp: swap_create_def keepsD)
  next
    case nomem
    note a = alloc_info_ok(1,2) [OF nomem(2)]
    obtain s' where "log_create K (Some LOG_FAILED_CREATE_MALLOC) sec (- 1) count s1 = Some s'"
      "quiet dsk {} s1 s'" "keeps s1 s'"
      using log_create_quiet [OF quiet_sys_ok [OF a(1) sys]] by blast
    then show ?thesis
      using nomem a(2) quiet_trans [OF a(1)] by (auto simp: swap_create_def keepsD)
  next
    case mem
    obtain ret s2 i where 2: "u_swap_create K p (SWAP_SECTOR_ALIGN sec)
        (sint (ucast (sec - SWAP_SECTOR_ALIGN sec) :: u32)) (sint count) s1 = Some (ret, s2)"
      "quiet dsk {p} s s2" "p = next_info (core s)" "p < next_info (core s2)"
      "infos (core s2) p = Some i" "\<forall>m. used s m \<longrightarrow> used s2 m"
      "ret = 0 \<longrightarrow> info_ok (core s2) i \<and> unat (src_sec (table i)) = 128 * (unat sec div 128) \<and>
        \<not> used s (unat (tindex (table i))) \<and> used s2 (unat (tindex (table i)))"
      using swap_create_mapped [OF sys sec cnt mem(2)] by blast
    have fresh: "quiet dsk {p} s t \<Longrightarrow> quiet dsk {} s t" for t
      using quiet_fresh 2(3) by blast
    have sys2: "sys_ok s2" using quiet_sys_ok [OF 2(2) sys] .
    show ?thesis
    proof (cases "ret = 0")
      case False
      let ?s3 = "u_swap_dealloc_info p s2"
      have q3: "quiet dsk {p} s ?s3" using quiet_trans [OF 2(2) quiet_dealloc] by simp
      obtain s' where s': "log_create K (Some LOG_FAILED_CREATE_WRITE_DST) sec (- 1) count ?s3 = Some s'"
        "quiet dsk {p} ?s3 s'" "keeps ?s3 s'"
        using log_create_quiet [OF quiet_sys_ok [OF q3 sys]] by blast
      have "swap_create K sec count s = Some (None, s')"
        using mem 2(1) s'(1) False by (simp add: swap_create_def)
      then show ?thesis
        using fresh quiet_trans [OF q3 s'(2)] s'(3) 2(6) by (auto simp: keepsD)
    next
      case True
      obtain r3 s3 where f: "flush_swap_head K s2 = (r3, s3)" by fastforce
      note fl = flush_swap_head_quiet [OF sys2 f]
      have q3: "quiet dsk {p} s s3" using quiet_trans [OF 2(2) fl(1)] .
      have i3: "infos (core s3) p = Some i" using fl(2) 2(5) by simp
      show ?thesis
      proof (cases "r3 = 0")
        case r3: False
        let ?s4 = "u_swap_dealloc_info p (mark_block (unat (tindex (table i))) False s3)"
        have q4: "quiet dsk {p} s ?s4"
          using quiet_trans [OF quiet_trans [OF q3 quiet_mark] quiet_dealloc] by simp
        obtain s' where s': "log_create K (Some LOG_FAILED_CREATE_FLUSH_HEAD) sec (- 1) count ?s4 = Some s'"
          "quiet dsk {p} ?s4 s'" "keeps ?s4 s'"
          using log_create_quiet [OF quiet_sys_ok [OF q4 sys]] by blast
        have "swap_create K sec count s = Some (None, s')"
          using mem 2(1) s'(1) f True r3 i3 by (simp add: swap_create_def)
        moreover have "used s' m" if "used s m" for m
          using that 2(6,7) True s'(3) fl(4) sys_okD(2) [OF quiet_sys_ok [OF q3 sys]]
          by (auto simp: keepsD used_mark info_ok_def)
        ultimately show ?thesis using fresh quiet_trans [OF q4 s'(2)] by auto
      next
        case r3: True
        obtain s' where s': "log_create K None (src_sec (table i)) (swap_sec (table i)) (sec_size (table i)) s3 = Some s'"
          "quiet dsk {p} s3 s'" "keeps s3 s'"
          using log_create_quiet [OF quiet_sys_ok [OF q3 sys]] by blast
        have "swap_create K sec count s = Some (Some p, s')"
          using mem 2(1) s'(1) f True r3 i3 by (simp add: swap_create_def)
        moreover have "info_ok (core s') i"
          using 2(7) True quietD(4,7) [OF fl(1)] quietD(4,7) [OF s'(2)] by (simp add: info_ok_def)
        ultimately show ?thesis
          using fresh [OF quiet_trans [OF q3 s'(2)]] 2(3,4,6,7) True fl(3,4) s'(3) i3 mem(1)
          by (auto simp: keepsD MAX_SWAP_BLOCK_FOR_USE_def)
      qed
    qed
  qed
qed

end

end
