(* ===== verification/Core_Map.thy ===== *)
theory Core_Map
  imports Core_Step
begin

text \<open>
  Writing the table of mappings, and reading and writing through a mapping: the operations that
  work on the objects of the list, on a disk that keeps the contract \<open>scsi_disk\<close>.
\<close>

lemma length_table_bytes: "length (reserverd t) = 6 \<Longrightarrow> length (table_bytes t) = 64"
  by (simp add: table_bytes_def table_body_def length_concat comp_def sum_list_triv)

lemma quiet_save:
  assumes "infos (core s) p = Some i"
  shows "quiet dsk A s (set_info p (i\<lparr>table := (table i)\<lparr>save_sec := x\<rparr>\<rparr>) s)"
proof -
  have "same_info i (i\<lparr>table := (table i)\<lparr>save_sec := x\<rparr>\<rparr>)"
    by (auto simp: same_info_def)
  then show ?thesis
    using assms unfolding quiet_def
    by (auto intro!: exI [of _ "device_dead (core s)"] exI [of _ "head (core s)"]
        exI [of _ "next_info (core s)"])
qed

lemma swap_sec_bounds:
  assumes "info_ok c i" "geom_ok c l"
  shows "unat (swap_sec (table i)) = unat (sector_data c) + 128 * unat (tindex (table i))"
    "unat (sector_reserve_start c) \<le> unat (swap_sec (table i))" "unat (swap_sec (table i)) + 128 \<le> 2 ^ 32"
proof -
  have ti: "unat (tindex (table i)) < 1024" using assms(1) by (simp add: info_ok_def)
  have u: "unat (128 * tindex (table i)) = 128 * unat (tindex (table i))"
    using ti by (simp add: unat_word_ariths)
  have "(ucast (128 * tindex (table i)) :: sector_t) = word_of_nat (unat (128 * tindex (table i)))"
    by (simp only: unsigned_of_nat of_nat_unat)
  then have "swap_sec (table i) = sector_data c + word_of_nat (128 * unat (tindex (table i)))"
    using assms(1) unfolding u by (simp add: info_ok_def)
  then show "unat (swap_sec (table i)) = unat (sector_data c) + 128 * unat (tindex (table i))"
    using unat_plus_nat [of "sector_data c" "128 * unat (tindex (table i))"] ti assms(2)
    by (simp add: geom_ok_def layout_simps)
  then show "unat (sector_reserve_start c) \<le> unat (swap_sec (table i))"
    "unat (swap_sec (table i)) + 128 \<le> 2 ^ 32"
    using ti assms(2) by (simp_all add: geom_ok_def layout_simps)
qed

lemma write_offset:
  assumes "unat sec < 2 ^ 32"
  shows "unat (ucast ((sec - ucast (ucast (SWAP_SECTOR_ALIGN sec) :: u32)) * 512 :: sector_t) :: u32)
    = 512 * (unat sec mod 128)"
proof -
  have "(ucast (ucast (SWAP_SECTOR_ALIGN sec) :: u32) :: sector_t) = SWAP_SECTOR_ALIGN sec"
  proof (rule word_unat_eq_iff [THEN iffD2])
    have "128 * (unat sec div 128) \<le> unat sec" by simp
    then have "128 * (unat sec div 128) < 2 ^ 32" using assms by linarith
    then show "unat (ucast (ucast (SWAP_SECTOR_ALIGN sec) :: u32) :: sector_t) = unat (SWAP_SECTOR_ALIGN sec)"
      by (simp add: unsigned_ucast_eq take_bit_eq_mod align_facts unat_mod)
  qed
  note e = this
  have m: "unat sec mod 128 < 128" by simp
  then have "unat ((sec - SWAP_SECTOR_ALIGN sec) * 512) = unat (sec - SWAP_SECTOR_ALIGN sec) * 512"
    by (subst unat_word_ariths(2)) (simp add: align_facts)
  then show ?thesis
    unfolding e using m by (simp only: unsigned_ucast_eq take_bit_eq_mod align_facts) simp
qed

lemma info_ok_data:
  "info_ok c i \<Longrightarrow> sdata i = Some d \<Longrightarrow> length d' = length d \<Longrightarrow> info_ok c (i\<lparr>sdata := Some d'\<rparr>)"
  by (simp add: info_ok_def table_crc_def table_body_def)

lemma info_ok_core:
  "sector_reserve_start c' = sector_reserve_start c \<Longrightarrow> sector_data c' = sector_data c \<Longrightarrow>
   info_ok c' i = info_ok c i"
  by (simp add: info_ok_def)

lemma entries_ok_quiet:
  assumes q: "quiet dsk {p} s s'" and ent: "entries_ok s"
    and p: "infos (core s') p = Some i" "length (reserverd (table i)) = 6"
  shows "entries_ok s'"
proof -
  have "q' < next_info (core s') \<and>
      (case infos (core s') q' of None \<Rightarrow> False | Some i \<Rightarrow> length (reserverd (table i)) = 6)"
    if q': "q' \<in> set (info_list (core s))" for q'
  proof -
    obtain j where j: "infos (core s) q' = Some j" "length (reserverd (table j)) = 6" "q' < next_info (core s)"
      using ent q' by (auto simp: entries_ok_def split: option.splits)
    then have "q' < next_info (core s')" using quietD(9) [OF q] by simp
    moreover have "\<exists>j'. infos (core s') q' = Some j' \<and> length (reserverd (table j')) = 6"
      using quiet_info [OF q j(1,3)] j(2) p by (cases "q' = p") (auto simp: same_info_def)
    ultimately show ?thesis by auto
  qed
  then show ?thesis using ent quietD(1) [OF q] by (simp add: entries_ok_def)
qed

lemma info_ok_map_entry:
  assumes "info_ok c i" "n < 1024" "length d = 65536"
    "sector_reserve_start c' = sector_reserve_start c" "sector_data c' = sector_data c"
  shows "info_ok c (i\<lparr>sdata := Some d, table := map_entry c' (int n) (table i)\<rparr>)"
    "unat (tindex (map_entry c' (int n) (table i))) = n"
    "src_sec (map_entry c' (int n) (table i)) = src_sec (table i)"
  using assms
  by (simp_all add: info_ok_def map_entry_def Let_def unat_of_nat table_crc_def table_body_def)

context scsi_disk
begin

subsection \<open>The table sectors\<close>


lemma table_write_loop_ok:
  assumes "table_write_loop K buf sec limit s = (sec', s')"
    "unat (sector_reserve_start (core s)) \<le> unat sec" "unat sec \<le> N" "unat limit \<le> N"
    "N < 2 ^ 32" "length buf < 2 ^ 32"
  shows "quiet dsk A s s' \<and> keeps s s' \<and> unat sec < unat sec' \<and> unat sec' \<le> N + 1"
  using assms
proof (induction "unat (limit - 1 - sec)" arbitrary: sec s rule: less_induct)
  case less
  obtain r s1 where w: "hd_write_sector K sec 1 (Some buf) 10 5 s = (r, s1)" by fastforce
  have q1: "quiet dsk A s s1"
    using less.prems by (intro hd_write_quiet [OF w]) simp_all
  have k1: "keeps s s1" using keeps_io [OF io_step_hd_write [OF w]] .
  have u: "unat (sec + 1) = unat sec + 1"
    using less.prems(3,5) by (simp add: unat_word_ariths)
  have e: "(if r = 0 \<or> limit \<le> sec + 1 then (sec + 1, s1) else table_write_loop K buf (sec + 1) limit s1)
      = (sec', s')"
    using less.prems(1) w
    by (simp add: table_write_loop.simps [of K buf sec] hd_write_sector_retry_def split: if_splits)
  show ?case
  proof (cases "r = 0 \<or> limit \<le> sec + 1")
    case True
    then show ?thesis using e q1 k1 u less.prems(3) by auto
  next
    case False
    then have l: "\<not> limit \<le> sec + 1" "table_write_loop K buf (sec + 1) limit s1 = (sec', s')"
      using e by simp_all
    have "unat sec + 1 \<le> N"
      using l(1) u less.prems(4) by (simp add: word_le_nat_alt)
    then show ?thesis
      using less.hyps [OF below_limit_measure [OF l(1)] l(2)] less.prems u quietD(4) [OF q1]
        quiet_trans [OF q1] keeps_trans [OF k1] by auto
  qed
qed

lemma flush_table_loop_ok:
  assumes "sys_ok s" "\<forall>p \<in> set ps. \<exists>i. infos (core s) p = Some i \<and> length (reserverd (table i)) = 6"
    "unat (sector_reserve_start (core s)) \<le> unat idx" "unat idx \<le> unat (sector_table (core s)) + 32 + k"
    "unat (sector_reserve_start (core s)) \<le> unat bidx"
    "unat bidx \<le> unat (sector_reserve_start (core s)) + SWAP_TABLE_BACKUP_OFFSET + 32 + k"
    "k + length ps \<le> 256" "i \<le> 7" "length buf = 512" "\<forall>p \<in> set ps. p < next_info (core s)"
  shows "\<exists>i' buf' idx' bidx' s'. flush_table_loop K ps i buf idx bidx s = Some (i', buf', idx', bidx', s') \<and>
    quiet dsk {} s s' \<and> head (core s') = head (core s) \<and> length buf' = 512 \<and>
    unat (sector_reserve_start (core s)) \<le> unat idx' \<and>
    unat idx' \<le> unat (sector_table (core s)) + 32 + (k + length ps) \<and>
    unat (sector_reserve_start (core s)) \<le> unat bidx' \<and>
    unat bidx' \<le> unat (sector_reserve_start (core s)) + SWAP_TABLE_BACKUP_OFFSET + 32 + (k + length ps)"
  using assms
proof (induction ps arbitrary: i buf idx bidx s k)
  case Nil
  then show ?case by simp
next
  case (Cons p ps)
  note g = sys_okD(1) [OF Cons.prems(1)]
  obtain e where e: "infos (core s) p = Some e" "length (reserverd (table e)) = 6"
    using Cons.prems(2) by auto
  define e' where "e' = e\<lparr>table := (table e)\<lparr>save_sec := idx\<rparr>\<rparr>"
  define s1 where "s1 = set_info p e' s"
  define buf1 where "buf1 = overwrite (64 * i) (table_bytes (table e')) (if i = 0 then replicate 512 0 else buf)"
  have tb: "length (table_bytes (table e')) = 64" using e(2) by (simp add: e'_def length_table_bytes)
  have b1: "length buf1 = 512"
    using Cons.prems(8,9) tb by (simp add: buf1_def)
  have q1: "quiet dsk {} s s1" unfolding s1_def e'_def by (rule quiet_save [OF e(1)])
  have inf: "\<forall>p \<in> set ps. \<exists>i. infos (core t) p = Some i \<and> length (reserverd (table i)) = 6"
    if q: "quiet dsk {} s t" for t
  proof
    fix p' assume p': "p' \<in> set ps"
    then obtain i where i: "infos (core s) p' = Some i" "length (reserverd (table i)) = 6"
      using Cons.prems(2) by auto
    obtain i' where "infos (core t) p' = Some i'" "same_info i i'"
      using quiet_info [OF q i(1)] p' Cons.prems(10) by auto
    then show "\<exists>i. infos (core t) p' = Some i \<and> length (reserverd (table i)) = 6"
      using i(2) by (auto simp: same_info_def)
  qed
  have nx: "\<forall>p \<in> set ps. p < next_info (core t)" if "quiet dsk {} s t" for t
    using Cons.prems(10) quietD(9) [OF that] by auto
  let ?lim = "sector_table (core s1) + word_of_nat SWPA_TABLE_N_SECTOR"
  let ?blim = "sector_reserve_start (core s1) + word_of_nat SWAP_TABLE_BACKUP_OFFSET + word_of_nat SWPA_TABLE_N_SECTOR"
  have lim: "unat ?lim = unat (sector_table (core s)) + 32"
    "unat ?blim = unat (sector_reserve_start (core s)) + SWAP_TABLE_BACKUP_OFFSET + 32"
    using g by (simp_all add: s1_def geom_ok_def layout_simps unat_word_ariths)
  show ?case
  proof (cases "i = 7")
    case False
    then have "flush_table_loop K (p # ps) i buf idx bidx s = flush_table_loop K ps (i + 1) buf1 idx bidx s1"
      using e by (simp add: s1_def e'_def buf1_def Let_def)
    moreover note Cons.IH [of s1 idx "k + 1" bidx "i + 1" buf1]
    ultimately show ?thesis
      using Cons.prems quiet_sys_ok [OF q1] inf [OF q1] nx [OF q1] b1 False quiet_trans [OF q1]
      by (fastforce simp: s1_def)
  next
    case True
    obtain idx2 s2 where w2: "table_write_loop K buf1 idx ?lim s1 = (idx2, s2)" by fastforce
    obtain bidx3 s3 where w3: "table_write_loop K buf1 bidx ?blim s2 = (bidx3, s3)" by fastforce
    have 2: "quiet dsk {} s1 s2 \<and> keeps s1 s2 \<and> unat idx < unat idx2 \<and>
        unat idx2 \<le> unat (sector_table (core s)) + 32 + k + 1"
      using Cons.prems(3,4,7) g lim b1
      by (intro table_write_loop_ok [OF w2]) (simp_all add: s1_def geom_ok_def layout_simps)
    have q2: "quiet dsk {} s s2" using 2 quiet_trans [OF q1] by blast
    have 3: "quiet dsk {} s2 s3 \<and> keeps s2 s3 \<and> unat bidx < unat bidx3 \<and>
        unat bidx3 \<le> unat (sector_reserve_start (core s)) + SWAP_TABLE_BACKUP_OFFSET + 32 + k + 1"
      using Cons.prems(5-7) g lim b1 quietD(4) [OF q2]
      by (intro table_write_loop_ok [OF w3]) (simp_all add: s1_def geom_ok_def layout_simps)
    have q3: "quiet dsk {} s s3" using 3 quiet_trans [OF q2] by blast
    have "flush_table_loop K (p # ps) i buf idx bidx s = flush_table_loop K ps 0 buf1 idx2 bidx3 s3"
      using e True w2 w3 quietD(4) [OF q2]
      by (simp add: s1_def [symmetric] e'_def [symmetric] buf1_def [symmetric] Let_def)
        (simp add: s1_def e'_def buf1_def)
    moreover note Cons.IH [of s3 idx2 "k + 1" bidx3 0 buf1]
    ultimately show ?thesis
      using Cons.prems quiet_sys_ok [OF q3] inf [OF q3] nx [OF q3] b1 2 3 quietD(4,6) [OF q3]
        quiet_trans [OF q3]
      by (fastforce simp: s1_def keepsD)
  qed
qed

lemma flush_swap_info_table_ok:
  assumes sys: "sys_ok s"
    and ent: "entries_ok s"
  shows "\<exists>s'. flush_swap_info_table K s = Some (0, s') \<and> quiet dsk {} s s' \<and>
    head (core s') = head (core s)"
proof -
  note g = sys_okD(1) [OF sys]
  have ent': "\<forall>p \<in> set (info_list (core s)). p < next_info (core s) \<and>
      (\<exists>i. infos (core s) p = Some i \<and> length (reserverd (table i)) = 6)"
    and len: "length (info_list (core s)) \<le> 256"
    using ent by (auto simp: entries_ok_def split: option.splits)
  let ?idx = "sector_table (core s)"
  let ?bidx = "sector_reserve_start (core s) + word_of_nat SWAP_TABLE_BACKUP_OFFSET"
  have st: "unat (sector_reserve_start (core s)) \<le> unat ?idx" "unat ?idx \<le> unat (sector_table (core s)) + 32 + 0"
    "unat (sector_reserve_start (core s)) \<le> unat ?bidx"
    "unat ?bidx \<le> unat (sector_reserve_start (core s)) + SWAP_TABLE_BACKUP_OFFSET + 32 + 0"
    "unat (?idx + word_of_nat SWPA_TABLE_N_SECTOR) = unat (sector_table (core s)) + 32"
    "unat (?bidx + word_of_nat SWPA_TABLE_N_SECTOR) =
      unat (sector_reserve_start (core s)) + SWAP_TABLE_BACKUP_OFFSET + 32"
    using g by (simp_all add: geom_ok_def layout_simps unat_word_ariths)
  obtain i buf idx bidx s1 where 1:
    "flush_table_loop K (info_list (core s)) 0 (replicate 512 0) ?idx ?bidx s = Some (i, buf, idx, bidx, s1)"
    "quiet dsk {} s s1" "head (core s1) = head (core s)" "length buf = 512"
    "unat (sector_reserve_start (core s)) \<le> unat idx" "unat idx \<le> unat (sector_table (core s)) + 32 + 256"
    "unat (sector_reserve_start (core s)) \<le> unat bidx"
    "unat bidx \<le> unat (sector_reserve_start (core s)) + SWAP_TABLE_BACKUP_OFFSET + 32 + 256"
    using flush_table_loop_ok [OF sys _ st(1-4), of "info_list (core s)" 0 "replicate 512 0"] ent' len
    by fastforce
  show ?thesis
  proof (cases "i = 0")
    case True
    then show ?thesis using 1 by (auto simp: flush_swap_info_table_def)
  next
    case False
    let ?lim = "sector_table (core s1) + word_of_nat SWPA_TABLE_N_SECTOR"
    obtain x2 s2 where w2: "table_write_loop K buf idx ?lim s1 = (x2, s2)" by fastforce
    have 2: "quiet dsk {} s1 s2 \<and> keeps s1 s2 \<and> unat idx < unat x2 \<and>
        unat x2 \<le> unat (sector_table (core s)) + 32 + 256 + 1"
      using 1 st g quietD(4,6) [OF 1(2)]
      by (intro table_write_loop_ok [OF w2]) (simp_all add: geom_ok_def layout_simps)
    have q2: "quiet dsk {} s s2" using 2 quiet_trans [OF 1(2)] by blast
    let ?blim = "sector_reserve_start (core s2) + word_of_nat SWAP_TABLE_BACKUP_OFFSET + word_of_nat SWPA_TABLE_N_SECTOR"
    obtain x3 s3 where w3: "table_write_loop K buf bidx ?blim s2 = (x3, s3)" by fastforce
    have 3: "quiet dsk {} s2 s3 \<and> keeps s2 s3 \<and> unat bidx < unat x3 \<and>
        unat x3 \<le> unat (sector_reserve_start (core s)) + SWAP_TABLE_BACKUP_OFFSET + 32 + 256 + 1"
      using 1 st g quietD(4,6) [OF q2]
      by (intro table_write_loop_ok [OF w3]) (simp_all add: geom_ok_def layout_simps)
    have "flush_swap_info_table K s = Some (0, s3)"
      using 1(1) False w2 w3 by (simp add: flush_swap_info_table_def)
    then show ?thesis
      using 2 3 quiet_trans [OF q2] 1(3) by (auto simp: keepsD)
  qed
qed

subsection \<open>Writing through a mapping\<close>

lemma flush_data_ok:
  assumes sys: "sys_ok s" and i: "info_ok (core s) i" "sdata i = Some d"
    and e: "flush_swap_info_data K i s = (ret, s')"
  shows "quiet dsk A s s'" "keeps s s'"
    "ret = 0 \<Longrightarrow> sectors_at (dsk (world s')) (unat (swap_sec (table i))) 128 = d" "ret = 0 \<or> ret = - 1"
proof -
  have len: "length d = 65536" "sec_size (table i) = 128" using i by (auto simp: info_ok_def)
  note b = swap_sec_bounds [OF i(1) sys_okD(1) [OF sys]]
  have w: "hd_write_sector K (swap_sec (table i)) 128 (Some d) 10 5 s = (ret, s')"
    using e i len by (simp add: flush_swap_info_data_def hd_write_sector_retry_def)
  show "quiet dsk A s s'" using b len by (intro hd_write_quiet [OF w]) simp_all
  show "keeps s s'" using keeps_io [OF io_step_hd_write [OF w]] .
  show "sectors_at (dsk (world s')) (unat (swap_sec (table i))) 128 = d" if "ret = 0"
    using hd_write_stored [of "swap_sec (table i)" 128 d 10 5 s s'] w that b len by simp
  show "ret = 0 \<or> ret = - 1" using hd_write_code [OF w] .
qed

lemma u_swap_write_ok:
  assumes sys: "sys_ok s" and i: "infos (core s) p = Some i" "info_ok (core s) i" "sdata i = Some d"
    and p: "p < next_info (core s)" and sec: "unat sec < 2 ^ 32"
    and len: "512 * (unat sec mod 128) + length buf \<le> 65536"
  defines "i' \<equiv> i\<lparr>sdata := Some (overwrite (512 * (unat sec mod 128)) buf d)\<rparr>"
  shows "\<exists>ret s'. u_swap_write K p sec buf s = Some (ret, s') \<and> quiet dsk {p} s s' \<and>
    (ret = 0 \<or> ret = - 1) \<and> head (core s') = head (core s) \<and>
    infos (core s') = (infos (core s))(p \<mapsto> i') \<and> info_ok (core s') i' \<and>
    (ret = 0 \<longrightarrow> sectors_at (dsk (world s')) (unat (swap_sec (table i'))) 128 = the (sdata i'))"
proof -
  let ?off = "512 * (unat sec mod 128)"
  have ld: "length d = 65536" using i by (simp add: info_ok_def)
  define s1 where "s1 = set_info p i' s"
  have q1: "quiet dsk {p} s s1" unfolding s1_def using p by (intro quiet_set_info) simp_all
  have ok1: "info_ok (core s1) i'"
    using info_ok_data [OF i(2,3), of "overwrite (512 * (unat sec mod 128)) buf d"] ld len
      info_ok_core [of "core s1" "core s" i'] by (simp add: i'_def s1_def)
  have sd: "sdata i' = Some (overwrite ?off buf d)" by (simp add: i'_def)
  obtain ret s' where f: "flush_swap_info_data K i' s1 = (ret, s')" by fastforce
  note fl = flush_data_ok [OF quiet_sys_ok [OF q1 sys] ok1 sd f]
  have "u_swap_write K p sec buf s = Some (if ret \<noteq> 0 then (- 1, s') else (0, s'))"
    using i f len ld write_offset [OF sec]
    by (simp add: u_swap_write_def memwrite_def s1_def i'_def Let_def)
  moreover have "info_ok (core s') i'"
    using ok1 quietD(4,7) [OF fl(1)] info_ok_core [of "core s'" "core s1" i'] by simp
  ultimately show ?thesis
    using quiet_trans [OF q1 fl(1)] fl(2,3,4) sd by (auto simp: keepsD s1_def)
qed

lemma recreate_read_ok:
  assumes "infos (core s) p = Some i" "sdata i = Some d" "length d = 65536" "p < next_info (core s)"
    "k + n = 128"
  shows "\<exists>s' d'. recreate_read_loop K p k n s = Some s' \<and> quiet dsk {p} s s' \<and>
    infos (core s') = (infos (core s))(p \<mapsto> i\<lparr>sdata := Some d'\<rparr>) \<and> length d' = 65536 \<and>
    head (core s') = head (core s)"
  using assms
proof (induction n arbitrary: k s i d)
  case 0
  then show ?case by (auto intro!: exI [of _ d])
next
  case (Suc n)
  obtain ret s1 d1 where 1: "read_into K p (swap_sec (table i) + word_of_nat k) 1 (k * 512) s = Some (ret, s1)"
    "quiet dsk {p} s s1" "infos (core s1) = (infos (core s))(p \<mapsto> i\<lparr>sdata := Some d1\<rparr>)"
    "length d1 = length d" "head (core s1) = head (core s)"
    using read_into_ok [OF Suc.prems(1,2), of "k * 512" 1 "swap_sec (table i) + word_of_nat k"] Suc.prems(3-5)
    by fastforce
  define d2 where "d2 = (if ret \<noteq> 0 then overwrite (k * 512) (replicate 512 0) d1 else d1)"
  define s2 where "s2 = (if ret \<noteq> 0 then set_info p (i\<lparr>sdata := Some d2\<rparr>) s1 else s1)"
  have l2: "length d2 = 65536" using 1(4) Suc.prems(3,5) by (simp add: d2_def)
  have p1: "p < next_info (core s1)" using quietD(9) [OF 1(2)] Suc.prems(4) by simp
  have q2: "quiet dsk {p} s s2"
    using quiet_trans [OF 1(2) quiet_set_info [OF _ p1]] 1(2) by (simp add: s2_def)
  have i2: "infos (core s2) = (infos (core s))(p \<mapsto> i\<lparr>sdata := Some d2\<rparr>)" "head (core s2) = head (core s)"
    using 1 by (auto simp: s2_def d2_def)
  have p2: "p < next_info (core s2)" using quietD(9) [OF q2] Suc.prems(4) by simp
  have "recreate_read_loop K p k (Suc n) s = recreate_read_loop K p (k + 1) n s2"
    using Suc.prems 1 l2 by (auto simp: s2_def d2_def memwrite_def Let_def)
  moreover obtain s3 d3 where 3: "recreate_read_loop K p (k + 1) n s2 = Some s3" "quiet dsk {p} s2 s3"
    "infos (core s3) = (infos (core s2))(p \<mapsto> i\<lparr>sdata := Some d3\<rparr>)" "length d3 = 65536"
    "head (core s3) = head (core s2)"
    using Suc.IH [of s2 "i\<lparr>sdata := Some d2\<rparr>" d2 "k + 1"] i2 l2 p2 Suc.prems(5) by fastforce
  ultimately show ?case
    using quiet_trans [OF q2 3(2)] i2 by (intro exI [of _ s3] exI [of _ d3]) (simp del: recreate_read_loop.simps)
qed

text \<open>The end of \<^verbatim>\<open>swap_recreate\<close>: data, table and head are written, or the block is given back.\<close>

lemma recreate_flush_ok:
  assumes sys: "sys_ok s" and ent: "entries_ok s"
    and i: "infos (core s) p = Some i" "info_ok (core s) i" "sdata i = Some d" "p < next_info (core s)"
    and n: "n < 1024"
  defines "run \<equiv> (let (ret, s) = flush_swap_info_data K i s in
    if ret \<noteq> 0 then Some (- 1 :: int, mark_block n False s)
    else do {
      (ret, s) \<leftarrow> flush_swap_info_table K s;
      if ret \<noteq> 0 then Some (- 1, mark_block n False s)
      else let (ret, s) = flush_swap_head K s in
        if ret \<noteq> 0 then Some (- 1, mark_block n False s) else Some (0, s)
    })"
  shows "\<exists>ret s' i'. run = Some (ret, s') \<and> quiet dsk {} s s' \<and> (ret = 0 \<or> ret = - 1) \<and>
    infos (core s') p = Some i' \<and> same_info i i' \<and>
    (\<forall>m. m \<noteq> n \<longrightarrow> used s m \<longrightarrow> used s' m) \<and> (ret = 0 \<longrightarrow> used s n \<longrightarrow> used s' n)"
proof -
  obtain r1 s1 where 1: "flush_swap_info_data K i s = (r1, s1)" by fastforce
  note f1 = flush_data_ok [OF sys i(2,3) 1]
  have i1: "infos (core s1) p = Some i" using f1(2) i(1) by (simp add: keepsD)
  show ?thesis
  proof (cases "r1 = 0")
    case False
    have "used (mark_block n False s1) m = (m \<noteq> n \<and> used s m)" for m
      using used_mark [OF sys_okD(2) [OF quiet_sys_ok [OF f1(1) sys]] n, of False m] f1(2) by (simp add: keepsD)
    then show ?thesis
      using 1 i1 quiet_trans [OF f1(1) quiet_mark] False by (auto simp: run_def)
  next
    case True
    have e1: "entries_ok s1"
      using ent quietD(1,9) [OF f1(1)] f1(2) by (auto simp: entries_ok_def keepsD)
    obtain s2 where 2: "flush_swap_info_table K s1 = Some (0, s2)" "quiet dsk {} s1 s2"
      "head (core s2) = head (core s1)"
      using flush_swap_info_table_ok [OF quiet_sys_ok [OF f1(1) sys] e1] by blast
    have q2: "quiet dsk {} s s2" using quiet_trans [OF f1(1) 2(2)] .
    obtain i2 where i2: "infos (core s2) p = Some i2" "same_info i i2"
      using quiet_info [OF q2 i(1,4)] by auto
    obtain r3 s3 where 3: "flush_swap_head K s2 = (r3, s3)" by fastforce
    note f3 = flush_swap_head_quiet [OF quiet_sys_ok [OF q2 sys] 3]
    have q3: "quiet dsk {} s s3" using quiet_trans [OF q2 f3(1)] .
    have u3: "used s3 m = used s m" for m using f3(4) 2(3) f1(2) by (simp add: keepsD)
    have "used (mark_block n False s3) m = (m \<noteq> n \<and> used s m)" for m
      using used_mark [OF sys_okD(2) [OF quiet_sys_ok [OF q3 sys]] n, of False m] u3 by simp
    then show ?thesis
      using 1 True 2(1) 3 i2 f3(2) q3 quiet_trans [OF q3 quiet_mark] u3
      by (cases "r3 = 0") (auto simp: run_def)
  qed
qed

lemma swap_recreate_ok:
  assumes sys: "sys_ok s" and ent: "entries_ok s"
    and i: "infos (core s) p = Some i" "info_ok (core s) i" "p < next_info (core s)"
  shows "\<exists>ret s' i'. swap_recreate K p s = Some (ret, s') \<and> quiet dsk {p} s s' \<and> (ret = 0 \<or> ret = - 1) \<and>
    infos (core s') p = Some i' \<and> info_ok (core s') i' \<and> src_sec (table i') = src_sec (table i) \<and>
    (\<forall>m. used s m \<longrightarrow> used s' m) \<and>
    (ret = 0 \<longrightarrow> \<not> used s (unat (tindex (table i'))) \<and> used s' (unat (tindex (table i'))))"
proof (cases "info_num (core s) \<ge> MAX_SWAP_BLOCK_FOR_USE")
  case True
  then show ?thesis using i by (auto simp: swap_recreate_def)
next
  case False
  obtain r s1 where a: "u_swap_alloc_new_block K s = (r, s1)" by fastforce
  note al = alloc_new_block_ok [OF a sys]
  show ?thesis
  proof (cases "r = - 1")
    case True
    have "info_ok (core s1) i"
      using i(2) info_ok_core [of "core s1" "core s" i] quietD(4,7) [OF al(1)] by simp
    then show ?thesis using a al i False True by (auto simp: swap_recreate_def)
  next
    case r: False
    then obtain n where n: "n < 1024" "r = int n" "\<not> used s n" "used s1 n" using al(4) by blast
    obtain d where d: "sdata i = Some d" "length d = 65536"
      using i(2) by (auto simp: info_ok_def split: option.splits)
    have p1: "infos (core s1) p = Some i" "p < next_info (core s1)"
      using al(2) i quietD(9) [OF al(1)] by simp_all
    obtain s2 d2 where 2: "recreate_read_loop K p 0 128 s1 = Some s2" "quiet dsk {p} s1 s2"
      "infos (core s2) = (infos (core s1))(p \<mapsto> i\<lparr>sdata := Some d2\<rparr>)" "length d2 = 65536"
      "head (core s2) = head (core s1)"
      using recreate_read_ok [OF p1(1) d p1(2), of 0 128] by auto
    define i3 where "i3 = i\<lparr>sdata := Some d2, table := map_entry (core s2) r (table i)\<rparr>"
    define s3 where "s3 = set_info p i3 s2"
    have q2: "quiet dsk {p} s s2" using quiet_trans [OF al(1) 2(2)] .
    have p2: "p < next_info (core s2)" using quietD(9) [OF q2] i(3) by simp
    have q3: "quiet dsk {p} s s3"
      unfolding s3_def using quiet_trans [OF q2 quiet_set_info [OF _ p2]] by simp
    note me = info_ok_map_entry [OF i(2) n(1) 2(4) quietD(4,7) [OF q2]]
    have i3: "infos (core s3) p = Some i3" "info_ok (core s3) i3" "sdata i3 = Some d2" "p < next_info (core s3)"
      using me(1) info_ok_core [of "core s3" "core s" i3] quietD(4,7) [OF q3] p2 n(2)
      by (simp_all add: s3_def i3_def)
    have e3: "entries_ok s3"
      using entries_ok_quiet [OF q3 ent i3(1)] i3(2) by (simp add: info_ok_def)
    have u3: "used s3 m = used s1 m" for m by (simp add: s3_def 2(5))
    obtain ret s' i' where 4: "(let (ret, s) = flush_swap_info_data K i3 s3 in
        if ret \<noteq> 0 then Some (- 1 :: int, mark_block (nat r) False s)
        else do {
          (ret, s) \<leftarrow> flush_swap_info_table K s;
          if ret \<noteq> 0 then Some (- 1, mark_block (nat r) False s)
          else let (ret, s) = flush_swap_head K s in
            if ret \<noteq> 0 then Some (- 1, mark_block (nat r) False s) else Some (0, s)
        }) = Some (ret, s')" "quiet dsk {} s3 s'" "ret = 0 \<or> ret = - 1"
      "infos (core s') p = Some i'" "same_info i3 i'"
      "\<forall>m. m \<noteq> n \<longrightarrow> used s3 m \<longrightarrow> used s' m" "ret = 0 \<longrightarrow> used s3 n \<longrightarrow> used s' n"
      using recreate_flush_ok [OF quiet_sys_ok [OF q3 sys] e3 i3, of "nat r"] n(1,2)
      by (simp only: nat_int) blast
    have "s3 = s2\<lparr>core := (core s2)\<lparr>infos := (infos (core s1))(p \<mapsto> i3)\<rparr>\<rparr>"
      by (simp add: s3_def 2(3))
    then have run: "swap_recreate K p s = Some (ret, s')"
      using a r False 2(1,3) 4(1) unfolding swap_recreate_def
      by (simp add: i3_def [symmetric] Let_def)
    have q: "quiet dsk {p} s s'" using quiet_trans [OF q3 quiet_mono [OF 4(2)]] by simp
    have "info_ok (core s') i'"
      using i3(2) same_info_ok [OF 4(5)] info_ok_core [of "core s'" "core s3" i3] quietD(4,7) [OF 4(2)]
      by simp
    moreover have "src_sec (table i') = src_sec (table i)" "unat (tindex (table i')) = n"
      using same_infoD(2,4) [OF 4(5)] me(2,3) n(2) by (simp_all add: i3_def)
    moreover have "used s' m" if "used s m" for m
      using that al(3) 4(6) u3 n(3) by metis
    ultimately show ?thesis
      using run q 4(3,4,7) n u3 by auto
  qed
qed

lemma swap_write_ok:
  assumes sys: "sys_ok s" and ent: "entries_ok s"
    and i: "infos (core s) p = Some i" "info_ok (core s) i" "sdata i = Some d" "p < next_info (core s)"
    and sec: "unat sec < 2 ^ 32" and len: "512 * (unat sec mod 128) + length buf \<le> 65536"
  shows "\<exists>ret s' i' d'. swap_write K p sec buf s = Some (ret, s') \<and> quiet dsk {p} s s' \<and>
    (ret = 0 \<or> ret = - 1 \<or> ret = - 0xaa) \<and>
    infos (core s') p = Some i' \<and> info_ok (core s') i' \<and> sdata i' = Some d' \<and>
    src_sec (table i') = src_sec (table i) \<and> (\<forall>m. used s m \<longrightarrow> used s' m) \<and>
    (ret \<noteq> - 1 \<longrightarrow> slice (512 * (unat sec mod 128)) (length buf) d' = buf \<and>
      sectors_at (dsk (world s')) (unat (swap_sec (table i'))) 128 = d') \<and>
    (ret = 0 \<longrightarrow> d' = overwrite (512 * (unat sec mod 128)) buf d \<and> table i' = table i \<and>
      head (core s') = head (core s)) \<and>
    (ret = - 0xaa \<longrightarrow> \<not> used s (unat (tindex (table i'))) \<and> used s' (unat (tindex (table i'))))"
proof -
  let ?off = "512 * (unat sec mod 128)"
  have ld: "length d = 65536" using i(2,3) by (simp add: info_ok_def)
  let ?i1 = "i\<lparr>sdata := Some (overwrite ?off buf d)\<rparr>"
  obtain r1 s1 where 1: "u_swap_write K p sec buf s = Some (r1, s1)" "quiet dsk {p} s s1" "r1 = 0 \<or> r1 = - 1"
    "head (core s1) = head (core s)" "infos (core s1) = (infos (core s))(p \<mapsto> ?i1)" "info_ok (core s1) ?i1"
    "r1 = 0 \<longrightarrow> sectors_at (dsk (world s1)) (unat (swap_sec (table i))) 128 = overwrite ?off buf d"
    using u_swap_write_ok [OF sys i sec len] by auto
  have sl: "slice ?off (length buf) (overwrite ?off buf e) = buf" if "length e = 65536" for e
    using that len by (intro slice_overwrite_same) simp_all
  show ?thesis
  proof (cases "r1 = 0")
    case True
    then show ?thesis using 1 sl [OF ld] by (auto simp: swap_write_def)
  next
    case False
    have p1: "infos (core s1) p = Some ?i1" "p < next_info (core s1)"
      using 1(5) quietD(9) [OF 1(2)] i(4) by simp_all
    have e1: "entries_ok s1" using entries_ok_quiet [OF 1(2) ent p1(1)] i(2) by (simp add: info_ok_def)
    obtain r2 s2 i2 where 2: "swap_recreate K p s1 = Some (r2, s2)" "quiet dsk {p} s1 s2" "r2 = 0 \<or> r2 = - 1"
      "infos (core s2) p = Some i2" "info_ok (core s2) i2" "src_sec (table i2) = src_sec (table i)"
      "\<forall>m. used s1 m \<longrightarrow> used s2 m"
      "r2 = 0 \<longrightarrow> \<not> used s1 (unat (tindex (table i2))) \<and> used s2 (unat (tindex (table i2)))"
      using swap_recreate_ok [OF quiet_sys_ok [OF 1(2) sys] e1 p1(1) 1(6) p1(2)] by auto
    obtain d2 where d2: "sdata i2 = Some d2" "length d2 = 65536"
      using 2(5) by (auto simp: info_ok_def split: option.splits)
    have q2: "quiet dsk {p} s s2" using quiet_trans [OF 1(2) 2(2)] .
    show ?thesis
    proof (cases "r2 = 0")
      case r2: False
      then show ?thesis
        using False 1(1,3,4) 2 d2 q2 by (auto simp: swap_write_def)
    next
      case r2: True
      have p2: "p < next_info (core s2)" using quietD(9) [OF q2] i(4) by simp
      let ?i3 = "i2\<lparr>sdata := Some (overwrite ?off buf d2)\<rparr>"
      obtain r3 s3 where 3: "u_swap_write K p sec buf s2 = Some (r3, s3)" "quiet dsk {p} s2 s3" "r3 = 0 \<or> r3 = - 1"
        "head (core s3) = head (core s2)" "infos (core s3) = (infos (core s2))(p \<mapsto> ?i3)" "info_ok (core s3) ?i3"
        "r3 = 0 \<longrightarrow> sectors_at (dsk (world s3)) (unat (swap_sec (table i2))) 128 = overwrite ?off buf d2"
        using u_swap_write_ok [OF quiet_sys_ok [OF q2 sys] 2(4,5) d2(1) p2 sec len] by auto
      then show ?thesis
        using False r2 1(1,3,4) 2 sl [OF d2(2)] quiet_trans [OF q2 3(2)] by (auto simp: swap_write_def)
    qed
  qed
qed

end

end
