(* ===== verification/Core_RW.thy ===== *)
theory Core_RW
  imports Core_Map
begin

text \<open>
  The read and write entry points against the view of the users: a write that succeeds updates the
  range it was given, a read returns what the view holds, and neither touches a block the request
  does not touch.
\<close>

subsection \<open>The view after the basic steps\<close>

lemma io_step_core_ok:
  assumes "io_step s s'" "core_ok s"
  shows "core_ok s'"
  using quiet_core_ok [OF quiet_io_step [OF assms(1), of "\<lambda>w m. []" "{}"] assms(2)] by simp

lemma core_ok_entries: "core_ok s \<Longrightarrow> entries_ok s"
  using infos_okD [OF core_okD(2)]
  by (fastforce simp: entries_ok_def core_ok_def infos_ok_def info_ok_def)

lemma logical_mapped:
  assumes "find_src (core s) (128 * (m div 128)) = Some p" "infos (core s) p = Some i" "sdata i = Some d"
  shows "logical dsk s m = slice (512 * (m mod 128)) 512 d"
  using assms by (simp add: logical_def)

lemma quiet_one:
  assumes q: "quiet dsk {p} s s'" and ok: "core_ok s" and p: "p \<in> set (info_list (core s))"
    and i: "infos (core s) p = Some i"
    and i': "infos (core s') p = Some i'" "info_ok (core s') i'" "src_sec (table i') = src_sec (table i)"
      "sdata i' = Some d'"
  shows "core_ok s'"
    "m < unat (sector_reserve_start (core s)) \<Longrightarrow> logical dsk s' m =
      (if 128 * (m div 128) = src_of (core s) p then slice (512 * (m mod 128)) 512 d' else logical dsk s m)"
proof -
  note io = core_okD(2) [OF ok]
  have src: "src_of (core s') p = src_of (core s) p" using i i' by (simp add: src_of_def)
  have A: "\<exists>i'. infos (core s') q = Some i' \<and> info_ok (core s') i' \<and> src_of (core s') q = src_of (core s) q"
    if "q \<in> {p}" for q
    using that i' src by auto
  note f = quiet_infos_ok [OF q io A]
  show "core_ok s'" using f(1) quiet_sys_ok [OF q core_okD(1) [OF ok]] by (simp add: core_ok_def)
  assume m: "m < unat (sector_reserve_start (core s))"
  show "logical dsk s' m = (if 128 * (m div 128) = src_of (core s) p
      then slice (512 * (m mod 128)) 512 d' else logical dsk s m)"
  proof (cases "find_src (core s) (128 * (m div 128))")
    case None
    then have "128 * (m div 128) \<noteq> src_of (core s) p" using p by (auto simp: find_src_None)
    then show ?thesis using None f(2) quietD(10) [OF q m] by (simp add: logical_def)
  next
    case (Some r)
    note r = find_src_Some [OF Some]
    show ?thesis
    proof (cases "r = p")
      case True
      then show ?thesis using r Some f(2) i' by (simp add: logical_def)
    next
      case False
      have "128 * (m div 128) \<noteq> src_of (core s) p"
        using find_src_unique [OF io p] Some False by auto
      moreover obtain j where j: "infos (core s) r = Some j" "r < next_info (core s)"
        using infos_okD [OF io r(1)] by blast
      moreover obtain j' where "infos (core s') r = Some j'" "same_info j j'"
        using quiet_info [OF q j] False by auto
      ultimately show ?thesis using Some f(2) by (simp add: logical_def same_infoD(1))
    qed
  qed
qed

text \<open>A new object at the end of the list.\<close>

definition add_info :: "nat \<Rightarrow> 'w sdev \<Rightarrow> 'w sdev" where
  "add_info p s = upd_core (\<lambda>c. c\<lparr>info_num := info_num c + 1\<rparr>) (append_info p s)"

lemma find_src_append:
  assumes "info_list c' = info_list c @ [p]" "infos c' = infos c" "find_src c (src_of c p) = None"
  shows "find_src c' b = (if b = src_of c p then Some p else find_src c b)"
proof -
  have "src_of c' = src_of c" by (simp add: src_of_def assms(2) fun_eq_iff)
  moreover have "List.find P (xs @ [x]) = (case List.find P xs of None \<Rightarrow> if P x then Some x else None | Some y \<Rightarrow> Some y)"
    for P and xs :: "nat list" and x
    by (induction xs) auto
  ultimately show ?thesis
    using assms(1,3) by (auto simp: find_src_def split: option.splits)
qed

lemma add_info_ok:
  assumes ok: "core_ok s" and p: "p \<notin> set (info_list (core s))" "p < next_info (core s)"
    and i: "infos (core s) p = Some i" "info_ok (core s) i" "sdata i = Some d"
    and new: "find_src (core s) (src_of (core s) p) = None" and len: "info_num (core s) < 128"
  shows "core_ok (add_info p s)"
    "logical dsk (add_info p s) m =
      (if 128 * (m div 128) = src_of (core s) p then slice (512 * (m mod 128)) 512 d else logical dsk s m)"
proof -
  note io = core_okD(2) [OF ok, unfolded infos_ok_def]
  let ?c = "core (add_info p s)"
  have c: "info_list ?c = info_list (core s) @ [p]" "infos ?c = infos (core s)"
    "info_num ?c = info_num (core s) + 1" "next_info ?c = next_info (core s)" "head ?c = head (core s)"
    "world (add_info p s) = world s" "slog (add_info p s) = slog s"
    by (simp_all add: add_info_def append_info_def)
  have so: "src_of ?c = src_of (core s)" by (simp add: src_of_def c fun_eq_iff)
  have iok: "info_ok ?c j = info_ok (core s) j" for j by (simp add: info_ok_def add_info_def append_info_def)
  have "sys_ok (add_info p s)"
    using core_okD(1) [OF ok] by (simp add: sys_ok_def geom_ok_def add_info_def append_info_def)
  moreover have "infos_ok ?c"
    using io p i new len unfolding infos_ok_def c so iok by (auto simp: find_src_None)
  ultimately show "core_ok (add_info p s)" by (simp add: core_ok_def)
  have "find_src ?c b = (if b = src_of (core s) p then Some p else find_src (core s) b)" for b
    by (rule find_src_append [OF c(1,2) new])
  then show "logical dsk (add_info p s) m =
      (if 128 * (m div 128) = src_of (core s) p then slice (512 * (m mod 128)) 512 d else logical dsk s m)"
    using i by (simp add: logical_def c cong: option.case_cong)
qed

lemma quiet_info_num:
  assumes "quiet dsk A s s'"
  shows "quiet dsk A (upd_core (\<lambda>c. c\<lparr>info_num := info_num c + 1\<rparr>) s)
    (upd_core (\<lambda>c. c\<lparr>info_num := info_num c + 1\<rparr>) s')"
proof -
  obtain d h f n where e: "core s' = (core s)\<lparr>device_dead := d, head := h, infos := f, next_info := n\<rparr>"
    using assms by (auto simp: quiet_def)
  then have "core (upd_core (\<lambda>c. c\<lparr>info_num := info_num c + 1\<rparr>) s') =
    (core (upd_core (\<lambda>c. c\<lparr>info_num := info_num c + 1\<rparr>) s))
      \<lparr>device_dead := d, head := h, infos := f, next_info := n\<rparr>"
    by simp
  then have x: "\<exists>d h f n. core (upd_core (\<lambda>c. c\<lparr>info_num := info_num c + 1\<rparr>) s') =
    (core (upd_core (\<lambda>c. c\<lparr>info_num := info_num c + 1\<rparr>) s))
      \<lparr>device_dead := d, head := h, infos := f, next_info := n\<rparr>"
    by blast
  show ?thesis
    unfolding quiet_def by (rule conjI, rule x) (use assms in \<open>simp add: quiet_def\<close>)
qed

subsection \<open>What a write does to the view\<close>

text \<open>Sector \<open>m\<close> lies in a block that the sectors \<open>a, \<dots>, a + n - 1\<close> touch.\<close>

definition touches :: "nat \<Rightarrow> nat \<Rightarrow> nat \<Rightarrow> bool" where
  "touches a n m \<longleftrightarrow> (\<exists>k < n. m div 128 = (a + k) div 128)"

text \<open>
  The write of \<open>buf\<close> to the \<open>n\<close> sectors from \<open>a\<close>. Blocks that are not touched keep their contents
  in any case; when it is \<open>done\<close>, the range holds the data; when it is also \<open>clean\<close>, everything
  outside the range is as before.
\<close>

definition wrote :: "('w \<Rightarrow> nat \<Rightarrow> byte list) \<Rightarrow> nat \<Rightarrow> nat \<Rightarrow> byte list \<Rightarrow> bool \<Rightarrow> bool \<Rightarrow>
    'w sdev \<Rightarrow> 'w sdev \<Rightarrow> bool" where
  "wrote dsk a n buf fin clean s s' \<longleftrightarrow>
     core_ok s' \<and> sector_reserve_start (core s') = sector_reserve_start (core s) \<and>
     user (core s') = user (core s) \<and>
     (\<forall>m < unat (sector_reserve_start (core s)). \<not> touches a n m \<longrightarrow> logical dsk s' m = logical dsk s m) \<and>
     (fin \<longrightarrow> (\<forall>k < n. logical dsk s' (a + k) = slice (512 * k) 512 buf)) \<and>
     (fin \<and> clean \<longrightarrow> (\<forall>m < unat (sector_reserve_start (core s)).
        m < a \<or> a + n \<le> m \<longrightarrow> logical dsk s' m = logical dsk s m))"

lemma touches_add: "touches a (n + k) m \<longleftrightarrow> touches a n m \<or> touches (a + n) k m"
proof -
  have "(\<exists>j < n + k. P j) \<longleftrightarrow> (\<exists>j < n. P j) \<or> (\<exists>j < k. P (n + j))" for P
    by (metis add_diff_inverse_nat add_less_cancel_left not_less trans_less_add1)
  then show ?thesis by (simp add: touches_def add.assoc)
qed

lemma in_block:
  assumes "a mod 128 + k < (128 :: nat)"
  shows "(a + k) div 128 = a div 128" "(a + k) mod 128 = a mod 128 + k"
proof -
  have "a + k = 128 * (a div 128) + (a mod 128 + k)" by simp
  moreover have "(128 * q + r) div 128 = q" "(128 * q + r) mod 128 = r" if "r < 128" for q r :: nat
    using that by simp_all
  ultimately show "(a + k) div 128 = a div 128" "(a + k) mod 128 = a mod 128 + k"
    using assms by metis+
qed

lemma touches_block: "0 < n \<Longrightarrow> a mod 128 + n \<le> 128 \<Longrightarrow> touches a n m \<longleftrightarrow> m div 128 = a div 128"
  unfolding touches_def using in_block(1) [of a] by (metis add_less_cancel_left less_le_trans)

lemma slice_chunk:
  assumes "slice (512 * o1) (512 * n) d = chunk" "k < n"
  shows "slice (512 * (o1 + k)) 512 d = slice (512 * k) 512 (chunk :: byte list)"
  using assms(2) slice_slice [of "512 * k" 512 "512 * n" "512 * o1" d]
  by (simp add: assms(1) [symmetric] algebra_simps)

lemma quiet_wrote:
  assumes "quiet dsk A s s'" "core_ok s" "A \<inter> set (info_list (core s)) = {}"
  shows "wrote dsk a n buf False c s s'"
  using quiet_core_ok [OF assms] quiet_logical [OF assms] quietD(3,4) [OF assms(1)]
  by (simp add: wrote_def)

lemma touches_inside: "a \<le> m \<Longrightarrow> m < a + n \<Longrightarrow> touches a n m"
  unfolding touches_def by (rule exI [of _ "m - a"]) simp

lemma not_touches_below:
  "(a + n) mod 128 = 0 \<Longrightarrow> m < a + n \<Longrightarrow> \<not> touches (a + n) k m"
  unfolding touches_def by (metis add.commute div_less_iff_less_mult div_mult_mod_eq add.right_neutral
      div_le_mono le_add2 not_less zero_less_numeral)

lemma wrote_unfinished: "wrote dsk a n buf False True s s' \<longleftrightarrow> wrote dsk a n buf False False s s'"
  by (simp add: wrote_def)

lemma wrote_rebase:
  assumes "\<forall>m. m < a \<or> a + n \<le> m \<longrightarrow> logical dsk s1 m = logical dsk s m"
    "sector_reserve_start (core s1) = sector_reserve_start (core s)" "user (core s1) = user (core s)"
    "wrote dsk a n buf fin clean s1 s'"
  shows "wrote dsk a n buf fin clean s s'"
proof -
  have "logical dsk s1 m = logical dsk s m" if "\<not> touches a n m" for m
    using that touches_inside [of a m n] assms(1) by (meson not_less)
  then show ?thesis using assms unfolding wrote_def by simp
qed

lemma wrote_comp:
  assumes 1: "wrote dsk a n b1 True c1 s s1" and 2: "wrote dsk (a + n) k b2 fin c2 s1 s2"
    and len: "length b1 = 512 * n" and edge: "(a + n) mod 128 = 0"
    and R: "a + n \<le> unat (sector_reserve_start (core s))"
  shows "wrote dsk a (n + k) (b1 @ b2) fin (c1 \<and> c2) s s2"
proof -
  note w1 = 1 [unfolded wrote_def] and w2 = 2 [unfolded wrote_def]
  have keep: "logical dsk s2 m = logical dsk s1 m" if "m < a + n" for m
    using w2 w1 that R not_touches_below [OF edge that] by simp
  have "logical dsk s2 (a + j) = slice (512 * j) 512 (b1 @ b2)" if "fin" "j < n + k" for j
  proof (cases "j < n")
    case True
    then have "slice (512 * j) 512 (b1 @ b2) = slice (512 * j) 512 b1"
      using len by (simp add: slice_def)
    then show ?thesis using True keep [of "a + j"] w1 by simp
  next
    case False
    then have "slice (512 * j) 512 (b1 @ b2) = slice (512 * (j - n)) 512 b2"
      using len by (simp add: slice_def diff_mult_distrib2)
    moreover have "\<forall>i < k. logical dsk s2 (a + n + i) = slice (512 * i) 512 b2"
      using w2 that(1) by blast
    then have "logical dsk s2 (a + n + (j - n)) = slice (512 * (j - n)) 512 b2"
      using that(2) False by (metis less_diff_conv2 not_less add.commute)
    ultimately show ?thesis using False by simp
  qed
  moreover have "logical dsk s2 m = logical dsk s m"
    if "m < unat (sector_reserve_start (core s))" "\<not> touches a (n + k) m" for m
    using that w1 w2 by (simp add: touches_add)
  moreover have "logical dsk s2 m = logical dsk s m"
    if "fin" "c1" "c2" "m < unat (sector_reserve_start (core s))" "m < a \<or> a + (n + k) \<le> m" for m
    using that w1 w2 keep [of m] by (cases "m < a") auto
  ultimately show ?thesis
    using w1 w2 unfolding wrote_def by (metis add.assoc)
qed

lemma mapped_wrote:
  assumes ok': "core_ok s'" "sector_reserve_start (core s') = sector_reserve_start (core s)"
      "user (core s') = user (core s)"
    and view: "\<forall>m < unat (sector_reserve_start (core s)). logical dsk s' m =
      (if m div 128 = a div 128 then slice (512 * (m mod 128)) 512 d else logical dsk s m)"
    and n: "0 < n" "a mod 128 + n \<le> 128" "a + n \<le> unat (sector_reserve_start (core s))"
    and data: "slice (512 * (a mod 128)) (512 * n) d = chunk"
    and clean: "clean \<longrightarrow> (\<forall>m < unat (sector_reserve_start (core s)). m div 128 = a div 128 \<longrightarrow>
      m < a \<or> a + n \<le> m \<longrightarrow> slice (512 * (m mod 128)) 512 d = logical dsk s m)"
  shows "wrote dsk a n chunk True clean s s'"
proof -
  have "logical dsk s' (a + k) = slice (512 * k) 512 chunk" if "k < n" for k
    using view that n slice_chunk [OF data that] in_block [of a k] by simp
  then show ?thesis
    using ok' view clean touches_block [OF n(1,2)] by (simp add: wrote_def)
qed

lemma find_block:
  assumes ok: "core_ok s" and b: "unat (b_start :: u32) = 128 * (a div 128)"
  shows "swap_find_swap_info (core s) (ucast b_start) = Some (find_src (core s) (128 * (a div 128)))"
proof -
  have "unat (ucast b_start :: sector_t) = unat b_start"
    using unat_less_u32 [of b_start] by (simp add: unsigned_ucast_eq take_bit_eq_mod)
  then show ?thesis using swap_find_eq [OF core_okD(2) [OF ok], of "ucast b_start"] b by simp
qed

context scsi_disk
begin

lemma user_write_ok:
  assumes w: "hd_write_sector K sec num (Some chunk) t r s = (x, s')" and ok: "core_ok s"
    and free: "find_src (core s) (128 * (unat sec div 128)) = None"
    and n: "n = unat num" "unat sec mod 128 + n \<le> 128" "length chunk = 512 * n"
    and R: "unat sec + n \<le> unat (sector_reserve_start (core s))"
  shows "wrote dsk (unat sec) n chunk (x = 0) True s s'" "io_step s s'" "x = 0 \<or> x = - 1"
    "\<forall>m. m < unat sec \<or> unat sec + n \<le> m \<longrightarrow> logical dsk s' m = logical dsk s m"
    "find_src (core s') b = find_src (core s) b"
proof -
  note io = io_step_hd_write [OF w]
  have b: "unat sec < 2 ^ 32" "unat num < 2 ^ 16" "length chunk < 2 ^ 32"
    using n R sys_okD(1) [OF core_okD(1) [OF ok]] by (simp_all add: geom_ok_def layout_simps)
  note law = hd_write_law [OF w b]
  have so: "src_of (core s') = src_of (core s)" by (simp add: src_of_def io_stepD(9) [OF io] fun_eq_iff)
  have f: "find_src (core s') b = find_src (core s) b" for b
    by (simp add: find_src_def io_stepD(8) [OF io] so)
  have same: "logical dsk s' m = logical dsk s m" if "m < unat sec \<or> unat sec + n \<le> m" for m
  proof -
    have "dsk (world s') m = dsk (world s) m" using law that n(1) by blast
    then show ?thesis using f io_stepD(9) [OF io] by (simp add: logical_def cong: option.case_cong)
  qed
  have blk: "(unat sec + k) div 128 = unat sec div 128" if "k < n" for k
    using that n(2) by (intro in_block(1)) simp
  have "logical dsk s' (unat sec + k) = slice (512 * k) 512 chunk" if "x = 0" "k < n" for k
    using law that n(1) f free blk [of k] by (simp add: logical_def)
  then show "wrote dsk (unat sec) n chunk (x = 0) True s s'"
    using same io_step_core_ok [OF io ok] io_stepD(6,11) [OF io] touches_inside
    unfolding wrote_def by (metis not_less)
  show "io_step s s'" "x = 0 \<or> x = - 1"
    "\<forall>m. m < unat sec \<or> unat sec + n \<le> m \<longrightarrow> logical dsk s' m = logical dsk s m"
    "find_src (core s') b = find_src (core s) b"
    using io hd_write_code [OF w] same f by auto
qed

lemma finish_mapping:
  assumes ok: "core_ok s" and p: "p \<notin> set (info_list (core s))" "p < next_info (core s)"
    and i: "infos (core s) p = Some i" "info_ok (core s) i" "sdata i = Some d"
    and new: "find_src (core s) (src_of (core s) p) = None" and len: "info_num (core s) < 128"
  shows "\<exists>s2. flush_swap_info_table K (append_info p s) = Some (0, s2) \<and>
    (let s3 = upd_core (\<lambda>c. c\<lparr>info_num := info_num c + 1\<rparr>) s2 in
     core_ok s3 \<and> sector_reserve_start (core s3) = sector_reserve_start (core s) \<and>
     user (core s3) = user (core s) \<and> quiet dsk {} (add_info p s) s3 \<and>
     head (core s3) = head (core s) \<and>
     (\<forall>m < unat (sector_reserve_start (core s)). logical dsk s3 m =
       (if 128 * (m div 128) = src_of (core s) p then slice (512 * (m mod 128)) 512 d else logical dsk s m)))"
proof -
  have sys: "sys_ok (append_info p s)"
    using core_okD(1) [OF ok] by (simp add: sys_ok_def geom_ok_def append_info_def)
  have "length (info_list (core s)) < 128"
    using core_okD(2) [OF ok] len by (simp add: infos_ok_def)
  then have ent: "entries_ok (append_info p s)"
    using core_ok_entries [OF ok] p i by (auto simp: entries_ok_def append_info_def info_ok_def)
  obtain s2 where 2: "flush_swap_info_table K (append_info p s) = Some (0, s2)"
    "quiet dsk {} (append_info p s) s2" "head (core s2) = head (core (append_info p s))"
    using flush_swap_info_table_ok [OF sys ent] by blast
  note a = add_info_ok [OF ok p i new len]
  have q: "quiet dsk {} (add_info p s) (upd_core (\<lambda>c. c\<lparr>info_num := info_num c + 1\<rparr>) s2)"
    using quiet_info_num [OF 2(2)] by (simp add: add_info_def)
  have r: "sector_reserve_start (core (add_info p s)) = sector_reserve_start (core s)"
    "user (core (add_info p s)) = user (core s)" "head (core (append_info p s)) = head (core s)"
    by (simp_all add: add_info_def append_info_def)
  show ?thesis
    using 2 quiet_core_ok [OF q a(1)] quiet_logical [OF q a(1)] a(2) q quietD(3,4) [OF q] r
    by (simp add: Let_def)
qed

lemma core_write_bad_ok:
  assumes ok: "core_ok s" and free: "find_src (core s) (128 * (unat sec div 128)) = None"
    and n: "n = unat num" "0 < n" "unat sec mod 128 + n \<le> 128" "length chunk = 512 * n"
    and R: "unat sec + n \<le> unat (sector_reserve_start (core s))"
  shows "\<exists>st s'. core_write_bad K sec num chunk s = Some (st, s') \<and> (st = 0 \<or> st = 1 \<or> st = - 1) \<and>
    wrote dsk (unat sec) n chunk (st \<noteq> - 1) (st = 0) s s'"
proof -
  obtain r1 s1 where 1: "swap_repair_successive_sectors K sec num s = (r1, s1)" by fastforce
  note rep = repair_quiet [OF 1]
  have ok1: "core_ok s1" using quiet_core_ok [OF rep(1) [of "{}"] ok] by simp
  have R1: "sector_reserve_start (core s1) = sector_reserve_start (core s)" using quietD(4) [OF rep(1)] .
  have sec: "unat sec < unat (sector_reserve_start (core s1))" "unat num < 2 ^ 31" "unat sec < 2 ^ 32"
    using R n R1 sys_okD(1) [OF core_okD(1) [OF ok]] by (simp_all add: geom_ok_def layout_simps)
  show ?thesis
  proof (cases "device_dead (core s1) = 0")
    case False
    then show ?thesis
      using 1 rep quiet_wrote [OF rep(1) [of "{}"] ok] by (simp add: core_write_bad_def)
  next
    case True
    obtain r s2 where 2: "swap_create K sec num s1 = Some (r, s2)" "quiet dsk {} s1 s2"
      "case r of None \<Rightarrow> True | Some p \<Rightarrow> info_num (core s1) < 128 \<and>
        next_info (core s1) \<le> p \<and> p < next_info (core s2) \<and>
        (\<exists>i. infos (core s2) p = Some i \<and> info_ok (core s2) i \<and>
          unat (src_sec (table i)) = 128 * (unat sec div 128))"
      using swap_create_ok [OF core_okD(1) [OF ok1] sec(1,2)] by (fastforce split: option.splits)
    have q2: "quiet dsk {} s s2" using quiet_trans [OF rep(1) 2(2)] .
    have ok2: "core_ok s2" using quiet_core_ok [OF q2 ok] by simp
    show ?thesis
    proof (cases r)
      case None
      then show ?thesis
        using 1 2(1) rep(2) True quiet_wrote [OF q2 ok] by (simp add: core_write_bad_def)
    next
      case (Some p)
      then obtain i where i: "infos (core s2) p = Some i" "info_ok (core s2) i" "info_num (core s1) < 128"
        "unat (src_sec (table i)) = 128 * (unat sec div 128)" "next_info (core s1) \<le> p" "p < next_info (core s2)"
        using 2(3) by auto
      obtain d where d: "sdata i = Some d" using i(2) by (auto simp: info_ok_def split: option.splits)
      have pl: "p \<notin> set (info_list (core s1))"
        using infos_okD [OF core_okD(2) [OF ok1], of p] i(5) by auto
      have lists: "info_list (core s1) = info_list (core s)" "info_list (core s2) = info_list (core s)"
        using quietD(1) [OF rep(1)] quietD(1) [OF q2] by simp_all
      obtain ret s3 i3 d3 where 3: "swap_write K p sec chunk s2 = Some (ret, s3)" "quiet dsk {p} s2 s3"
        "infos (core s3) p = Some i3" "info_ok (core s3) i3" "sdata i3 = Some d3"
        "src_sec (table i3) = src_sec (table i)"
        "ret = 0 \<longrightarrow> slice (512 * (unat sec mod 128)) (length chunk) d3 = chunk"
        using swap_write_ok [OF core_okD(1) [OF ok2] core_ok_entries [OF ok2] i(1,2) d i(6) sec(3), of chunk] n(3,4)
        by fastforce
      have q3: "quiet dsk {p} s s3" using quiet_trans [OF quiet_mono [OF q2] 3(2)] by simp
      have dj: "{p} \<inter> set (info_list (core s)) = {}" using pl lists by simp
      have ok3: "core_ok s3" using quiet_core_ok [OF q3 ok dj] .
      show ?thesis
      proof (cases "ret = 0")
        case False
        have "quiet dsk {p} s (drop_info p i3 s3)"
          unfolding drop_info_def using quiet_trans [OF quiet_trans [OF q3 quiet_mark] quiet_dealloc] by simp
        then show ?thesis
          using 1 2(1) Some rep(2) True 3(1,3) False quiet_wrote [OF _ ok dj] by (simp add: core_write_bad_def)
      next
        case ret: True
        have p3: "p < next_info (core s3)" using quietD(9) [OF 3(2)] i(6) by simp
        have src: "src_of (core s3) p = 128 * (unat sec div 128)" using 3(3,6) i(4) by (simp add: src_of_def)
        have new: "find_src (core s3) (src_of (core s3) p) = None"
          using quiet_infos_ok(2) [OF q3 core_okD(2) [OF ok]] dj free src by auto
        have num: "info_num (core s3) < 128" using i(3) quietD(2) [OF q3] quietD(2) [OF rep(1)] by simp
        have pl3: "p \<notin> set (info_list (core s3))" using dj quietD(1) [OF q3] by simp
        obtain s4 where 4: "flush_swap_info_table K (append_info p s3) = Some (0, s4)"
          and fin: "let s5 = upd_core (\<lambda>c. c\<lparr>info_num := info_num c + 1\<rparr>) s4 in
            core_ok s5 \<and> sector_reserve_start (core s5) = sector_reserve_start (core s3) \<and>
            user (core s5) = user (core s3) \<and> quiet dsk {} (add_info p s3) s5 \<and>
            head (core s5) = head (core s3) \<and>
            (\<forall>m < unat (sector_reserve_start (core s3)). logical dsk s5 m =
              (if 128 * (m div 128) = src_of (core s3) p then slice (512 * (m mod 128)) 512 d3
               else logical dsk s3 m))"
          using finish_mapping [OF ok3 pl3 p3 3(3,4,5) new num] by blast
        define s5 where "s5 = upd_core (\<lambda>c. c\<lparr>info_num := info_num c + 1\<rparr>) s4"
        have run: "core_write_bad K sec num chunk s = Some (if num < 128 then 1 else 0, s5)"
          using 1 2(1) Some rep(2) True 3(1,3) ret 4 by (simp add: core_write_bad_def s5_def Let_def)
        have "wrote dsk (unat sec) n chunk True (\<not> num < 128) s s5"
        proof (rule mapped_wrote [OF _ _ _ _ n(2,3) R])
          show "slice (512 * (unat sec mod 128)) (512 * n) d3 = chunk" using 3(7) ret n(4) by simp
          show "\<not> num < 128 \<longrightarrow> (\<forall>m < unat (sector_reserve_start (core s)). m div 128 = unat sec div 128 \<longrightarrow>
              m < unat sec \<or> unat sec + n \<le> m \<longrightarrow> slice (512 * (m mod 128)) 512 d3 = logical dsk s m)"
            using n(1,3) by (auto simp: word_less_nat_alt) (metis div_mult_mod_eq mod_less_divisor
                add.commute add_less_cancel_right linorder_not_less zero_less_numeral le_antisym add_0 le_add1 order_trans)+
        qed (use fin quietD(3,4) [OF q3] src quiet_logical [OF q3 ok dj] in \<open>simp_all add: s5_def Let_def\<close>)
        then show ?thesis using run by auto
      qed
    qed
  qed
qed

lemma write_mapped_ok:
  assumes ok: "core_ok s" and found: "find_src (core s) (128 * (unat sec div 128)) = Some p"
    and n: "n = unat (num :: u32)" "0 < n" "unat sec mod 128 + n \<le> 128" "length chunk = 512 * n"
    and R: "unat sec + n \<le> unat (sector_reserve_start (core s))"
  shows "\<exists>ret s'. swap_write K p sec chunk s = Some (ret, s') \<and>
    (ret = 0 \<or> ret = - 1 \<or> ret = - 0xaa) \<and>
    wrote dsk (unat sec) n chunk (ret \<noteq> - 1) (ret = 0 \<or> \<not> num < 128) s s'"
proof -
  note io = core_okD(2) [OF ok] and pl = find_src_Some [OF found]
  obtain i d where i: "infos (core s) p = Some i" "sdata i = Some d" "info_ok (core s) i" "length d = 65536"
    "p < next_info (core s)"
    using infos_okD [OF io pl(1)] by blast
  have sec: "unat sec < 2 ^ 32" using R sys_okD(1) [OF core_okD(1) [OF ok]] by (simp add: geom_ok_def layout_simps)
  let ?off = "512 * (unat sec mod 128)"
  obtain ret s' i' d' where w: "swap_write K p sec chunk s = Some (ret, s')" "quiet dsk {p} s s'"
    "ret = 0 \<or> ret = - 1 \<or> ret = - 0xaa" "infos (core s') p = Some i'" "info_ok (core s') i'" "sdata i' = Some d'"
    "src_sec (table i') = src_sec (table i)" "ret \<noteq> - 1 \<longrightarrow> slice ?off (length chunk) d' = chunk"
    "ret = 0 \<longrightarrow> d' = overwrite ?off chunk d"
    using swap_write_ok [OF core_okD(1) [OF ok] core_ok_entries [OF ok] i(1,3,2,5) sec, of chunk] n(3,4)
    by fastforce
  note one = quiet_one [OF w(2) ok pl(1) i(1) w(4,5,7,6)]
  have view: "\<forall>m < unat (sector_reserve_start (core s)). logical dsk s' m =
      (if m div 128 = unat sec div 128 then slice (512 * (m mod 128)) 512 d' else logical dsk s m)"
    using one(2) pl(2) by simp
  have "wrote dsk (unat sec) n chunk (ret \<noteq> - 1) (ret = 0 \<or> \<not> num < 128) s s'"
  proof (cases "ret = - 1")
    case True
    then show ?thesis
      using one(1) view quietD(3,4) [OF w(2)] touches_block [OF n(2,3)] by (simp add: wrote_def)
  next
    case False
    have "wrote dsk (unat sec) n chunk True (ret = 0 \<or> \<not> num < 128) s s'"
    proof (rule mapped_wrote [OF one(1) quietD(4) [OF w(2)] quietD(3) [OF w(2)] view n(2,3) R])
      show "slice ?off (512 * n) d' = chunk" using w(8) False n(4) by simp
      have "slice (512 * (m mod 128)) 512 d' = logical dsk s m"
        if m: "ret = 0 \<or> \<not> num < 128" "m div 128 = unat sec div 128" "m < unat sec \<or> unat sec + n \<le> m" for m
      proof -
        have split: "m = 128 * (unat sec div 128) + m mod 128" "unat sec = 128 * (unat sec div 128) + unat sec mod 128"
          by (metis m(2) mult_div_mod_eq, simp)
        have mm: "m mod 128 < unat sec mod 128 \<or> unat sec mod 128 + n \<le> m mod 128"
          using m(3) split by linarith
        have "n < 128" using mm n(3) mod_less_divisor [of 128 m] by linarith
        then have "ret = 0" using m(1) n(1) by (auto simp: word_less_nat_alt)
        then have "slice (512 * (m mod 128)) 512 d' = slice (512 * (m mod 128)) 512 d"
          using w(9) mm n(3,4) i(4) by (auto intro!: slice_overwrite_other)
        then show ?thesis using logical_mapped [of s m p i d dsk] found i m(2) by simp
      qed
      then show "ret = 0 \<or> \<not> num < 128 \<longrightarrow> (\<forall>m < unat (sector_reserve_start (core s)). m div 128 = unat sec div 128 \<longrightarrow>
          m < unat sec \<or> unat sec + n \<le> m \<longrightarrow> slice (512 * (m mod 128)) 512 d' = logical dsk s m)"
        by blast
    qed
    then show ?thesis using False by simp
  qed
  then show ?thesis using w(1,3) by blast
qed

lemma core_write_block_ok:
  assumes ok: "core_ok s" and b: "unat b_start = 128 * (unat sec div 128)"
    and n: "n = unat num" "0 < n" "unat sec mod 128 + n \<le> 128" "length chunk = 512 * n"
    and R: "unat sec + n \<le> unat (sector_reserve_start (core s))"
  shows "\<exists>st s'. core_write_block K bad b_start sec num chunk s = Some (st, s') \<and>
    (st = 0 \<or> st = 1 \<or> st = - 1) \<and> wrote dsk (unat sec) n chunk (st \<noteq> - 1) (st = 0) s s'"
proof -
  note find = find_block [OF ok b]
  show ?thesis
  proof (cases "find_src (core s) (128 * (unat sec div 128))")
    case (Some p)
    obtain ret s' where w: "swap_write K p sec chunk s = Some (ret, s')" "ret = 0 \<or> ret = - 1 \<or> ret = - 0xaa"
      "wrote dsk (unat sec) n chunk (ret \<noteq> - 1) (ret = 0 \<or> \<not> num < 128) s s'"
      using write_mapped_ok [OF ok Some n R] by blast
    then show ?thesis
      using find Some by (cases "num < 128") (auto simp: core_write_block_def wrote_unfinished)
  next
    case None
    note badok = core_write_bad_ok [OF ok None n R]
    show ?thesis
    proof (cases bad)
      case True
      then show ?thesis using find None badok by (simp add: core_write_block_def)
    next
      case False
      obtain x s1 where w: "hd_write_sector K sec num (Some chunk) 10 5 s = (x, s1)" by fastforce
      note u = user_write_ok [OF w ok None n(1,3,4) R]
      note io = io_stepD(6,11) [OF u(2)]
      have run: "core_write_block K bad b_start sec num chunk s =
          (if x = 0 then Some (0, s1) else if device_dead (core s1) \<noteq> 0 then Some (- 1, s1)
           else core_write_bad K sec num chunk s1)"
        using find None False w by (simp add: core_write_block_def hd_write_sector_retry_def)
      consider "x = 0" | "x \<noteq> 0" "device_dead (core s1) \<noteq> 0" | "x \<noteq> 0" "device_dead (core s1) = 0"
        by blast
      then show ?thesis
      proof cases
        case 1
        then show ?thesis using run u(1) by auto
      next
        case 2
        then have "wrote dsk (unat sec) n chunk False False s s1" using u(1) by (simp add: wrote_def)
        then show ?thesis using run 2 by auto
      next
        case 3
        have ok1: "core_ok s1" using io_step_core_ok [OF u(2) ok] .
        obtain st s' where b: "core_write_bad K sec num chunk s1 = Some (st, s')" "st = 0 \<or> st = 1 \<or> st = - 1"
          "wrote dsk (unat sec) n chunk (st \<noteq> - 1) (st = 0) s1 s'"
          using core_write_bad_ok [OF ok1 _ n] u(5) None R io(2) by auto
        show ?thesis
          using run 3 b(1,2) wrote_rebase [OF u(4) io(2,1) b(3)] by auto
      qed
    qed
  qed
qed

end

end
