(* ===== verification/Core_Loop.thy ===== *)
theory Core_Loop
  imports Core_RW
begin

text \<open>
  The loops over the blocks of a request: the arithmetic of the segments, and the contract of a
  whole write by induction over the blocks.
\<close>

subsection \<open>The segments of a request\<close>

text \<open>Number of blocks from the one of \<open>a\<close> to the last that the \<open>c\<close> sectors touch.\<close>

definition blocks :: "nat \<Rightarrow> nat \<Rightarrow> nat" where
  "blocks a c = (a mod 128 + c + 127) div 128"

lemma round_up: "(k + 127) div 128 = k div 128 + (if k mod 128 = 0 then 0 else 1)" for k :: nat
proof -
  obtain q r where "k = 128 * q + r" "r < 128" by (metis mult_div_mod_eq mod_less_divisor zero_less_numeral)
  then have "k div 128 = q" "k mod 128 = r" "(k + 127) div 128 = q + (if r = 0 then 0 else 1)"
    by (auto simp: div_nat_eqI)
  then show ?thesis by simp
qed

lemma next_block:
  fixes k :: nat
  shows "k \<le> 128 * (k div 128 + 1)" "128 * (k div 128 + 1) - k = 128 - k mod 128"
    "k + (128 - k mod 128) = 128 * (k div 128 + 1)"
proof -
  obtain q r where "k = 128 * q + r" "r < 128" by (metis mult_div_mod_eq mod_less_divisor zero_less_numeral)
  then show "k \<le> 128 * (k div 128 + 1)" "128 * (k div 128 + 1) - k = 128 - k mod 128"
    "k + (128 - k mod 128) = 128 * (k div 128 + 1)"
    by simp_all
qed

lemma block_count:
  assumes "unat count < 2 ^ 31 - 128"
  shows "nat (get_swap_block_count start count) = blocks (unat start) (unat count)"
proof -
  define k where "k = unat start mod 128 + unat count"
  let ?x = "start + scast count - SWAP_SECTOR_ALIGN start"
  have sdiv: "int k sdiv 128 = int (k div 128)" "int k smod 128 = int (k mod 128)"
    using sdiv_nonneg [of "int k" 128] smod_nonneg [of "int k" 128] by (simp_all add: zdiv_int zmod_int)
  have k: "k < 2 ^ 31"
    using assms mod_less_divisor [of 128 "unat start"] unfolding k_def by linarith
  have x: "?x = (start - SWAP_SECTOR_ALIGN start) + word_of_nat (unat count)"
    using scast_u32_small [of count] assms by simp
  have "unat ?x = k"
    unfolding x using unat_plus_nat [of "start - SWAP_SECTOR_ALIGN start" "unat count"] k
    by (simp add: align_facts k_def)
  then have "unat (ucast ?x :: u32) = k"
    using k by (simp add: unsigned_ucast_eq take_bit_eq_mod)
  then have "sint (ucast ?x :: u32) = int k"
    using sint_nat_small [of "ucast ?x :: u32"] k by simp
  then have "get_swap_block_count start count = int (k div 128) + (if k mod 128 = 0 then 0 else 1)"
    by (simp only: get_swap_block_count_def Let_def sdiv of_nat_eq_0_iff)
  then show ?thesis
    by (simp add: blocks_def round_up nat_add_distrib k_def [symmetric])
qed

lemma ucast_diff_down: "(ucast (x - y :: sector_t) :: u32) = ucast x - ucast y"
proof transfer
  fix x y :: int
  have "take_bit 32 (take_bit 64 x - take_bit 64 y) =
      take_bit 32 (take_bit 32 (take_bit 64 x) - take_bit 32 (take_bit 64 y))"
    by (rule take_bit_diff [symmetric])
  also have "\<dots> = take_bit 32 (x - y)" by (simp add: take_bit_take_bit take_bit_diff)
  finally show "take_bit LENGTH(32) (take_bit LENGTH(64) (x - y)) =
      take_bit LENGTH(32) (take_bit LENGTH(64) x - take_bit LENGTH(64) y)"
    by (simp add: take_bit_take_bit)
qed

lemma ucast_scast_down: "(ucast (scast w :: sector_t) :: u32) = w"
  by transfer (simp add: take_bit_signed_take_bit)

lemma seg_facts:
  assumes q: "unat i_start + unat i = unat (seg_start start i_start i) div 128"
    and a: "unat (seg_start start i_start i) < 2 ^ 32"
  shows "unat (blk_start i_start i) = 128 * (unat (seg_start start i_start i) div 128)"
    "unat (seg_count start i_start i count) =
      min (unat count) (128 - unat (seg_start start i_start i) mod 128)"
proof -
  let ?a = "unat (seg_start start i_start i)"
  have q2: "?a div 128 < 2 ^ 25" using a by (simp add: div_less_iff_less_mult)
  have s: "unat (i_start + i) = ?a div 128" using q q2 by (simp add: unat_word_ariths)
  show "unat (blk_start i_start i) = 128 * (?a div 128)"
    using q2 by (simp only: blk_start_def unat_word_ariths(2) s) simp
  have w: "(i_start + i + 1) * 128 = word_of_nat (128 * (?a div 128 + 1))"
  proof -
    have "i_start + i = word_of_nat (?a div 128)" using s by (metis of_nat_unat ucast_id)
    then show ?thesis by (simp add: algebra_simps)
  qed
  have c: "(ucast (seg_start start i_start i) :: u32) = word_of_nat ?a" by simp
  have "(ucast (scast ((i_start + i + 1) * 128) - seg_start start i_start i) :: u32)
      = word_of_nat (128 * (?a div 128 + 1)) - word_of_nat ?a"
    by (simp only: ucast_diff_down ucast_scast_down w c)
  also have "\<dots> = word_of_nat (128 * (?a div 128 + 1) - ?a)"
    by (rule of_nat_diff [symmetric]) (rule next_block(1))
  also have "128 * (?a div 128 + 1) - ?a = 128 - ?a mod 128" by (rule next_block(2))
  finally have "unat (ucast (scast ((i_start + i + 1) * 128) - seg_start start i_start i) :: u32) = 128 - ?a mod 128"
    using unat_of_nat_small [of "128 - ?a mod 128", where 'a = 32] by simp
  then show "unat (seg_count start i_start i count) = min (unat count) (128 - ?a mod 128)"
    by (simp add: seg_count_def min_def word_le_nat_alt)
qed


text \<open>Rounds of the loop; a request for no sectors is left out.\<close>

definition rounds :: "nat \<Rightarrow> nat \<Rightarrow> nat" where
  "rounds a c = (if c = 0 then 0 else blocks a c)"

abbreviation seg :: "nat \<Rightarrow> nat \<Rightarrow> nat" where
  "seg a c \<equiv> min c (128 - a mod 128)"

lemma rounds_step:
  assumes "0 < c"
  shows "rounds a c = Suc (rounds (a + seg a c) (c - seg a c))"
proof -
  have m: "a mod 128 < 128" by simp
  show ?thesis
  proof (cases "c \<le> 128 - a mod 128")
    case True
    then have "(a mod 128 + c + 127) div 128 = 1" using assms m by (intro div_nat_eqI) simp_all
    then show ?thesis using True assms by (simp add: rounds_def blocks_def)
  next
    case False
    then obtain d where d: "c = 128 - a mod 128 + d" "0 < d" using less_imp_add_positive not_le by blast
    have "a mod 128 + c = 128 + d" using d m by simp
    then have "(a mod 128 + c + 127) div 128 = Suc ((d + 127) div 128)" by simp
    moreover have "(a + (128 - a mod 128)) mod 128 = 0" by (simp only: next_block(3) mod_mult_self1_is_0)
    moreover have "seg a c = 128 - a mod 128" "c - seg a c = d" using d by simp_all
    ultimately show ?thesis using d(2) assms by (simp only: rounds_def blocks_def) simp
  qed
qed

text \<open>Where the loop stands: round \<open>i\<close> handles sector \<open>a\<close>.\<close>

definition at_sector :: "sector_t \<Rightarrow> u32 \<Rightarrow> u32 \<Rightarrow> nat \<Rightarrow> bool" where
  "at_sector start i_start i a \<longleftrightarrow>
     unat (seg_start start i_start i) = a \<and> unat i_start + unat i = a div 128"

lemma at_sector_next:
  assumes at: "at_sector start i_start i a" and less: "seg a c < c" and a: "a + c < 2 ^ 32"
  shows "at_sector start i_start (i + 1) (a + seg a c)" "(a + seg a c) mod 128 = 0"
proof -
  have e: "a + seg a c = 128 * (a div 128 + 1)"
    using less next_block(3) [of a] by (metis min_def nat_neq_iff)
  then show "(a + seg a c) mod 128 = 0" by simp
  have q: "a div 128 + 1 < 2 ^ 25" using e a less by simp
  have i: "unat i_start + unat i = a div 128" using at by (simp add: at_sector_def)
  have i1: "unat (i + 1) = unat i + 1" using i q by (simp add: unat_word_ariths)
  have "unat (i_start + (i + 1)) = a div 128 + 1"
    using i i1 q by (simp add: unat_word_ariths(1))
  then have "unat (blk_start i_start (i + 1)) = 128 * (a div 128 + 1)"
    using q by (simp only: blk_start_def unat_word_ariths(2)) simp
  moreover have "i + 1 \<noteq> 0" using i1 by (metis Zero_not_Suc Suc_eq_plus1 unat_0)
  ultimately show "at_sector start i_start (i + 1) (a + seg a c)"
    using i i1 e unat_less_u32 [of "blk_start i_start (i + 1)"]
    by (simp add: at_sector_def seg_start_def unsigned_ucast_eq take_bit_eq_mod)
qed

lemma at_sector_facts:
  assumes "at_sector start i_start i a" "a < 2 ^ 32"
  shows "unat (seg_start start i_start i) = a" "unat (blk_start i_start i) = 128 * (a div 128)"
    "unat (seg_count start i_start i count) = seg a (unat count)"
  using assms seg_facts [of i_start i start] by (simp_all add: at_sector_def)

lemma at_sector_first:
  assumes "unat start < 2 ^ 32"
  shows "at_sector start (ucast (SWAP_BLOCK_INDEX start)) 0 (unat start)"
proof -
  have "unat (SWAP_BLOCK_INDEX start) = unat start div 128"
    by (simp add: SWAP_BLOCK_INDEX_def unat_div)
  moreover have "unat start div 128 < 2 ^ 32" using assms by (rule order_le_less_trans [OF div_le_dividend])
  ultimately show ?thesis
    by (simp add: at_sector_def seg_start_def unsigned_ucast_eq take_bit_eq_mod)
qed

subsection \<open>A whole write\<close>

lemma wrote_none: "core_ok s \<Longrightarrow> wrote dsk a 0 b fin clean s s"
  by (simp add: wrote_def)

lemma wrote_fail:
  assumes "wrote dsk a n b False c s s'" "n \<le> n'"
  shows "wrote dsk a n' b' False c' s s'"
  using assms by (auto simp: wrote_def touches_def)

lemma wrote_buf:
  assumes "wrote dsk a n b fin c s s'" "\<And>k. k < n \<Longrightarrow> slice (512 * k) 512 b = slice (512 * k) 512 b'"
  shows "wrote dsk a n b' fin c s s'"
  using assms by (simp add: wrote_def)

lemma wrote_clean: "wrote dsk a n b fin c s s' \<Longrightarrow> (c' \<Longrightarrow> c) \<Longrightarrow> wrote dsk a n b fin c' s s'"
  by (simp add: wrote_def)

lemma reserve_small: "core_ok s \<Longrightarrow> unat (sector_reserve_start (core s)) < 2 ^ 32"
  using sys_okD(1) [OF core_okD(1), of s] by (simp add: geom_ok_def layout_simps)

lemma drop_slice: "off + n \<le> length b \<Longrightarrow> drop off b = slice off n b @ drop (off + n) b"
  by (simp add: slice_def add.commute flip: drop_drop)

text \<open>The count of users has no part in the invariant or the view.\<close>

lemma core_ok_user: "core_ok (upd_core (user_update f) s) = core_ok s"
proof -
  let ?s = "upd_core (user_update f) s"
  have so: "src_of (core ?s) = src_of (core s)" by (simp add: src_of_def fun_eq_iff)
  have "info_ok (core ?s) = info_ok (core s)" by (simp add: info_ok_def fun_eq_iff)
  then have "infos_ok (core ?s) = infos_ok (core s)" by (simp only: infos_ok_def so) simp
  then show ?thesis by (simp add: core_ok_def sys_ok_def geom_ok_def)
qed

lemma logical_user: "logical dsk (upd_core (user_update f) s) = logical dsk s"
  by (simp add: logical_def find_src_def src_of_def fun_eq_iff cong: option.case_cong)

context scsi_disk
begin

lemma core_write_loop_ok:
  assumes "core_ok s" "n = rounds a (unat count)" "0 < unat count \<longrightarrow> at_sector start i_start i a"
    "a + unat count \<le> unat (sector_reserve_start (core s))" "off + 512 * unat count \<le> length buf"
  shows "\<exists>ret s'. core_write_loop K start i_start i_bad n i count off dirty buf s = Some (ret, s') \<and>
    (ret = 0 \<or> ret = - 1 \<or> ret = - 0xaa) \<and> (dirty \<longrightarrow> ret \<noteq> 0) \<and>
    wrote dsk a (unat count) (drop off buf) (ret \<noteq> - 1) (ret = 0) s s'"
  using assms
proof (induction n arbitrary: a count i off dirty s)
  case 0
  then have "unat count = 0" by (cases "unat count = 0") (simp_all add: rounds_step)
  then show ?case using 0 by (simp add: wrote_none)
next
  case (Suc n)
  define c where "c = unat count"
  define k where "k = seg a c"
  have c: "0 < c" using Suc.prems(2) by (cases "c = 0") (simp_all add: rounds_def c_def)
  have at: "at_sector start i_start i a" using Suc.prems(3) c by (simp add: c_def)
  have a: "a + c < 2 ^ 32" using Suc.prems(4) reserve_small [OF Suc.prems(1)] by (simp add: c_def)
  define num where "num = seg_count start i_start i count"
  have f: "unat (seg_start start i_start i) = a" "unat (blk_start i_start i) = 128 * (a div 128)" "unat num = k"
    using at_sector_facts [OF at] a by (simp_all add: num_def k_def c_def)
  have k: "0 < k" "k \<le> c" "a mod 128 + k \<le> 128" using c by (auto simp: k_def min_def)
  have cn: "unat (count - num) = c - k"
    using unat_sub [of num count] f(3) k(2) by (simp add: word_le_nat_alt c_def)
  have n: "n = rounds (a + k) (unat (count - num))"
    using Suc.prems(2) rounds_step [OF c, of a] cn by (simp add: c_def k_def)
  have len: "off + 512 * k \<le> length buf" "off + 512 * k + 512 * (c - k) \<le> length buf"
    using Suc.prems(5) k(2) by (simp_all add: c_def)
  define chunk where "chunk = slice off (512 * k) buf"
  have chunk: "memread buf off (unat num * 512) = Some chunk" "length chunk = 512 * k"
    using len(1) f(3) by (simp_all add: memread_def chunk_def mult.commute)
  have R: "unat (seg_start start i_start i) + k \<le> unat (sector_reserve_start (core s))"
    using Suc.prems(4) k(2) f(1) by (simp add: c_def)
  obtain st s1 where st: "core_write_block K (i_bad = i_start + i) (blk_start i_start i)
      (seg_start start i_start i) num chunk s = Some (st, s1)" "st = 0 \<or> st = 1 \<or> st = - 1"
    "wrote dsk a k chunk (st \<noteq> - 1) (st = 0) s s1"
    using core_write_block_ok [OF Suc.prems(1) _ f(3) [symmetric] k(1) _ chunk(2) R, of "blk_start i_start i" "i_bad = i_start + i"]
      f k(3) by auto
  have run: "core_write_loop K start i_start i_bad (Suc n) i count off dirty buf s =
      (if st = - 1 then Some (- 1, s1) else core_write_loop K start i_start i_bad n (i + 1) (count - num)
        (off + 512 * k) (dirty \<or> st = 1) buf s1)"
    using st(1) chunk(1) f(3) by (simp add: num_def mult.commute)
  show ?case
  proof (cases "st = - 1")
    case True
    then show ?thesis using run st(3) wrote_fail [of dsk a k chunk] k(2) by (simp add: c_def)
  next
    case False
    then have w1: "wrote dsk a k chunk True (st = 0) s s1" using st(3) by simp
    have same: "sector_reserve_start (core s1) = sector_reserve_start (core s)" "core_ok s1"
      using w1 by (simp_all add: wrote_def)
    have A: "0 < unat (count - num) \<longrightarrow> at_sector start i_start (i + 1) (a + k)"
      using at_sector_next(1) [OF at _ a] by (simp add: k_def cn)
    have B: "a + k + unat (count - num) \<le> unat (sector_reserve_start (core s1))"
      using Suc.prems(4) k(2) by (simp add: cn same(1) c_def)
    have C: "off + 512 * k + 512 * unat (count - num) \<le> length buf" using len(2) by (simp add: cn)
    obtain ret s' where r: "core_write_loop K start i_start i_bad n (i + 1) (count - num)
        (off + 512 * k) (dirty \<or> st = 1) buf s1 = Some (ret, s')" "ret = 0 \<or> ret = - 1 \<or> ret = - 0xaa"
      "dirty \<or> st = 1 \<longrightarrow> ret \<noteq> 0"
      "wrote dsk (a + k) (c - k) (drop (off + 512 * k) buf) (ret \<noteq> - 1) (ret = 0) s1 s'"
      using Suc.IH [OF same(2) n A B C, of "dirty \<or> st = 1"] unfolding cn by (elim exE conjE)
    have buf: "drop off buf = chunk @ drop (off + 512 * k) buf" using drop_slice [OF len(1)] by (simp add: chunk_def)
    have "wrote dsk a c (drop off buf) (ret \<noteq> - 1) (ret = 0) s s'"
    proof (cases "c = k")
      case True
      then have "n = 0" using n cn by (simp add: rounds_def)
      then have e: "s' = s1" "ret = (if dirty \<or> st = 1 then - 0xaa else 0)" using r(1) by auto
      have w: "wrote dsk a k (drop off buf) True (st = 0) s s1"
        by (rule wrote_buf [OF w1]) (simp add: buf slice_def chunk(2))
      have "ret \<noteq> - 1" "ret = 0 \<Longrightarrow> st = 0" using e(2) st(2) \<open>st \<noteq> - 1\<close> by (auto split: if_splits)
      then show ?thesis using wrote_clean [OF w, of "ret = 0"] e(1) True by simp
    next
      case False
      then have "(a + k) mod 128 = 0" using at_sector_next(2) [OF at _ a] k(2) by (simp add: k_def)
      then have "wrote dsk a (k + (c - k)) (drop off buf) (ret \<noteq> - 1) (st = 0 \<and> ret = 0) s s'"
        unfolding buf using wrote_comp [OF w1 r(4) chunk(2)] R f(1) by simp
      moreover have "(st = 0 \<and> ret = 0) = (ret = 0)" using r(3) st(2) \<open>st \<noteq> - 1\<close> by auto
      ultimately show ?thesis using k(2) by simp
    qed
    then show ?thesis using run False r(1-3) by (intro exI [of _ ret] exI [of _ s']) (simp add: c_def)
  qed
qed

text \<open>
  A write of at least one sector below the reserved area: it does not fault, keeps the invariant,
  stores the data unless it fails, and reports with 0 that nothing outside the range changed.
\<close>

lemma core_write_ok:
  assumes ok: "core_ok s" and count: "0 < unat count" "unat count < 2 ^ 31 - 128"
    and R: "unat start + unat count \<le> unat (sector_reserve_start (core s))"
    and len: "512 * unat count \<le> length buf"
  shows "\<exists>ret s'. scsi_swap_core_write K start count bad buf s = Some (ret, s') \<and>
    (ret = 0 \<or> ret = - 1 \<or> ret = - 0xaa) \<and>
    wrote dsk (unat start) (unat count) buf (ret \<noteq> - 1) (ret = 0) s s'"
proof (cases "device_dead (core s) = 0")
  case False
  then show ?thesis
    using quiet_wrote [OF quiet_refl ok, of "{}"] by (simp add: scsi_swap_core_write_def)
next
  case True
  let ?s = "upd_core (\<lambda>c. c\<lparr>user := user c + 1\<rparr>) s"
  have u: "core_ok (upd_core (user_update f) x) = core_ok x"
    "logical dsk (upd_core (user_update f) x) = logical dsk x" for f x
    by (simp_all add: core_ok_user logical_user)
  have n: "nat (get_swap_block_count start count) = rounds (unat start) (unat count)"
    using block_count [OF count(2)] count(1) by (simp add: rounds_def)
  have "unat start < 2 ^ 32" using R reserve_small [OF ok] by linarith
  then have "at_sector start (ucast (SWAP_BLOCK_INDEX start)) 0 (unat start)" by (rule at_sector_first)
  then obtain ret s' where "core_write_loop K start (ucast (SWAP_BLOCK_INDEX start)) (bad_index bad)
      (nat (get_swap_block_count start count)) 0 count 0 False buf ?s = Some (ret, s')"
    "ret = 0 \<or> ret = - 1 \<or> ret = - 0xaa"
    "wrote dsk (unat start) (unat count) buf (ret \<noteq> - 1) (ret = 0) ?s s'"
    using core_write_loop_ok [OF _ n, of ?s start "ucast (SWAP_BLOCK_INDEX start)" 0 0 buf "bad_index bad" False] u(1) ok R len by fastforce
  then show ?thesis
    using True by (simp add: scsi_swap_core_write_def wrote_def u)
qed

end

end
