(* ===== verification/Core_Read.thy ===== *)
theory Core_Read
  imports Core_Loop
begin

text \<open>
  A whole read: the bytes it returns are what the view of the users holds afterwards, and the view
  is unchanged when the read reports no loss.
\<close>

definition fetched :: "('w \<Rightarrow> nat \<Rightarrow> byte list) \<Rightarrow> nat \<Rightarrow> nat \<Rightarrow> byte list \<Rightarrow> bool \<Rightarrow> bool \<Rightarrow>
    'w sdev \<Rightarrow> 'w sdev \<Rightarrow> bool" where
  "fetched dsk a n buf fin clean s s' \<longleftrightarrow> wrote dsk a n buf fin False s s' \<and>
     (fin \<and> clean \<longrightarrow> (\<forall>m < unat (sector_reserve_start (core s)). logical dsk s' m = logical dsk s m))"

lemma fetchedD: "fetched dsk a n buf fin clean s s' \<Longrightarrow> wrote dsk a n buf fin False s s'"
  by (simp add: fetched_def)

lemma fetched_same:
  assumes "core_ok s'" "sector_reserve_start (core s') = sector_reserve_start (core s)"
    "user (core s') = user (core s)"
    "\<And>m. m < unat (sector_reserve_start (core s)) \<Longrightarrow> logical dsk s' m = logical dsk s m"
    "\<And>k. fin \<Longrightarrow> k < n \<Longrightarrow> logical dsk s' (a + k) = slice (512 * k) 512 buf"
  shows "fetched dsk a n buf fin clean s s'"
  using assms by (simp add: fetched_def wrote_def)

lemma fetched_quiet:
  assumes "quiet dsk A s s'" "core_ok s" "A \<inter> set (info_list (core s)) = {}"
  shows "fetched dsk a n buf False c s s'"
  using quiet_wrote [OF assms] by (simp add: fetched_def)

lemma fetched_comp:
  assumes "fetched dsk a n b1 True c1 s s1" "fetched dsk (a + n) k b2 fin c2 s1 s2"
    "length b1 = 512 * n" "(a + n) mod 128 = 0" "a + n \<le> unat (sector_reserve_start (core s))"
  shows "fetched dsk a (n + k) (b1 @ b2) fin (c1 \<and> c2) s s2"
proof -
  have "sector_reserve_start (core s1) = sector_reserve_start (core s)"
    using fetchedD [OF assms(1)] by (simp add: wrote_def)
  then show ?thesis
    using wrote_comp [OF fetchedD [OF assms(1)] fetchedD [OF assms(2)] assms(3-5)] assms(1,2)
    by (simp add: fetched_def)
qed

lemma fetched_rebase:
  assumes same: "\<And>m. logical dsk s1 m = logical dsk s m"
    and "sector_reserve_start (core s1) = sector_reserve_start (core s)" "user (core s1) = user (core s)"
    and f: "fetched dsk a n buf fin clean s1 s'"
  shows "fetched dsk a n buf fin clean s s'"
proof -
  have "wrote dsk a n buf fin False s s'"
    using wrote_rebase [OF _ assms(2,3) fetchedD [OF f]] same by simp
  then show ?thesis using f same assms(2) by (simp add: fetched_def)
qed

lemma fetched_fail: "fetched dsk a n b False c s s' \<Longrightarrow> n \<le> n' \<Longrightarrow> fetched dsk a n' b' False c' s s'"
  using wrote_fail [of dsk a n b False s s' n' b' False] by (simp add: fetched_def)

lemma fetched_clean: "fetched dsk a n b fin c s s' \<Longrightarrow> (c' \<Longrightarrow> c) \<Longrightarrow> fetched dsk a n b fin c' s s'"
  by (simp add: fetched_def)

lemma fetched_buf:
  assumes "fetched dsk a n b fin c s s'" "\<And>k. k < n \<Longrightarrow> slice (512 * k) 512 b = slice (512 * k) 512 b'"
  shows "fetched dsk a n b' fin c s s'"
  using assms wrote_buf [OF fetchedD [OF assms(1)], of b'] by (simp add: fetched_def)

text \<open>The offset of the request in its block, as the read path computes it.\<close>

lemma read_offset:
  assumes "unat (b :: u32) = 128 * (unat (sec :: sector_t) div 128)"
  shows "unat (ucast (sec - ucast b) * 512 :: u32) = 512 * (unat sec mod 128)"
proof -
  have "unat (ucast b :: sector_t) = unat (SWAP_SECTOR_ALIGN sec)"
    using unat_less_u32 [of b] assms by (simp add: align_facts unsigned_ucast_eq take_bit_eq_mod)
  then have "ucast b = SWAP_SECTOR_ALIGN sec" by (metis unsigned_word_eqI)
  moreover have "unat (ucast (sec - SWAP_SECTOR_ALIGN sec) :: u32) = unat sec mod 128"
    by (simp add: unsigned_ucast_eq take_bit_eq_mod align_facts)
  ultimately show ?thesis
    using mod_less_divisor [of 128 "unat sec"] by (simp add: unat_word_ariths)
qed

lemma copy_offset: "unat ((sec - SWAP_SECTOR_ALIGN sec) * 512) = 512 * (unat sec mod 128)"
  using mod_less_divisor [of 128 "unat sec"] by (simp only: unat_word_ariths align_facts) simp

text \<open>The whole of a chunk is replaced.\<close>

lemma memwrite_all: "length src = length chunk \<Longrightarrow> memwrite chunk 0 src = Some src"
  by (simp add: memwrite_def overwrite_def)

lemma read_frame:
  assumes "take (off + n) b' = take off b @ got" "off + n \<le> length b" "length b' = length b" "length got = n"
  shows "take off b' = take off b" "drop off b' = got @ drop (off + n) b'"
proof -
  have b': "b' = take off b @ got @ drop (off + n) b'"
    using assms(1) append_take_drop_id [of "off + n" b'] by simp
  then show "take off b' = take off b" using assms(2)
    by (metis append_eq_conv_conj length_take min.absorb2 le_add1 le_trans)
  show "drop off b' = got @ drop (off + n) b'"
    using assms(2) b' by (metis append_eq_conv_conj length_take min.absorb2 le_add1 le_trans)
qed

context scsi_disk
begin

lemma core_read_bad_ok:
  assumes ok: "core_ok s" and free: "find_src (core s) (128 * (unat sec div 128)) = None"
    and b: "unat b_start = 128 * (unat sec div 128)"
    and n: "n = unat num" "0 < n" "unat sec mod 128 + n \<le> 128" "length chunk = 512 * n"
    and R: "unat sec + n \<le> unat (sector_reserve_start (core s))"
  shows "\<exists>st chunk' s'. core_read_bad K b_start sec num chunk s = Some (st, chunk', s') \<and>
    (st = 1 \<or> st = - 1) \<and> length chunk' = length chunk \<and>
    fetched dsk (unat sec) n chunk' (st \<noteq> - 1) False s s'"
proof -
  obtain r1 s1 where 1: "swap_repair_successive_sectors K sec num s = (r1, s1)" by fastforce
  note rep = repair_quiet [OF 1]
  have ok1: "core_ok s1" using quiet_core_ok [OF rep(1) [of "{}"] ok] by simp
  have sec: "unat sec < unat (sector_reserve_start (core s1))" "unat num < 2 ^ 31"
    using R n quietD(4) [OF rep(1)] by simp_all
  show ?thesis
  proof (cases "device_dead (core s1) = 0")
    case False
    then show ?thesis
      using 1 rep fetched_quiet [OF rep(1) [of "{}"] ok] by (simp add: core_read_bad_def)
  next
    case True
    obtain r s2 where 2: "swap_create K sec num s1 = Some (r, s2)" "quiet dsk {} s1 s2"
      "case r of None \<Rightarrow> True | Some p \<Rightarrow> info_num (core s1) < 128 \<and>
        next_info (core s1) \<le> p \<and> p < next_info (core s2) \<and>
        (\<exists>i. infos (core s2) p = Some i \<and> info_ok (core s2) i \<and>
          unat (src_sec (table i)) = 128 * (unat sec div 128))"
      using swap_create_ok [OF core_okD(1) [OF ok1] sec] by (fastforce split: option.splits)
    have q2: "quiet dsk {} s s2" using quiet_trans [OF rep(1) 2(2)] .
    have ok2: "core_ok s2" using quiet_core_ok [OF q2 ok] by simp
    show ?thesis
    proof (cases r)
      case None
      then show ?thesis
        using 1 2(1) rep(2) True fetched_quiet [OF q2 ok] by (simp add: core_read_bad_def)
    next
      case (Some p)
      then obtain i where i: "infos (core s2) p = Some i" "info_ok (core s2) i" "info_num (core s1) < 128"
        "unat (src_sec (table i)) = 128 * (unat sec div 128)" "next_info (core s1) \<le> p" "p < next_info (core s2)"
        using 2(3) by auto
      obtain d where d: "sdata i = Some d" "length d = 65536"
        using i(2) by (auto simp: info_ok_def split: option.splits)
      define got where "got = slice (512 * (unat sec mod 128)) (512 * n) d"
      have got: "memread d (unat (ucast (sec - ucast b_start) * 512 :: u32)) (min (length chunk) SWAP_BLOCK_SIZE) = Some got"
        "length got = length chunk"
        using n(3,4) d(2) read_offset [OF b] by (simp_all add: memread_def got_def layout_simps min_absorb1)
      obtain ret s3 where 3: "flush_swap_info_data K i s2 = (ret, s3)" by fastforce
      note fl = flush_data_ok [OF core_okD(1) [OF ok2] i(2) d(1) 3]
      have q3: "quiet dsk {} s s3" using quiet_trans [OF q2 fl(1)] .
      have ok3: "core_ok s3" using quiet_core_ok [OF q3 ok] by simp
      have i3: "infos (core s3) p = Some i" using fl(2) i(1) by (simp add: keeps_def)
      show ?thesis
      proof (cases "ret = 0")
        case False
        have dj: "{p} \<inter> set (info_list (core s)) = {}"
          using infos_okD [OF core_okD(2) [OF ok1], of p] i(5) quietD(1) [OF rep(1)] by auto
        have "quiet dsk {p} s (drop_info p i s3)"
          unfolding drop_info_def
          using quiet_trans [OF quiet_trans [OF quiet_mono [OF q3] quiet_mark] quiet_dealloc] by simp
        then show ?thesis
          using 1 2(1) Some rep(2) True i(1) d(1) got 3 False memwrite_all [OF got(2)] fetched_quiet [OF _ ok dj]
          by (simp add: core_read_bad_def)
      next
        case ret: True
        have p3: "p < next_info (core s3)" using quietD(9) [OF fl(1)] i(6) by (metis order_less_le_trans)
        have src: "src_of (core s3) p = 128 * (unat sec div 128)" using i3 i(4) by (simp add: src_of_def)
        have new: "find_src (core s3) (src_of (core s3) p) = None"
          using quiet_infos_ok(2) [OF q3 core_okD(2) [OF ok]] free src by auto
        have num: "info_num (core s3) < 128" using i(3) quietD(2) [OF q3] quietD(2) [OF rep(1)] by simp
        have pl3: "p \<notin> set (info_list (core s3))"
          using infos_okD [OF core_okD(2) [OF ok1], of p] i(5) quietD(1) [OF rep(1)] quietD(1) [OF q3] by auto
        have iok3: "info_ok (core s3) i" using info_ok_core [of "core s2" "core s3" i] i(2) quietD [OF fl(1)] by simp
        obtain s4 where 4: "flush_swap_info_table K (append_info p s3) = Some (0, s4)"
          and fin: "let s5 = upd_core (\<lambda>c. c\<lparr>info_num := info_num c + 1\<rparr>) s4 in
            core_ok s5 \<and> sector_reserve_start (core s5) = sector_reserve_start (core s3) \<and>
            user (core s5) = user (core s3) \<and> quiet dsk {} (add_info p s3) s5 \<and>
            head (core s5) = head (core s3) \<and>
            (\<forall>m < unat (sector_reserve_start (core s3)). logical dsk s5 m =
              (if 128 * (m div 128) = src_of (core s3) p then slice (512 * (m mod 128)) 512 d
               else logical dsk s3 m))"
          using finish_mapping [OF ok3 pl3 p3 i3 iok3 d(1) new num] by blast
        define s5 where "s5 = upd_core (\<lambda>c. c\<lparr>info_num := info_num c + 1\<rparr>) s4"
        have run: "core_read_bad K b_start sec num chunk s = Some (1, got, s5)"
          using 1 2(1) Some rep(2) True i(1) d(1) got 3 memwrite_all [OF got(2)] ret 4
          by (simp add: core_read_bad_def s5_def Let_def)
        have "wrote dsk (unat sec) n got True False s s5"
          by (rule mapped_wrote [OF _ _ _ _ n(2,3) R, where d = d])
            (use fin quietD(3,4) [OF q3] src quiet_logical [OF q3 ok] in \<open>simp_all add: s5_def Let_def got_def\<close>)
        then show ?thesis using run got(2) by (simp add: fetched_def)
      qed
    qed
  qed
qed

lemma read_mapped_ok:
  assumes ok: "core_ok s" and found: "find_src (core s) (128 * (unat sec div 128)) = Some p"
    and n: "0 < n" "unat sec mod 128 + n \<le> 128"
  obtains i src where "infos (core s) p = Some i" "u_swap_read i sec n = Some src" "length src = 512 * n"
    "fetched dsk (unat sec) n src True True s s"
proof -
  note pl = find_src_Some [OF found]
  obtain i d where i: "infos (core s) p = Some i" "sdata i = Some d" "length d = 65536"
    using infos_okD [OF core_okD(2) [OF ok] pl(1)] by blast
  define src where "src = slice (512 * (unat sec mod 128)) (512 * n) d"
  have "logical dsk s (unat sec + k) = slice (512 * k) 512 src" if "k < n" for k
    using logical_mapped [of s "unat sec + k" p i d dsk] found i that n in_block [of "unat sec" k]
      slice_chunk [of "unat sec mod 128" n d src k] by (simp add: src_def)
  then have "fetched dsk (unat sec) n src True True s s" by (intro fetched_same ok) simp_all
  moreover have "u_swap_read i sec n = Some src" "length src = 512 * n"
    using i n(2) by (simp_all add: u_swap_read_def copy_offset memread_def src_def mult.commute [of n] Let_def
        del: left_diff_distrib_numeral)
  ultimately show thesis using that [of i src] i(1) by simp
qed

lemma user_read_ok:
  assumes r: "hd_read_sector K sec num (Some chunk) t r s = (x, ob, s')" and ok: "core_ok s"
    and free: "find_src (core s) (128 * (unat sec div 128)) = None"
    and n: "n = unat num" "unat sec mod 128 + n \<le> 128" "length chunk = 512 * n"
    and R: "unat sec + n \<le> unat (sector_reserve_start (core s))"
  shows "\<exists>got. ob = Some got \<and> length got = length chunk \<and> fetched dsk (unat sec) n got (x = 0) True s s'"
    "\<And>m. logical dsk s' m = logical dsk s m" "find_src (core s') b = find_src (core s) b" "io_step s s'"
proof -
  note io = io_step_hd_read [OF r]
  have law: "\<exists>got. ob = Some got \<and> length got = length chunk \<and> dsk (world s') = dsk (world s) \<and>
      (x = 0 \<longrightarrow> got = sectors_at (dsk (world s)) (unat sec) n)"
    using hd_read_law [OF r] n R reserve_small [OF ok] by fastforce
  then obtain got where got: "ob = Some got" "length got = length chunk" "dsk (world s') = dsk (world s)"
    "x = 0 \<longrightarrow> got = sectors_at (dsk (world s)) (unat sec) n" by blast
  have so: "src_of (core s') = src_of (core s)" by (simp add: src_of_def io_stepD(9) [OF io] fun_eq_iff)
  have f: "find_src (core s') b = find_src (core s) b" for b
    by (simp add: find_src_def io_stepD(8) [OF io] so)
  have same: "logical dsk s' m = logical dsk s m" for m
    using f io_stepD(9) [OF io] got(3) by (simp add: logical_def cong: option.case_cong)
  have "logical dsk s' (unat sec + k) = slice (512 * k) 512 got" if "x = 0" "k < n" for k
    using that got(3,4) f free in_block(1) [of "unat sec" k] n(2)
      slice_sectors_at [of "dsk (world s)" k 1 n "unat sec"]
    by (simp add: logical_def sector_length sectors_at_1)
  then have "fetched dsk (unat sec) n got (x = 0) True s s'"
    using io_step_core_ok [OF io ok] io_stepD(6,11) [OF io] same by (intro fetched_same) simp_all
  then show "\<exists>got. ob = Some got \<and> length got = length chunk \<and> fetched dsk (unat sec) n got (x = 0) True s s'"
    using got(1,2) by blast
  show "\<And>m. logical dsk s' m = logical dsk s m" "find_src (core s') b = find_src (core s) b" "io_step s s'"
    using same f io by simp_all
qed

lemma core_read_block_ok:
  assumes ok: "core_ok s" and b: "unat b_start = 128 * (unat sec div 128)"
    and n: "n = unat num" "0 < n" "unat sec mod 128 + n \<le> 128" "length chunk = 512 * n"
    and R: "unat sec + n \<le> unat (sector_reserve_start (core s))"
  shows "\<exists>st chunk' s'. core_read_block K bad b_start sec num chunk s = Some (st, chunk', s') \<and>
    (st = 0 \<or> st = 1 \<or> st = - 1) \<and> length chunk' = length chunk \<and>
    fetched dsk (unat sec) n chunk' (st \<noteq> - 1) (st = 0) s s'"
proof -
  have find: "swap_find_swap_info (core s) (ucast b_start) = Some (find_src (core s) (128 * (unat sec div 128)))"
    by (rule find_block [OF ok b])
  show ?thesis
  proof (cases "find_src (core s) (128 * (unat sec div 128))")
    case (Some p)
    obtain i src where "infos (core s) p = Some i" "u_swap_read i sec n = Some src" "length src = 512 * n"
      "fetched dsk (unat sec) n src True True s s"
      using read_mapped_ok [OF ok Some n(2,3)] by blast
    then show ?thesis
      using find Some n memwrite_all [of src chunk] by (simp add: core_read_block_def)
  next
    case None
    note badok = core_read_bad_ok [OF ok None b n R]
    show ?thesis
    proof (cases bad)
      case True
      obtain st chunk' s' where "core_read_bad K b_start sec num chunk s = Some (st, chunk', s')" "st = 1 \<or> st = - 1"
        "length chunk' = length chunk" "fetched dsk (unat sec) n chunk' (st \<noteq> - 1) False s s'"
        using badok by blast
      then show ?thesis using find None True by (auto simp: core_read_block_def)
    next
      case False
      obtain x ob s1 where r: "hd_read_sector K sec num (Some chunk) 10 5 s = (x, ob, s1)" by (metis prod_cases3)
      note u = user_read_ok [OF r ok None n(1,3,4) R]
      note io = io_stepD(6,11) [OF u(4)]
      obtain got where got: "ob = Some got" "length got = length chunk"
        "fetched dsk (unat sec) n got (x = 0) True s s1"
        using u(1) by blast
      have run: "core_read_block K bad b_start sec num chunk s =
          (if x = 0 then Some (0, got, s1) else if device_dead (core s1) \<noteq> 0 then Some (- 1, got, s1)
           else core_read_bad K b_start sec num got s1)"
        using find None False r got(1) by (simp add: core_read_block_def hd_read_sector_retry_def)
      consider "x = 0" | "x \<noteq> 0" "device_dead (core s1) \<noteq> 0" | "x \<noteq> 0" "device_dead (core s1) = 0"
        by blast
      then show ?thesis
      proof cases
        case 1
        then show ?thesis using run got(2,3) by simp
      next
        case 2
        then show ?thesis using run got(2,3) fetched_fail [of dsk "unat sec" n got True s s1 n got False] by simp
      next
        case 3
        have ok1: "core_ok s1" using io_step_core_ok [OF u(4) ok] .
        obtain st chunk' s' where bad: "core_read_bad K b_start sec num got s1 = Some (st, chunk', s')"
          "st = 1 \<or> st = - 1" "length chunk' = length got" "fetched dsk (unat sec) n chunk' (st \<noteq> - 1) False s1 s'"
          using core_read_bad_ok [OF ok1 _ b n(1-3), of got] u(3) None R io(2) got(2) n(4) by auto
        have "fetched dsk (unat sec) n chunk' (st \<noteq> - 1) (st = 0) s s'"
          using fetched_rebase [OF u(2) io(2,1) bad(4)] bad(2) by auto
        then show ?thesis using run 3 bad(1-3) got(2) by auto
      qed
    qed
  qed
qed

lemma core_read_loop_ok:
  assumes "core_ok s" "n = rounds a (unat count)" "0 < unat count \<longrightarrow> at_sector start i_start i a"
    "a + unat count \<le> unat (sector_reserve_start (core s))" "off + 512 * unat count \<le> length buf"
  shows "\<exists>ret buf' s'. core_read_loop K start i_start i_bad n i count off dirty buf s = Some (ret, buf', s') \<and>
    (ret = 0 \<or> ret = - 1 \<or> ret = - 0xaa) \<and> (dirty \<longrightarrow> ret \<noteq> 0) \<and> length buf' = length buf \<and>
    take off buf' = take off buf \<and> drop (off + 512 * unat count) buf' = drop (off + 512 * unat count) buf \<and>
    fetched dsk a (unat count) (drop off buf') (ret \<noteq> - 1) (ret = 0) s s'"
  using assms
proof (induction n arbitrary: a count i off dirty buf s)
  case 0
  then have "unat count = 0" by (cases "unat count = 0") (simp_all add: rounds_step)
  then show ?case using 0 by (simp add: fetched_def wrote_none)
next
  case (Suc n)
  define c where "c = unat count"
  define k where "k = seg a c"
  have c: "0 < c" using Suc.prems(2) by (cases "c = 0") (simp_all add: rounds_def c_def)
  have at: "at_sector start i_start i a" using Suc.prems(3) c by (simp add: c_def)
  have a: "a + c < 2 ^ 32" using Suc.prems(4) reserve_small [OF Suc.prems(1)] by (simp add: c_def)
  define num where "num = seg_count start i_start i count"
  have f: "unat (seg_start start i_start i) = a" "unat (blk_start i_start i) = 128 * (a div 128)" "unat num = k"
    using at_sector_facts [OF at] a by (simp_all add: num_def k_def c_def)
  have k: "0 < k" "k \<le> c" "a mod 128 + k \<le> 128" using c by (auto simp: k_def min_def)
  have cn: "unat (count - num) = c - k"
    using unat_sub [of num count] f(3) k(2) by (simp add: word_le_nat_alt c_def)
  have n: "n = rounds (a + k) (unat (count - num))"
    using Suc.prems(2) rounds_step [OF c, of a] cn by (simp add: c_def k_def)
  have len: "off + 512 * k \<le> length buf" "off + 512 * k + 512 * (c - k) \<le> length buf"
    "off + 512 * k + 512 * (c - k) = off + 512 * c"
    using Suc.prems(5) k(2) by (simp_all add: c_def)
  define chunk where "chunk = slice off (512 * k) buf"
  have chunk: "memread buf off (unat num * 512) = Some chunk" "length chunk = 512 * k"
    using len(1) f(3) by (simp_all add: memread_def chunk_def mult.commute)
  have R: "unat (seg_start start i_start i) + k \<le> unat (sector_reserve_start (core s))"
    using Suc.prems(4) k(2) f(1) by (simp add: c_def)
  obtain st got s1 where st: "core_read_block K (i_bad = i_start + i) (blk_start i_start i)
      (seg_start start i_start i) num chunk s = Some (st, got, s1)" "st = 0 \<or> st = 1 \<or> st = - 1"
    "length got = 512 * k" "fetched dsk a k got (st \<noteq> - 1) (st = 0) s s1"
    using core_read_block_ok [OF Suc.prems(1) _ f(3) [symmetric] k(1) _ chunk(2) R, of "blk_start i_start i"
        "i_bad = i_start + i"] f k(3) chunk(2) by auto
  define buf1 where "buf1 = overwrite off got buf"
  have b1: "memwrite buf off got = Some buf1" "length buf1 = length buf" "take off buf1 = take off buf"
    "take (off + 512 * k) buf1 = take off buf @ got" "drop (off + 512 * k) buf1 = drop (off + 512 * k) buf"
    using len(1) st(3) by (simp_all add: memwrite_def buf1_def overwrite_def)
  have run: "core_read_loop K start i_start i_bad (Suc n) i count off dirty buf s =
      (if st = - 1 then Some (- 1, buf1, s1) else core_read_loop K start i_start i_bad n (i + 1) (count - num)
        (off + 512 * k) (dirty \<or> st = 1) buf1 s1)"
    using st(1) chunk(1) f(3) b1(1) by (simp add: num_def mult.commute)
  have tail: "drop (off + 512 * c) buf1 = drop (off + 512 * c) buf"
    using b1(5) len(3) by (metis add.commute drop_drop)
  show ?case
  proof (cases "st = - 1")
    case True
    then show ?thesis using run st(4) fetched_fail [of dsk a k got] k(2) b1 tail by (simp add: c_def)
  next
    case False
    then have w1: "fetched dsk a k got True (st = 0) s s1" using st(4) by simp
    have same: "sector_reserve_start (core s1) = sector_reserve_start (core s)" "core_ok s1"
      using fetchedD [OF w1] by (simp_all add: wrote_def)
    have A: "0 < unat (count - num) \<longrightarrow> at_sector start i_start (i + 1) (a + k)"
      using at_sector_next(1) [OF at _ a] by (simp add: k_def cn)
    have B: "a + k + unat (count - num) \<le> unat (sector_reserve_start (core s1))"
      using Suc.prems(4) k(2) by (simp add: cn same(1) c_def)
    have C: "off + 512 * k + 512 * unat (count - num) \<le> length buf1" using len(2) b1(2) by (simp add: cn)
    obtain ret buf' s' where r: "core_read_loop K start i_start i_bad n (i + 1) (count - num)
        (off + 512 * k) (dirty \<or> st = 1) buf1 s1 = Some (ret, buf', s')" "ret = 0 \<or> ret = - 1 \<or> ret = - 0xaa"
      "dirty \<or> st = 1 \<longrightarrow> ret \<noteq> 0" "length buf' = length buf1"
      "take (off + 512 * k) buf' = take (off + 512 * k) buf1"
      "drop (off + 512 * k + 512 * (c - k)) buf' = drop (off + 512 * k + 512 * (c - k)) buf1"
      "fetched dsk (a + k) (c - k) (drop (off + 512 * k) buf') (ret \<noteq> - 1) (ret = 0) s1 s'"
      using Suc.IH [OF same(2) n A B C, of "dirty \<or> st = 1"] unfolding cn by (elim exE conjE)
    have buf': "take off buf' = take off buf" "drop off buf' = got @ drop (off + 512 * k) buf'"
      "drop (off + 512 * c) buf' = drop (off + 512 * c) buf" "length buf' = length buf"
      using read_frame [OF r(5) [unfolded b1(4)] len(1) _ st(3)] r(4,6) b1(2) tail len(3) by simp_all
    have "fetched dsk a c (drop off buf') (ret \<noteq> - 1) (ret = 0) s s'"
    proof (cases "c = k")
      case True
      then have "n = 0" using n cn by (simp add: rounds_def)
      then have e: "s' = s1" "ret = (if dirty \<or> st = 1 then - 0xaa else 0)" using r(1) by auto
      have w: "fetched dsk a k (drop off buf') True (st = 0) s s1"
        by (rule fetched_buf [OF w1]) (simp add: buf'(2) slice_def st(3))
      have "ret \<noteq> - 1" "ret = 0 \<Longrightarrow> st = 0" using e(2) st(2) \<open>st \<noteq> - 1\<close> by (auto split: if_splits)
      then show ?thesis using fetched_clean [OF w, of "ret = 0"] e(1) True by simp
    next
      case False
      then have "(a + k) mod 128 = 0" using at_sector_next(2) [OF at _ a] k(2) by (simp add: k_def)
      then have "fetched dsk a (k + (c - k)) (drop off buf') (ret \<noteq> - 1) (st = 0 \<and> ret = 0) s s'"
        unfolding buf'(2) using fetched_comp [OF w1 r(7) st(3)] R f(1) by simp
      moreover have "(st = 0 \<and> ret = 0) = (ret = 0)" using r(3) st(2) \<open>st \<noteq> - 1\<close> by auto
      ultimately show ?thesis using k(2) by simp
    qed
    then show ?thesis using run False r(1-3) buf'
      by (intro exI [of _ ret] exI [of _ buf'] exI [of _ s']) (simp add: c_def)
  qed
qed

lemma core_read_ok:
  assumes ok: "core_ok s" and count: "0 < unat count" "unat count < 2 ^ 31 - 128"
    and R: "unat start + unat count \<le> unat (sector_reserve_start (core s))"
    and len: "512 * unat count \<le> length buf"
  shows "\<exists>ret buf' s'. scsi_swap_core_read K start count bad buf s = Some (ret, buf', s') \<and>
    (ret = 0 \<or> ret = - 1 \<or> ret = - 0xaa) \<and> length buf' = length buf \<and>
    drop (512 * unat count) buf' = drop (512 * unat count) buf \<and>
    fetched dsk (unat start) (unat count) buf' (ret \<noteq> - 1) (ret = 0) s s'"
proof (cases "device_dead (core s) = 0")
  case False
  then show ?thesis
    using fetched_quiet [OF quiet_refl ok, of "{}"] by (simp add: scsi_swap_core_read_def)
next
  case True
  let ?s = "upd_core (\<lambda>c. c\<lparr>user := user c + 1\<rparr>) s"
  note u = core_ok_user logical_user
  have n: "nat (get_swap_block_count start count) = rounds (unat start) (unat count)"
    using block_count [OF count(2)] count(1) by (simp add: rounds_def)
  have "unat start < 2 ^ 32" using R reserve_small [OF ok] by linarith
  then have "at_sector start (ucast (SWAP_BLOCK_INDEX start)) 0 (unat start)" by (rule at_sector_first)
  then obtain ret buf' s' where "core_read_loop K start (ucast (SWAP_BLOCK_INDEX start)) (bad_index bad)
      (nat (get_swap_block_count start count)) 0 count 0 False buf ?s = Some (ret, buf', s')"
    "ret = 0 \<or> ret = - 1 \<or> ret = - 0xaa" "length buf' = length buf"
    "drop (512 * unat count) buf' = drop (512 * unat count) buf"
    "fetched dsk (unat start) (unat count) buf' (ret \<noteq> - 1) (ret = 0) ?s s'"
    using core_read_loop_ok [OF _ n, of ?s start "ucast (SWAP_BLOCK_INDEX start)" 0 0 buf "bad_index bad" False]
      u(1) ok R len by fastforce
  then show ?thesis
    using True by (simp add: scsi_swap_core_read_def fetched_def wrote_def u)
qed

end

end
