(* ===== verification/Ram_Disk.thy ===== *)
theory Ram_Disk
  imports Utils
begin

text \<open>
  A concrete environment: a disk whose medium is a function from sector numbers to contents, with
  a predicate for unreadable and one for unwritable sectors, an allocator that can be switched
  off, and a clock. It satisfies the contract \<open>scsi_disk\<close>, so the hypotheses of the properties
  can hold, and it is what their witnesses run on.
\<close>

record ram_disk =
  cells :: "nat \<Rightarrow> byte list"
  bad_read :: "nat \<Rightarrow> bool"
  bad_write :: "nat \<Rightarrow> bool"
  mem_ok :: bool
  seconds :: u32

definition ram_sector :: "ram_disk \<Rightarrow> nat \<Rightarrow> byte list" where
  "ram_sector w m = take 512 (cells w m @ replicate 512 0)"

definition ram_sense :: "byte list \<Rightarrow> scsi_sense_hdr" where
  "ram_sense b =
     (if 3 \<le> length b
      then \<lparr>response_code = b ! 0, sense_key = b ! 2, asc = 0, ascq = 0\<rparr>
      else \<lparr>response_code = 0, sense_key = 0, asc = 0, ascq = 0\<rparr>)"

definition ram_execute ::
    "byte list \<Rightarrow> dma_direction \<Rightarrow> byte list \<Rightarrow> nat \<Rightarrow> nat \<Rightarrow> ram_disk
      \<Rightarrow> u32 \<times> byte list \<times> byte list \<times> ram_disk" where
  "ram_execute cdb dir buf t r w =
     (let lba = cdb_lba cdb; n = cdb_count cdb; medium_error = [0x70, 0, 3] in
      if cdb ! 0 = 0x28 then
        if list_ex (bad_read w) [lba..<lba + n] then (0x08000002, medium_error, buf, w)
        else (0, [], take (length buf) (sectors_at (ram_sector w) lba n @ drop (512 * n) buf), w)
      else if cdb ! 0 = 0x2a then
        if list_ex (bad_write w) [lba..<lba + n] then (0x08000002, medium_error, buf, w)
        else (0, [], buf,
              w\<lparr>cells := \<lambda>m. if lba \<le> m \<and> m < lba + n
                              then slice (512 * (m - lba)) 512 buf else cells w m\<rparr>)
      else (0, [], buf, w))"

definition ram_kernel :: "ram_disk kernel" where
  "ram_kernel =
     \<lparr>scsi_execute = ram_execute,
      scsi_execute_req = \<lambda>cdb dir buf t r w.
        (0, \<lparr>response_code = 0, sense_key = 0, asc = 0, ascq = 0\<rparr>, buf, w),
      scsi_normalize_sense = ram_sense,
      sdev_state = \<lambda>w. SDEV_RUNNING,
      kmalloc = \<lambda>n w. (if mem_ok w then Some (replicate n 0xa5) else None, w),
      tv_sec = seconds\<rparr>"

lemma length_ram_sector [simp]: "length (ram_sector w m) = 512"
  by (simp add: ram_sector_def)

lemma ram_medium_error: "hd_filter_sense ram_kernel 0x08000002 [0x70, 0, 3] \<noteq> 0"
  by (simp add: hd_filter_sense_def ram_kernel_def ram_sense_def driver_byte_def Let_def)

interpretation ram: scsi_disk ram_kernel ram_sector
proof
  fix w :: ram_disk and m :: nat
  show "length (ram_sector w m) = 512" by simp
next
  fix cdb :: "byte list" and buf t r and w :: ram_disk and ret sense buf' w'
  assume e: "scsi_execute ram_kernel cdb DMA_FROM_DEVICE buf t r w = (ret, sense, buf', w')"
    and c: "cdb ! 0 = 0x28"
  have l: "length (sectors_at (ram_sector w) (cdb_lba cdb) (cdb_count cdb)) = 512 * cdb_count cdb"
    by (simp add: length_sectors_at)
  show "ram_sector w' = ram_sector w \<and> length buf' = length buf \<and>
      (hd_filter_sense ram_kernel ret sense = 0 \<and> 512 * cdb_count cdb \<le> length buf \<longrightarrow>
        buf' = sectors_at (ram_sector w) (cdb_lba cdb) (cdb_count cdb) @
          drop (512 * cdb_count cdb) buf)"
    using e c l ram_medium_error
    by (auto simp: ram_kernel_def ram_execute_def Let_def split: if_splits)
next
  fix cdb :: "byte list" and buf t r and w :: ram_disk and ret sense buf' w'
  assume e: "scsi_execute ram_kernel cdb DMA_TO_DEVICE buf t r w = (ret, sense, buf', w')"
    and c: "cdb ! 0 = 0x2a"
  show "(\<forall>m. m < cdb_lba cdb \<or> cdb_lba cdb + cdb_count cdb \<le> m \<longrightarrow>
          ram_sector w' m = ram_sector w m) \<and>
      (hd_filter_sense ram_kernel ret sense = 0 \<and> 512 * cdb_count cdb \<le> length buf \<longrightarrow>
        (\<forall>i < cdb_count cdb. ram_sector w' (cdb_lba cdb + i) = slice (512 * i) 512 buf))"
    using e c ram_medium_error
    by (auto simp: ram_kernel_def ram_execute_def Let_def ram_sector_def split: if_splits)
qed (auto simp: ram_kernel_def split: if_splits)

text \<open>A device over a fresh medium: every sector readable, writable and zero.\<close>

definition ram_new :: ram_disk where
  "ram_new = \<lparr>cells = \<lambda>m. [], bad_read = \<lambda>m. False, bad_write = \<lambda>m. False,
              mem_ok = True, seconds = 0\<rparr>"

end
