(* ===== verification/Core_Trace.thy ===== *)
theory Core_Trace
  imports Core_Read Ram_Disk
begin

text \<open>
  The core as its clients use it: the contracts of a write and of a read, and sequences of
  requests against an ideal disk.
\<close>

subsection \<open>A concrete device\<close>

text \<open>
  The core over the reference disk, with an empty table, an empty log and a blank head; the
  reserved area starts at sector 4096.
\<close>

definition ram_ring :: cspring where
  "ram_ring = \<lparr>item_cap = 512, item_size = 32, item_num = 0, item_next = 0, buffer = replicate 16384 0\<rparr>"

definition ram_sdev :: "ram_disk \<Rightarrow> ram_disk sdev" where
  "ram_sdev w =
     \<lparr>world = w, removable = False, changed = False,
      core = \<lparr>device_dead = 0, info_num = 0, user = 0, head = zero_head, info_list = [],
        infos = \<lambda>_. None, next_info = 0, sector_reserve_start = 4096, sector_head = 20480,
        sector_table = 36864, sector_data = 53248\<rparr>,
      slog = \<lparr>lhead = \<lparr>lh_crc = 0, lh_item_num = 0, lh_item_next = 0\<rparr>, ring = Some ram_ring,
        log_sector_head = 2068480, log_sector_data = 2070528\<rparr>\<rparr>"

lemma core_ok_ram_sdev: "core_ok (ram_sdev w)"
  by (simp add: core_ok_def sys_ok_def infos_ok_def geom_ok_def head_ok_def log_ok_def ram_sdev_def
      layout_simps zero_head_def head_of_bytes_def ram_ring_def cspring_ok_def
      cspring_size_def)

lemma reserve_ram_sdev [simp]: "sector_reserve_start (core (ram_sdev w)) = 4096"
  by (simp add: ram_sdev_def)

text \<open>A medium on which the sectors 5 and 300 can be neither read nor written.\<close>

definition ram_worn :: ram_disk where
  "ram_worn = ram_new\<lparr>bad_read := \<lambda>m. m = 5 \<or> m = 300, bad_write := \<lambda>m. m = 5 \<or> m = 300\<rparr>"

text \<open>A medium without bad sectors.\<close>

definition healthy :: "ram_disk \<Rightarrow> bool" where
  "healthy w \<longleftrightarrow> bad_read w = (\<lambda>m. False) \<and> bad_write w = (\<lambda>m. False)"

lemma ram_write_healthy:
  assumes "healthy (world s)" "length b = 512 * unat n"
  shows "\<exists>w. hd_write_sector_retry ram_kernel sec n (Some b) s = (0, s\<lparr>world := w\<rparr>) \<and> healthy w"
proof -
  have "\<not> (of_nat (length b) :: u32) < 512 * n" using assms(2) by (simp add: unsigned_of_nat)
  moreover have "hd_cdb 0x2a sec n ! 0 = 0x2a" by (simp add: hd_cdb_def)
  ultimately show ?thesis using assms(1)
    by (simp add: hd_write_sector_retry_def hd_write_sector_def ram_kernel_def ram_execute_def Let_def
        hd_filter_sense_def hd_return_def driver_byte_def list_ex_iff healthy_def)
      (intro exI conjI, rule refl, simp_all)
qed

lemma ram_read_healthy:
  assumes "healthy (world s)" "length b = 512 * unat n"
  shows "\<exists>b'. hd_read_sector_retry ram_kernel sec n (Some b) s = (0, Some b', s) \<and> length b' = length b"
proof -
  have "\<not> (of_nat (length b) :: u32) < 512 * n" using assms(2) by (simp add: unsigned_of_nat)
  moreover have "hd_cdb 0x28 sec n ! 0 = 0x28" by (simp add: hd_cdb_def)
  moreover have "length (sectors_at (ram_sector (world s)) m k @ drop (512 * k) b) \<ge> length b" for m k
    by (simp add: length_sectors_at)
  ultimately show ?thesis using assms(1)
    by (simp add: hd_read_sector_retry_def hd_read_sector_def ram_kernel_def ram_execute_def Let_def
        hd_filter_sense_def hd_return_def driver_byte_def list_ex_iff healthy_def length_sectors_at)
qed

text \<open>One sector of an unmapped block.\<close>

lemma one_sector:
  "nat (get_swap_block_count 8 1) = Suc 0" "seg_count 8 0 0 1 = 1" "seg_start 8 0 0 = 8"
  using block_count [of 1 8] by (simp_all add: blocks_def seg_count_def seg_start_def)

lemma ram_write_one:
  assumes "healthy (world s)" "info_list (core s) = []" "device_dead (core s) = 0"
  shows "\<exists>w. scsi_swap_core_write ram_kernel 8 1 (- 1) (replicate 512 7) s = Some (0, s\<lparr>world := w\<rparr>) \<and> healthy w"
proof -
  let ?s = "upd_core (\<lambda>c. c\<lparr>user := user c + 1\<rparr>) s"
  obtain w where "hd_write_sector_retry ram_kernel 8 1 (Some (replicate 512 7)) ?s = (0, ?s\<lparr>world := w\<rparr>)" "healthy w"
    using ram_write_healthy [of ?s "replicate 512 7" 1 8] assms(1) by auto
  then show ?thesis using assms(2,3)
    by (simp add: scsi_swap_core_write_def one_sector memread_def core_write_block_def
        swap_find_swap_info_def bad_index_def SWAP_BLOCK_INDEX_def slice_def Let_def) auto
qed

lemma ram_read_one:
  assumes "healthy (world s)" "info_list (core s) = []" "device_dead (core s) = 0"
  shows "\<exists>b. scsi_swap_core_read ram_kernel 8 1 (- 1) (replicate 512 0) s = Some (0, b, s)"
proof -
  let ?s = "upd_core (\<lambda>c. c\<lparr>user := user c + 1\<rparr>) s"
  obtain b where "hd_read_sector_retry ram_kernel 8 1 (Some (replicate 512 0)) ?s = (0, Some b, ?s)" "length b = 512"
    using ram_read_healthy [of ?s "replicate 512 0" 1 8] assms(1) by auto
  then show ?thesis using assms(2,3)
    by (simp add: scsi_swap_core_read_def one_sector memread_def core_read_block_def
        swap_find_swap_info_def bad_index_def SWAP_BLOCK_INDEX_def memwrite_def slice_def Let_def)
qed

subsection \<open>One request\<close>

text \<open>
  C2: a write of at least one sector below the reserved area runs to its end without a
  fault and returns 0, -1 or minus \<^verbatim>\<open>DATA_MAY_DIRTY\<close>. It keeps the invariant. Blocks that the
  request does not touch keep their contents. Unless it returns -1, every sector of the request
  then reads as the data given. When it returns 0, no other sector below the reserved area changed.
\<close>

theorem core_write_contract:
  assumes "scsi_disk K dsk" "core_ok s"
    and "0 < unat count" "unat count < 2 ^ 31 - 128" "512 * unat count \<le> length buf"
    and "unat start + unat count \<le> unat (sector_reserve_start (core s))"
  shows "\<exists>ret s'. scsi_swap_core_write K start count bad buf s = Some (ret, s') \<and>
    ret \<in> {0, - 1, - 0xaa} \<and> core_ok s' \<and>
    (\<forall>m < unat (sector_reserve_start (core s)).
       \<not> touches (unat start) (unat count) m \<longrightarrow> logical dsk s' m = logical dsk s m) \<and>
    (ret \<noteq> - 1 \<longrightarrow> (\<forall>k < unat count. logical dsk s' (unat start + k) = slice (512 * k) 512 buf)) \<and>
    (ret = 0 \<longrightarrow> (\<forall>m < unat (sector_reserve_start (core s)).
       m < unat start \<or> unat start + unat count \<le> m \<longrightarrow> logical dsk s' m = logical dsk s m))"
proof -
  obtain ret s' where r: "scsi_swap_core_write K start count bad buf s = Some (ret, s')"
    "ret = 0 \<or> ret = - 1 \<or> ret = - 0xaa" "wrote dsk (unat start) (unat count) buf (ret \<noteq> - 1) (ret = 0) s s'"
    using scsi_disk.core_write_ok [OF assms(1,2,3,4,6,5)] by blast
  show ?thesis
    by (intro exI [of _ ret] exI [of _ s']) (use r in \<open>auto simp: wrote_def\<close>)
qed

theorem core_write_contract_witness:
  "core_ok (ram_sdev ram_worn) \<and> (\<exists>ret s'. scsi_swap_core_write ram_kernel 4 3 (- 1) (replicate 1536 7)
     (ram_sdev ram_worn) = Some (ret, s') \<and> ret \<in> {0, - 1, - 0xaa} \<and> core_ok s' \<and>
     (ret \<noteq> - 1 \<longrightarrow> (\<forall>k < 3. logical ram_sector s' (4 + k) = slice (512 * k) 512 (replicate 1536 7))))"
  using core_write_contract [OF ram.scsi_disk_axioms core_ok_ram_sdev, of 3 "replicate 1536 7" 4 ram_worn "- 1"]
    core_ok_ram_sdev by simp blast

text \<open>
  C3: a read of at least one sector below the reserved area runs to its end without a
  fault and returns 0, -1 or minus \<^verbatim>\<open>DATA_MAY_DIRTY\<close>. It keeps the invariant, never writes beyond
  the request's part of the buffer, and leaves blocks alone that the request does not touch. Unless
  it returns -1, the buffer holds what the sectors read as from then on. When it returns 0, no
  sector below the reserved area changed, so the buffer holds what was there before.
\<close>

theorem core_read_contract:
  assumes "scsi_disk K dsk" "core_ok s"
    and "0 < unat count" "unat count < 2 ^ 31 - 128" "512 * unat count \<le> length buf"
    and "unat start + unat count \<le> unat (sector_reserve_start (core s))"
  shows "\<exists>ret buf' s'. scsi_swap_core_read K start count bad buf s = Some (ret, buf', s') \<and>
    ret \<in> {0, - 1, - 0xaa} \<and> core_ok s' \<and> length buf' = length buf \<and>
    drop (512 * unat count) buf' = drop (512 * unat count) buf \<and>
    (\<forall>m < unat (sector_reserve_start (core s)).
       \<not> touches (unat start) (unat count) m \<longrightarrow> logical dsk s' m = logical dsk s m) \<and>
    (ret \<noteq> - 1 \<longrightarrow> (\<forall>k < unat count. slice (512 * k) 512 buf' = logical dsk s' (unat start + k))) \<and>
    (ret = 0 \<longrightarrow> (\<forall>m < unat (sector_reserve_start (core s)). logical dsk s' m = logical dsk s m))"
proof -
  obtain ret buf' s' where r: "scsi_swap_core_read K start count bad buf s = Some (ret, buf', s')"
    "ret = 0 \<or> ret = - 1 \<or> ret = - 0xaa" "length buf' = length buf"
    "drop (512 * unat count) buf' = drop (512 * unat count) buf"
    "fetched dsk (unat start) (unat count) buf' (ret \<noteq> - 1) (ret = 0) s s'"
    using scsi_disk.core_read_ok [OF assms(1,2,3,4,6,5)] by blast
  show ?thesis
    by (intro exI [of _ ret] exI [of _ buf'] exI [of _ s'])
      (use r in \<open>auto simp: fetched_def wrote_def\<close>)
qed

theorem core_read_contract_witness:
  "core_ok (ram_sdev ram_worn) \<and> (\<exists>ret buf' s'. scsi_swap_core_read ram_kernel 298 4 300 (replicate 2048 7)
     (ram_sdev ram_worn) = Some (ret, buf', s') \<and> ret \<in> {0, - 1, - 0xaa} \<and> core_ok s' \<and>
     (ret \<noteq> - 1 \<longrightarrow> (\<forall>k < 4. slice (512 * k) 512 buf' = logical ram_sector s' (298 + k))))"
  using core_read_contract [OF ram.scsi_disk_axioms core_ok_ram_sdev, of 4 "replicate 2048 7" 298 ram_worn 300]
    core_ok_ram_sdev by simp blast

subsection \<open>Sequences of requests\<close>

datatype core_request = Read_req sector_t u32 sector_t | Write_req sector_t u32 sector_t "byte list"

primrec valid_req :: "nat \<Rightarrow> core_request \<Rightarrow> bool" where
  "valid_req R (Read_req start count bad) \<longleftrightarrow>
     0 < unat count \<and> unat count < 2 ^ 31 - 128 \<and> unat start + unat count \<le> R"
| "valid_req R (Write_req start count bad buf) \<longleftrightarrow>
     0 < unat count \<and> unat count < 2 ^ 31 - 128 \<and> unat start + unat count \<le> R \<and> length buf = 512 * unat count"

text \<open>The core serves a request with a return code and, for a read, the bytes of the buffer.\<close>

inductive serve :: "'w kernel \<Rightarrow> 'w sdev \<Rightarrow> core_request \<Rightarrow> int \<Rightarrow> byte list \<Rightarrow> 'w sdev \<Rightarrow> bool" for K where
  serve_read: "length buf = 512 * unat count \<Longrightarrow>
    scsi_swap_core_read K start count bad buf s = Some (ret, out, s') \<Longrightarrow>
    serve K s (Read_req start count bad) ret out s'"
| serve_write: "scsi_swap_core_write K start count bad buf s = Some (ret, s') \<Longrightarrow>
    serve K s (Write_req start count bad buf) ret [] s'"

inductive_cases serve_readE: "serve K s (Read_req start count bad) ret out s'"
inductive_cases serve_writeE: "serve K s (Write_req start count bad buf) ret out s'"

text \<open>A run: the requests with their answers, in order.\<close>

inductive run :: "'w kernel \<Rightarrow> 'w sdev \<Rightarrow> (core_request \<times> int \<times> byte list) list \<Rightarrow> 'w sdev \<Rightarrow> bool" for K where
  run_nil: "run K s [] s"
| run_step: "serve K s q ret out s1 \<Longrightarrow> run K s1 tr s' \<Longrightarrow> run K s ((q, ret, out) # tr) s'"

text \<open>The ideal disk: a function from sectors to their contents.\<close>

primrec ideal_next :: "core_request \<Rightarrow> (nat \<Rightarrow> byte list) \<Rightarrow> nat \<Rightarrow> byte list" where
  "ideal_next (Read_req start count bad) v = v"
| "ideal_next (Write_req start count bad buf) v =
     (\<lambda>m. if unat start \<le> m \<and> m < unat start + unat count then slice (512 * (m - unat start)) 512 buf else v m)"

primrec ideal_out :: "core_request \<Rightarrow> (nat \<Rightarrow> byte list) \<Rightarrow> byte list" where
  "ideal_out (Read_req start count bad) v = sectors_at v (unat start) (unat count)"
| "ideal_out (Write_req start count bad buf) v = []"

fun ideal_run :: "(nat \<Rightarrow> byte list) \<Rightarrow> core_request list \<Rightarrow> byte list list \<times> (nat \<Rightarrow> byte list)" where
  "ideal_run v [] = ([], v)"
| "ideal_run v (q # qs) = (let (outs, v') = ideal_run (ideal_next q v) qs in (ideal_out q v # outs, v'))"

text \<open>What one served request does, by its contract.\<close>

lemma slices_sectors_at:
  assumes "length b = 512 * n" "\<And>k. k < n \<Longrightarrow> slice (512 * k) 512 b = v (a + k)"
  shows "b = sectors_at v a n"
  using assms
proof (induction n arbitrary: b)
  case 0
  then show ?case by simp
next
  case (Suc n)
  have "take (512 * n) b = sectors_at v a n"
  proof (rule Suc.IH)
    show "length (take (512 * n) b) = 512 * n" using Suc.prems(1) by simp
    fix k assume k: "k < n"
    then have "slice (512 * k) 512 (take (512 * n) b) = slice (512 * k) 512 b"
      by (simp add: slice_def drop_take min_def)
    then show "slice (512 * k) 512 (take (512 * n) b) = v (a + k)" using Suc.prems(2) k by simp
  qed
  moreover have "drop (512 * n) b = v (a + n)"
    using Suc.prems(1) Suc.prems(2) [of n] by (simp add: slice_def)
  ultimately show ?case by (metis append_take_drop_id sectors_at_Suc)
qed

lemma serve_total:
  assumes "scsi_disk K dsk" "core_ok s" "valid_req (unat (sector_reserve_start (core s))) q"
  shows "\<exists>ret out s'. serve K s q ret out s'"
proof (cases q)
  case (Read_req start count bad)
  then show ?thesis
    using scsi_disk.core_read_ok [OF assms(1,2), of count start "replicate (512 * unat count) 0" bad] assms(3)
    by (fastforce intro: serve_read [of "replicate (512 * unat count) 0"])
next
  case (Write_req start count bad buf)
  then show ?thesis
    using scsi_disk.core_write_ok [OF assms(1,2), of count start buf bad] assms(3)
    by (fastforce intro: serve_write)
qed

lemma serve_ok:
  assumes "scsi_disk K dsk" "core_ok s" "valid_req (unat (sector_reserve_start (core s))) q"
    and "serve K s q ret out s'"
  shows "core_ok s'" "sector_reserve_start (core s') = sector_reserve_start (core s)"
    "user (core s') = user (core s)" "ret \<in> {0, - 1, - 0xaa}"
    "ret = 0 \<Longrightarrow> m < unat (sector_reserve_start (core s)) \<Longrightarrow> logical dsk s' m = ideal_next q (logical dsk s) m"
    "ret = 0 \<Longrightarrow> out = ideal_out q (logical dsk s)"
proof -
  have "core_ok s' \<and> sector_reserve_start (core s') = sector_reserve_start (core s) \<and>
    user (core s') = user (core s) \<and> ret \<in> {0, - 1, - 0xaa} \<and>
    (ret = 0 \<longrightarrow> (\<forall>m < unat (sector_reserve_start (core s)). logical dsk s' m = ideal_next q (logical dsk s) m) \<and>
      out = ideal_out q (logical dsk s))"
  proof (cases q)
    case (Read_req start count bad)
    then obtain buf where b: "length buf = 512 * unat count"
      "scsi_swap_core_read K start count bad buf s = Some (ret, out, s')"
      using assms(4) by (auto elim: serve_readE)
    have v: "0 < unat count" "unat count < 2 ^ 31 - 128"
      "unat start + unat count \<le> unat (sector_reserve_start (core s))"
      using assms(3) Read_req by simp_all
    have f: "ret = 0 \<or> ret = - 1 \<or> ret = - 0xaa" "length out = length buf"
      "fetched dsk (unat start) (unat count) out (ret \<noteq> - 1) (ret = 0) s s'"
      using scsi_disk.core_read_ok [OF assms(1,2) v, of buf bad] b by auto
    have "out = sectors_at (logical dsk s) (unat start) (unat count)" if "ret = 0"
    proof (rule slices_sectors_at)
      fix k assume k: "k < unat count"
      then have "logical dsk s' (unat start + k) = slice (512 * k) 512 out"
        using fetchedD [OF f(3)] that by (simp add: wrote_def)
      moreover have "logical dsk s' (unat start + k) = logical dsk s (unat start + k)"
        using f(3) that v(3) k by (simp add: fetched_def)
      ultimately show "slice (512 * k) 512 out = logical dsk s (unat start + k)" by simp
    qed (use f(2) b(1) in simp)
    then show ?thesis using f Read_req by (auto simp: fetched_def wrote_def)
  next
    case (Write_req start count bad buf)
    then have b: "out = []" "scsi_swap_core_write K start count bad buf s = Some (ret, s')"
      using assms(4) by (auto elim: serve_writeE)
    have v: "0 < unat count" "unat count < 2 ^ 31 - 128"
      "unat start + unat count \<le> unat (sector_reserve_start (core s))" "512 * unat count \<le> length buf"
      using assms(3) Write_req by simp_all
    have f: "ret = 0 \<or> ret = - 1 \<or> ret = - 0xaa"
      "wrote dsk (unat start) (unat count) buf (ret \<noteq> - 1) (ret = 0) s s'"
      using scsi_disk.core_write_ok [OF assms(1,2) v, of bad] b by auto
    have "logical dsk s' m = ideal_next q (logical dsk s) m"
      if "ret = 0" "m < unat (sector_reserve_start (core s))" for m
    proof (cases "unat start \<le> m \<and> m < unat start + unat count")
      case True
      have "\<forall>k < unat count. logical dsk s' (unat start + k) = slice (512 * k) 512 buf"
        using f(2) that(1) by (simp add: wrote_def)
      then have "logical dsk s' (unat start + (m - unat start)) = slice (512 * (m - unat start)) 512 buf"
        using True by (metis add_diff_inverse_nat linorder_not_less nat_add_left_cancel_less)
      then show ?thesis using True Write_req by simp
    next
      case False
      then have "logical dsk s' m = logical dsk s m" using f(2) that by (auto simp: wrote_def)
      then show ?thesis using False Write_req by auto
    qed
    then show ?thesis using f Write_req b(1) by (auto simp: wrote_def)
  qed
  then show "core_ok s'" "sector_reserve_start (core s') = sector_reserve_start (core s)"
    "user (core s') = user (core s)" "ret \<in> {0, - 1, - 0xaa}"
    "ret = 0 \<Longrightarrow> m < unat (sector_reserve_start (core s)) \<Longrightarrow> logical dsk s' m = ideal_next q (logical dsk s) m"
    "ret = 0 \<Longrightarrow> out = ideal_out q (logical dsk s)"
    by blast+
qed

lemma run_keeps:
  assumes "run K s tr s'" "scsi_disk K dsk" "core_ok s"
    "\<forall>(q, ret, out) \<in> set tr. valid_req (unat (sector_reserve_start (core s))) q"
  shows "core_ok s' \<and> sector_reserve_start (core s') = sector_reserve_start (core s) \<and> user (core s') = user (core s)"
  using assms
proof (induction rule: run.induct)
  case (run_nil s)
  then show ?case by simp
next
  case (run_step s q ret out s1 tr s')
  have v: "valid_req (unat (sector_reserve_start (core s))) q" using run_step.prems(3) by auto
  note one = serve_ok(1-3) [OF run_step.prems(1,2) v run_step.hyps(1)]
  then show ?case using run_step.IH [OF run_step.prems(1)] run_step.prems(3) by auto
qed

lemma ideal_next_cong:
  "(\<And>m. m < R \<Longrightarrow> v m = w m) \<Longrightarrow> m < R \<Longrightarrow> ideal_next q v m = ideal_next q w m"
  by (cases q) auto

lemma ideal_out_cong:
  "(\<And>m. m < R \<Longrightarrow> v m = w m) \<Longrightarrow> valid_req R q \<Longrightarrow> ideal_out q v = ideal_out q w"
  by (cases q) (auto intro!: sectors_at_cong)

lemma ideal_run_cong:
  assumes "\<And>m. m < R \<Longrightarrow> v m = w m" "\<forall>q \<in> set qs. valid_req R q"
  shows "fst (ideal_run v qs) = fst (ideal_run w qs) \<and> (\<forall>m < R. snd (ideal_run v qs) m = snd (ideal_run w qs) m)"
  using assms
proof (induction qs arbitrary: v w)
  case Nil
  then show ?case by simp
next
  case (Cons q qs)
  have "ideal_out q v = ideal_out q w" using ideal_out_cong [of R v w q] Cons.prems by simp
  moreover have "fst (ideal_run (ideal_next q v) qs) = fst (ideal_run (ideal_next q w) qs) \<and>
      (\<forall>m < R. snd (ideal_run (ideal_next q v) qs) m = snd (ideal_run (ideal_next q w) qs) m)"
    using Cons.IH [of "ideal_next q v" "ideal_next q w"] ideal_next_cong [of R v w] Cons.prems by simp
  ultimately show ?case by (simp add: case_prod_beta Let_def)
qed

lemma run_ideal:
  assumes "run K s tr s'" "scsi_disk K dsk" "core_ok s" "R = unat (sector_reserve_start (core s))"
    "\<forall>(q, ret, out) \<in> set tr. valid_req R q \<and> ret = 0"
  shows "map (snd \<circ> snd) tr = fst (ideal_run (logical dsk s) (map fst tr)) \<and>
    (\<forall>m < R. logical dsk s' m = snd (ideal_run (logical dsk s) (map fst tr)) m)"
  using assms
proof (induction rule: run.induct)
  case (run_nil s)
  then show ?case by simp
next
  case (run_step s q ret out s1 tr s')
  have v: "valid_req (unat (sector_reserve_start (core s))) q" "ret = 0"
    and vs: "\<forall>(q, ret, out) \<in> set tr. valid_req R q \<and> ret = 0" "\<forall>q \<in> set (map fst tr). valid_req R q"
    using run_step.prems(3,4) by auto
  note one = serve_ok [OF run_step.prems(1,2) v(1) run_step.hyps(1)]
  have IH: "map (snd \<circ> snd) tr = fst (ideal_run (logical dsk s1) (map fst tr)) \<and>
    (\<forall>m < R. logical dsk s' m = snd (ideal_run (logical dsk s1) (map fst tr)) m)"
    using run_step.IH [OF run_step.prems(1) one(1) _ vs(1)] one(2) run_step.prems(3) by (simp add: comp_def)
  have "fst (ideal_run (logical dsk s1) (map fst tr)) = fst (ideal_run (ideal_next q (logical dsk s)) (map fst tr)) \<and>
    (\<forall>m < R. snd (ideal_run (logical dsk s1) (map fst tr)) m = snd (ideal_run (ideal_next q (logical dsk s)) (map fst tr)) m)"
    by (rule ideal_run_cong [OF _ vs(2)]) (simp add: one(5) [OF v(2)] run_step.prems(3))
  then show ?case using IH one(6) [OF v(2)] by (simp add: case_prod_beta Let_def comp_def)
qed

text \<open>
  C5: any sequence of well-formed requests, whatever codes they return, leaves the core in
  a well-formed state with the same reserved area and the same number of users, and then every
  well-formed request is served: the core never faults.
\<close>

theorem run_keeps_invariant:
  assumes "scsi_disk K dsk" "core_ok s" "run K s tr s'"
    and "\<forall>(q, ret, out) \<in> set tr. valid_req (unat (sector_reserve_start (core s))) q"
  shows "core_ok s' \<and> sector_reserve_start (core s') = sector_reserve_start (core s) \<and>
    user (core s') = user (core s) \<and>
    (\<forall>q. valid_req (unat (sector_reserve_start (core s))) q \<longrightarrow>
      (\<exists>ret out s''. ret \<in> {0, - 1, - 0xaa} \<and> serve K s' q ret out s''))"
proof -
  note k = run_keeps [OF assms(3,1,2,4)]
  have "\<exists>ret out s''. ret \<in> {0, - 1, - 0xaa} \<and> serve K s' q ret out s''"
    if q: "valid_req (unat (sector_reserve_start (core s))) q" for q
  proof -
    obtain ret out s'' where "serve K s' q ret out s''"
      using serve_total [OF assms(1), of s' q] k q by auto
    moreover from this have "ret \<in> {0, - 1, - 0xaa}" using serve_ok(4) [OF assms(1)] k q by metis
    ultimately show ?thesis by blast
  qed
  then show ?thesis using k by blast
qed

theorem run_keeps_invariant_witness:
  "\<exists>ret out s''. ret \<in> {0, - 1, - 0xaa} \<and> serve ram_kernel (ram_sdev ram_worn) (Read_req 298 4 300) ret out s''"
  using run_keeps_invariant [OF ram.scsi_disk_axioms core_ok_ram_sdev run_nil, of ram_worn]
  by (auto dest: spec [of _ "Read_req 298 4 300"])

text \<open>
  C1: a sequence of well-formed requests that all return 0 cannot be told apart from
  the same requests on an ideal disk that starts with the same contents: the reads return the same
  bytes, and at the end the sectors below the reserved area have the same contents.
\<close>

theorem run_refines_ideal_disk:
  assumes "scsi_disk K dsk" "core_ok s" "run K s tr s'"
    and "\<forall>(q, ret, out) \<in> set tr. valid_req (unat (sector_reserve_start (core s))) q \<and> ret = 0"
  shows "map (snd \<circ> snd) tr = fst (ideal_run (logical dsk s) (map fst tr)) \<and>
    (\<forall>m < unat (sector_reserve_start (core s)).
       logical dsk s' m = snd (ideal_run (logical dsk s) (map fst tr)) m)"
  using run_ideal [OF assms(3,1,2) refl assms(4)] .

theorem run_refines_ideal_disk_witness:
  "\<exists>s' out. run ram_kernel (ram_sdev ram_new)
      [(Write_req 8 1 (- 1) (replicate 512 7), 0, []), (Read_req 8 1 (- 1), 0, out)] s' \<and>
    out = replicate 512 7"
proof -
  have h: "healthy (world (ram_sdev ram_new))" "info_list (core (ram_sdev ram_new)) = []"
    "device_dead (core (ram_sdev ram_new)) = 0"
    by (simp_all add: healthy_def ram_sdev_def ram_new_def)
  obtain w where w: "scsi_swap_core_write ram_kernel 8 1 (- 1) (replicate 512 7) (ram_sdev ram_new)
      = Some (0, ram_sdev ram_new\<lparr>world := w\<rparr>)" "healthy w"
    using ram_write_one [OF h] by blast
  let ?s = "ram_sdev ram_new\<lparr>world := w\<rparr>"
  obtain b where r: "scsi_swap_core_read ram_kernel 8 1 (- 1) (replicate 512 0) ?s = Some (0, b, ?s)"
    using ram_read_one [of ?s] w(2) h by auto
  have "serve ram_kernel ?s (Read_req 8 1 (- 1)) 0 b ?s" using r by (intro serve_read [OF _ r]) simp
  then have run: "run ram_kernel (ram_sdev ram_new)
      [(Write_req 8 1 (- 1) (replicate 512 7), 0, []), (Read_req 8 1 (- 1), 0, b)] ?s"
    using serve_write [OF w(1)] by (blast intro: run.intros)
  then have "b = replicate 512 7"
    using run_refines_ideal_disk [OF ram.scsi_disk_axioms core_ok_ram_sdev run]
    by (simp add: slice_def sectors_at_def)
  then show ?thesis using run by blast
qed

text \<open>
  C6: after a write that did not return -1, a read of the same sectors that returns 0 gives
  back the bytes written, whether the block was mapped before, became mapped, or was never bad.
\<close>

theorem write_read_round_trip:
  assumes "scsi_disk K dsk" "core_ok s"
    and "0 < unat count" "unat count < 2 ^ 31 - 128" "length data = 512 * unat count" "length buf = 512 * unat count"
    and "unat start + unat count \<le> unat (sector_reserve_start (core s))"
    and "scsi_swap_core_write K start count bad data s = Some (ret, s1)" "ret \<noteq> - 1"
    and "scsi_swap_core_read K start count bad' buf s1 = Some (0, out, s2)"
  shows "out = data"
proof -
  have w: "wrote dsk (unat start) (unat count) data (ret \<noteq> - 1) (ret = 0) s s1"
    using scsi_disk.core_write_ok [OF assms(1-4,7), of data bad] assms(5,8) by auto
  have "serve K s1 (Read_req start count bad') 0 out s2" using assms(6,10) by (rule serve_read)
  then have "out = sectors_at (logical dsk s1) (unat start) (unat count)"
    using serve_ok(6) [OF assms(1), of s1 "Read_req start count bad'" 0 out s2] w assms(3,4,7)
    by (simp add: wrote_def)
  also have "\<dots> = data"
    using slices_sectors_at [OF assms(5), of "logical dsk s1" "unat start"] w assms(9)
    by (simp add: wrote_def)
  finally show ?thesis .
qed

theorem write_read_round_trip_witness:
  "\<exists>s1 s2. scsi_swap_core_write ram_kernel 8 1 (- 1) (replicate 512 7) (ram_sdev ram_new) = Some (0, s1) \<and>
     scsi_swap_core_read ram_kernel 8 1 (- 1) (replicate 512 0) s1 = Some (0, replicate 512 7, s2)"
proof -
  have h: "healthy (world (ram_sdev ram_new))" "info_list (core (ram_sdev ram_new)) = []"
    "device_dead (core (ram_sdev ram_new)) = 0"
    by (simp_all add: healthy_def ram_sdev_def ram_new_def)
  obtain w where w: "scsi_swap_core_write ram_kernel 8 1 (- 1) (replicate 512 7) (ram_sdev ram_new)
      = Some (0, ram_sdev ram_new\<lparr>world := w\<rparr>)" "healthy w"
    using ram_write_one [OF h] by blast
  obtain b where r: "scsi_swap_core_read ram_kernel 8 1 (- 1) (replicate 512 0) (ram_sdev ram_new\<lparr>world := w\<rparr>)
      = Some (0, b, ram_sdev ram_new\<lparr>world := w\<rparr>)"
    using ram_read_one [of "ram_sdev ram_new\<lparr>world := w\<rparr>"] w(2) h by auto
  have "b = replicate 512 7"
    by (rule write_read_round_trip [OF ram.scsi_disk_axioms core_ok_ram_sdev _ _ _ _ _ w(1) _ r]) simp_all
  then show ?thesis using w(1) r by blast
qed

end
