(* ===== verification/Swap_Work.thy ===== *)
theory Swap_Work
  imports Swap Core_Trace
begin

text \<open>
  The work handler end to end: what a bio writes is what the core is given, what the core returns
  is what the bio's pages hold, and the contracts of the core carry over to the bio.
\<close>

subsection \<open>The pages of a bio\<close>

definition seg_ok :: "bio_vec \<Rightarrow> bool" where
  "seg_ok v \<longleftrightarrow> (case bv_page v of None \<Rightarrow> False
     | Some page \<Rightarrow> unat (bv_offset v) + unat (bv_len v) \<le> length page)"

definition seg_bytes :: "bio_vec \<Rightarrow> byte list" where
  "seg_bytes v = slice (unat (bv_offset v)) (unat (bv_len v)) (the (bv_page v))"

definition segs_len :: "bio_vec list \<Rightarrow> nat" where
  "segs_len vs = sum_list (map (\<lambda>v. unat (bv_len v)) vs)"

text \<open>The bytes of a bio, segment after segment.\<close>

definition segs_bytes :: "bio_vec list \<Rightarrow> byte list" where
  "segs_bytes vs = concat (map seg_bytes vs)"

abbreviation bio_segs :: "bio \<Rightarrow> bio_vec list" where
  "bio_segs bio \<equiv> drop (bi_idx bio) (bi_io_vec bio)"

lemma length_seg_bytes: "seg_ok v \<Longrightarrow> length (seg_bytes v) = unat (bv_len v)"
  by (auto simp: seg_ok_def seg_bytes_def split: option.splits)

lemma length_segs_bytes: "\<forall>v \<in> set vs. seg_ok v \<Longrightarrow> length (segs_bytes vs) = segs_len vs"
  by (induction vs) (simp_all add: segs_bytes_def segs_len_def length_seg_bytes)

lemma segs_simps [simp]:
  "segs_len [] = 0" "segs_len (v # vs) = unat (bv_len v) + segs_len vs"
  "segs_bytes [] = []" "segs_bytes (v # vs) = seg_bytes v @ segs_bytes vs"
  by (simp_all add: segs_len_def segs_bytes_def)

lemma segs_bytes_empty: "\<forall>v \<in> set vs. seg_ok v \<Longrightarrow> segs_len vs = 0 \<Longrightarrow> segs_bytes vs = []"
  using length_segs_bytes [of vs] by simp

lemma bio_fill_rest: "bio_fill_loop n n vs buf = Some buf"
  by (induction vs) simp_all

lemma bio_fill_loop_eq:
  assumes "\<forall>v \<in> set vs. seg_ok v" "p + segs_len vs = n" "length buf = n"
  shows "bio_fill_loop (int n) (int p) vs buf = Some (take p buf @ segs_bytes vs)"
  using assms
proof (induction vs arbitrary: p buf)
  case Nil
  then show ?case by simp
next
  case (Cons v vs)
  show ?case
  proof (cases "p < n")
    case False
    then have "p = n" "segs_len (v # vs) = 0" using Cons.prems(2) by simp_all
    then show ?thesis
      using bio_fill_rest [of "int n" "v # vs" buf] segs_bytes_empty [OF Cons.prems(1)] Cons.prems(3) by simp
  next
    case True
    obtain page where page: "bv_page v = Some page" "unat (bv_offset v) + unat (bv_len v) \<le> length page"
      using Cons.prems(1) by (auto simp: seg_ok_def split: option.splits)
    let ?d = "seg_bytes v"
    have d: "length ?d = unat (bv_len v)" using Cons.prems(1) by (simp add: length_seg_bytes)
    have m: "memread page (unat (bv_offset v)) (unat (bv_len v)) = Some ?d"
      using page by (simp add: memread_def seg_bytes_def)
    have fit: "p + length ?d \<le> length buf" using Cons.prems(2,3) d by simp
    then have w: "memwrite buf p ?d = Some (overwrite p ?d buf)" by (simp add: memwrite_def)
    have "bio_fill_loop (int n) (int (p + length ?d)) vs (overwrite p ?d buf)
        = Some (take (p + length ?d) (overwrite p ?d buf) @ segs_bytes vs)"
      using Cons.prems d fit by (intro Cons.IH) simp_all
    moreover have "take (p + length ?d) (overwrite p ?d buf) = take p buf @ ?d"
      using fit by (simp add: overwrite_def)
    ultimately show ?thesis using True page(1) m w d by simp
  qed
qed

lemma buf_fill_rest: "buf_fill_loop buf n n vs = Some vs"
  by (induction vs) simp_all

lemma buf_fill_loop_eq:
  assumes "\<forall>v \<in> set vs. seg_ok v" "p + segs_len vs = n" "length buf = n"
  shows "\<exists>vs'. buf_fill_loop buf (int n) (int p) vs = Some vs' \<and> segs_bytes vs' = drop p buf \<and>
    map (\<lambda>v. v\<lparr>bv_page := None\<rparr>) vs' = map (\<lambda>v. v\<lparr>bv_page := None\<rparr>) vs \<and> (\<forall>v \<in> set vs'. seg_ok v)"
  using assms
proof (induction vs arbitrary: p)
  case Nil
  then show ?case by simp
next
  case (Cons v vs)
  show ?case
  proof (cases "p < n")
    case False
    then have "p = n" "segs_len (v # vs) = 0" using Cons.prems(2) by simp_all
    then show ?thesis
      using buf_fill_rest [of buf "int n" "v # vs"] segs_bytes_empty [OF Cons.prems(1)] Cons.prems(1,3) by simp
  next
    case True
    obtain page where page: "bv_page v = Some page" "unat (bv_offset v) + unat (bv_len v) \<le> length page"
      using Cons.prems(1) by (auto simp: seg_ok_def split: option.splits)
    let ?l = "unat (bv_len v)"
    let ?d = "slice p ?l buf"
    let ?page = "overwrite (unat (bv_offset v)) ?d page"
    have d: "memread buf p ?l = Some ?d" "length ?d = ?l"
      using Cons.prems(2,3) by (simp_all add: memread_def)
    have w: "memwrite page (unat (bv_offset v)) ?d = Some ?page"
      using page(2) d(2) unfolding memwrite_def by simp
    obtain vs' where vs': "buf_fill_loop buf (int n) (int (p + ?l)) vs = Some vs'"
      "segs_bytes vs' = drop (p + ?l) buf"
      "map (\<lambda>v. v\<lparr>bv_page := None\<rparr>) vs' = map (\<lambda>v. v\<lparr>bv_page := None\<rparr>) vs" "\<forall>v \<in> set vs'. seg_ok v"
      using Cons.IH [of "p + ?l"] Cons.prems by fastforce
    have "seg_bytes (v\<lparr>bv_page := Some ?page\<rparr>) = ?d"
      using page(2) d(2) by (simp add: seg_bytes_def slice_overwrite_same)
    then have bytes: "segs_bytes (v\<lparr>bv_page := Some ?page\<rparr> # vs') = drop p buf"
      using vs'(2) drop_slice [of p ?l buf] Cons.prems(2,3) by simp
    have sok: "seg_ok (v\<lparr>bv_page := Some ?page\<rparr>)"
      using page(2) d(2) by (simp add: seg_ok_def)
    show ?thesis
      by (rule exI [of _ "v\<lparr>bv_page := Some ?page\<rparr> # vs'"])
        (use True page(1) d(1) w vs' bytes sok in simp)
  qed
qed

subsection \<open>The handler\<close>

lemma shift9:
  assumes "unat (n :: u32) < 2 ^ 31"
  shows "unat (signed_drop_bit 9 n) = unat n div 512" "sint n = int (unat n)"
    "unat (scast n :: u64) = unat n"
proof -
  show s: "sint n = int (unat n)" using sint_nat_small [of n] assms by simp
  have "sint (signed_drop_bit 9 n) = int (unat n div 512)"
    by (simp add: sint_signed_drop_bit_eq drop_bit_eq_div s zdiv_int)
  moreover have "sint (word_of_nat (unat n div 512) :: u32) = int (unat n div 512)"
    using assms sint_nat_small [of "word_of_nat (unat n div 512) :: u32"]
      unat_of_nat_small [of "unat n div 512", where 'a = 32] by simp
  ultimately have "signed_drop_bit 9 n = word_of_nat (unat n div 512)"
    by (metis signed_word_eqI)
  then show "unat (signed_drop_bit 9 n) = unat n div 512"
    using assms unat_of_nat_small [of "unat n div 512", where 'a = 32] by simp
  show "unat (scast n :: u64) = unat n"
    using scast_u32_small [OF assms] assms unat_of_nat_small [of "unat n", where 'a = 64] by simp
qed

text \<open>A work item whose bio has all its pages and as many bytes as the item says.\<close>

definition item_ok :: "swap_bio_item \<Rightarrow> bool" where
  "item_ok item \<longleftrightarrow> (\<forall>v \<in> set (bio_segs (item_bio item)). seg_ok v) \<and>
     segs_len (bio_segs (item_bio item)) = unat (isize item) \<and>
     0 < unat (isize item) \<and> unat (isize item) < 2 ^ 31 \<and> 512 dvd unat (isize item)"

abbreviation item_count :: "swap_bio_item \<Rightarrow> nat" where
  "item_count item \<equiv> unat (isize item) div 512"

lemma bio_fill_buf_eq:
  assumes "item_ok item" "length buf = unat (isize item)"
  shows "bio_fill_buf (item_bio item) buf (isize item) = Some (segs_bytes (bio_segs (item_bio item)))"
  using bio_fill_loop_eq [of "bio_segs (item_bio item)" 0 "unat (isize item)" buf] assms shift9(2) [of "isize item"]
  by (simp add: bio_fill_buf_def item_ok_def)

lemma buf_fill_bio_eq:
  assumes "item_ok item" "length buf = unat (isize item)"
  shows "\<exists>bio. buf_fill_bio (item_bio item) buf (isize item) = Some bio \<and> bi_idx bio = bi_idx (item_bio item) \<and>
    segs_bytes (bio_segs bio) = buf"
proof -
  obtain vs where vs: "buf_fill_loop buf (int (unat (isize item))) (int 0) (bio_segs (item_bio item)) = Some vs"
    "segs_bytes vs = drop 0 buf"
    using buf_fill_loop_eq [of "bio_segs (item_bio item)" 0 "unat (isize item)" buf] assms
    by (auto simp: item_ok_def)
  have bf: "buf_fill_bio (item_bio item) buf (isize item) =
      Some (item_bio item\<lparr>bi_io_vec := take (bi_idx (item_bio item)) (bi_io_vec (item_bio item)) @ vs\<rparr>)"
    using vs(1) shift9(2) [of "isize item"] assms(1) by (simp add: buf_fill_bio_def item_ok_def)
  show ?thesis
  proof (cases "bi_idx (item_bio item) \<le> length (bi_io_vec (item_bio item))")
    case True
    then show ?thesis using bf vs(2) by simp
  next
    case False
    then have "segs_len (bio_segs (item_bio item)) = 0" by simp
    then have False using assms(1) unfolding item_ok_def by linarith
    then show ?thesis ..
  qed
qed

text \<open>The work handler on a well-formed item, as it is used further on.\<close>

lemma work_handler_ok:
  assumes disk: "scsi_disk K dsk" and d: "private_data d = Live_ptr" "core_ok (sd d)" and item: "item_ok item"
    and R: "unat (start_sec item) + item_count item \<le> unat (sector_reserve_start (core (sd d)))"
  shows "\<exists>err bio' d'. swap_bio_work_handler K item d = Some (err, bio', d') \<and> (err = 0 \<or> err = - EIO) \<and>
    core_ok (sd d') \<and> sector_reserve_start (core (sd d')) = sector_reserve_start (core (sd d)) \<and>
    (\<forall>m < unat (sector_reserve_start (core (sd d))). \<not> touches (unat (start_sec item)) (item_count item) m \<longrightarrow>
       logical dsk (sd d') m = logical dsk (sd d) m) \<and>
    (err = 0 \<longrightarrow> bi_uptodate bio' \<and>
      sectors_at (logical dsk (sd d')) (unat (start_sec item)) (item_count item) =
        (if is_write (item_bio item) then segs_bytes (bio_segs (item_bio item)) else segs_bytes (bio_segs bio')))"
proof -
  let ?a = "unat (start_sec item)" and ?c = "item_count item"
  define num where "num = signed_drop_bit 9 (isize item)"
  have small: "unat (isize item) < 2 ^ 31" "512 * ?c = unat (isize item)" using item by (auto simp: item_ok_def)
  note sh = shift9 [OF small(1)]
  have num: "unat num = ?c" "0 < unat num" "unat num < 2 ^ 31 - 128"
    using sh(1) small item by (auto simp: num_def item_ok_def)
  obtain m s1 where al: "alloc K (unat (isize item)) (sd d) = (m, s1)" by fastforce
  have q: "quiet dsk {} (sd d) s1" using scsi_disk.alloc_quiet [OF disk al] .
  have ok1: "core_ok s1" "sector_reserve_start (core s1) = sector_reserve_start (core (sd d))"
    "\<And>k. k < unat (sector_reserve_start (core (sd d))) \<Longrightarrow> logical dsk s1 k = logical dsk (sd d) k"
    using quiet_core_ok [OF q d(2)] quietD(4) [OF q] quiet_logical [OF q d(2)] by simp_all
  have R1: "?a + unat num \<le> unat (sector_reserve_start (core s1))" using R ok1(2) num(1) by simp
  have dr: "deref_handler d = Some (sd d)" using d(1) by (simp add: deref_handler_def)
  show ?thesis
  proof (cases m)
    case None
    then show ?thesis
      using al dr sh(3) ok1 by (simp add: swap_bio_work_handler_def Let_def)
  next
    case (Some buf)
    then have len: "length buf = unat (isize item)" using scsi_disk.alloc_law [OF disk al] by simp
    show ?thesis
    proof (cases "is_write (item_bio item)")
      case True
      let ?data = "segs_bytes (bio_segs (item_bio item))"
      have l: "length ?data = 512 * unat num"
        using length_segs_bytes item small(2) num(1) by (simp add: item_ok_def)
      obtain ret s2 where w: "scsi_swap_core_write K (start_sec item) num (bad_sec item) ?data s1 = Some (ret, s2)"
        "ret = 0 \<or> ret = - 1 \<or> ret = - 0xaa" "wrote dsk ?a (unat num) ?data (ret \<noteq> - 1) (ret = 0) s1 s2"
        using scsi_disk.core_write_ok [OF disk ok1(1) num(2,3) R1, of ?data "bad_sec item"] l by auto
      have data: "sectors_at (logical dsk s2) ?a (unat num) = ?data" if "ret \<noteq> - 1"
        using slices_sectors_at [OF l, of "logical dsk s2" ?a] w(3) that by (simp add: wrote_def)
      have keep: "\<forall>k < unat (sector_reserve_start (core (sd d))). \<not> touches ?a ?c k \<longrightarrow>
          logical dsk s2 k = logical dsk (sd d) k" "core_ok s2"
        "sector_reserve_start (core s2) = sector_reserve_start (core (sd d))"
        using w(3) ok1 num(1) by (simp_all add: wrote_def)
      show ?thesis
        using al dr sh(3) Some True bio_fill_buf_eq [OF item len] w(1,2) data keep num(1)
        by (auto simp: swap_bio_work_handler_def Let_def num_def [symmetric])
    next
      case False
      obtain ret buf' s2 where r: "scsi_swap_core_read K (start_sec item) num (bad_sec item) buf s1 = Some (ret, buf', s2)"
        "ret = 0 \<or> ret = - 1 \<or> ret = - 0xaa" "length buf' = length buf"
        "fetched dsk ?a (unat num) buf' (ret \<noteq> - 1) (ret = 0) s1 s2"
        using scsi_disk.core_read_ok [OF disk ok1(1) num(2,3) R1, of buf "bad_sec item"] len small(2) num(1) by auto
      have l: "length buf' = 512 * unat num" using r(3) len small(2) num(1) by simp
      have data: "sectors_at (logical dsk s2) ?a (unat num) = buf'" if "ret \<noteq> - 1"
        using slices_sectors_at [OF l, of "logical dsk s2" ?a] fetchedD [OF r(4)] that by (simp add: wrote_def)
      have keep: "\<forall>k < unat (sector_reserve_start (core (sd d))). \<not> touches ?a ?c k \<longrightarrow>
          logical dsk s2 k = logical dsk (sd d) k" "core_ok s2"
        "sector_reserve_start (core s2) = sector_reserve_start (core (sd d))"
        using fetchedD [OF r(4)] ok1 num(1) by (simp_all add: wrote_def)
      obtain bio where bio: "buf_fill_bio (item_bio item) buf' (isize item) = Some bio" "segs_bytes (bio_segs bio) = buf'"
        using buf_fill_bio_eq [OF item, of buf'] r(3) len by auto
      show ?thesis
        using al dr sh(3) Some False r(1,2) bio data keep num(1)
        by (auto simp: swap_bio_work_handler_def Let_def num_def [symmetric])
    qed
  qed
qed

text \<open>
  C7: a work item for sectors below the reserved area, with all its pages and a whole
  number of sectors, is handled without a fault and its bio ends with error 0 or with
  \<^verbatim>\<open>-EIO\<close>. The core stays well-formed and blocks the item does not touch keep their contents. When
  a write ends with error 0, the sectors hold the bytes of the bio's pages; when a read does, the
  pages hold the contents of the sectors. In both cases the bio is marked up to date.
\<close>

theorem work_handler_contract:
  assumes disk: "scsi_disk K dsk" and d: "private_data d = Live_ptr" "core_ok (sd d)" and item: "item_ok item"
    and R: "unat (start_sec item) + item_count item \<le> unat (sector_reserve_start (core (sd d)))"
  shows "\<exists>err bio' d'. swap_bio_work_handler K item d = Some (err, bio', d') \<and> (err = 0 \<or> err = - EIO) \<and>
    core_ok (sd d') \<and> sector_reserve_start (core (sd d')) = sector_reserve_start (core (sd d)) \<and>
    (\<forall>m < unat (sector_reserve_start (core (sd d))). \<not> touches (unat (start_sec item)) (item_count item) m \<longrightarrow>
       logical dsk (sd d') m = logical dsk (sd d) m) \<and>
    (err = 0 \<longrightarrow> bi_uptodate bio' \<and>
      sectors_at (logical dsk (sd d')) (unat (start_sec item)) (item_count item) =
        (if is_write (item_bio item) then segs_bytes (bio_segs (item_bio item)) else segs_bytes (bio_segs bio')))"
  using assms by (rule work_handler_ok)

text \<open>A bio of one sector on one page of the reference device.\<close>

definition ram_bio :: "req_flag set \<Rightarrow> bio" where
  "ram_bio rw = \<lparr>bi_sector = 8, bi_bdev = Some 0, bi_uptodate = False, bi_eof = False, bi_quiet = False,
     bi_rw = rw, bi_size = 512, bi_idx = 0,
     bi_io_vec = [\<lparr>bv_page = Some (replicate 4096 7), bv_offset = 1024, bv_len = 512\<rparr>], bi_end_io = True\<rparr>"

definition ram_dev :: "ram_disk scsi_dev" where
  "ram_dev = \<lparr>sd = ram_sdev ram_new, proc_name = Some (Some ''pm8001''), enable = True,
     private_data = Live_ptr, sim = []\<rparr>"

definition ram_item :: "req_flag set \<Rightarrow> swap_bio_item" where
  "ram_item rw = \<lparr>item_sdev = 0, item_bio = ram_bio rw, start_sec = 8, isize = 512, bad_sec = - 1, may_create = False\<rparr>"

lemma item_ok_ram_item: "item_ok (ram_item rw)"
  by (simp add: item_ok_def ram_item_def ram_bio_def seg_ok_def)

theorem work_handler_contract_witness:
  "\<exists>err bio' d'. swap_bio_work_handler ram_kernel (ram_item {REQ_WRITE}) ram_dev = Some (err, bio', d') \<and>
    (err = 0 \<or> err = - EIO) \<and> core_ok (sd d')"
  using work_handler_contract [OF ram.scsi_disk_axioms, of ram_dev "ram_item {REQ_WRITE}"] item_ok_ram_item [of "{REQ_WRITE}"]
    core_ok_ram_sdev [of ram_new]
  by (simp add: ram_dev_def) (simp add: ram_item_def, blast)

end
