(* ===== verification/Sysfs.thy ===== *)
theory Sysfs
  imports Swap_Work
begin

text \<open>
  \<^verbatim>\<open>sysfs.c\<close>: the three files of a swapped disk. Reading one fills a page with text; writing is
  refused except for \<^verbatim>\<open>simulate\<close>, which takes the commands \<^verbatim>\<open>add\<close> and \<^verbatim>\<open>remove\<close>. A page that is
  written ends at its first NUL, so it is a string.
\<close>

subsection \<open>Entries\<close>

record 'w swap_sysfs_entry =
  attr_name :: string
  show_fn :: "('w scsi_dev \<Rightarrow> (string \<times> nat) option) option"
  store_fn :: "('w kernel \<Rightarrow> 'w scsi_dev \<Rightarrow> string \<Rightarrow> nat \<Rightarrow> (int \<times> 'w scsi_dev) option) option"

definition swap_swap_show :: "'w scsi_dev \<Rightarrow> (string \<times> nat) option" where
  "swap_swap_show d = do { s \<leftarrow> deref_handler d; scsi_swap_core_show (core s) }"

definition swap_swap_store :: "'w kernel \<Rightarrow> 'w scsi_dev \<Rightarrow> string \<Rightarrow> nat \<Rightarrow> (int \<times> 'w scsi_dev) option" where
  "swap_swap_store K d page count = Some (- 1, d)"

definition swap_log_show :: "'w scsi_dev \<Rightarrow> (string \<times> nat) option" where
  "swap_log_show d = do { s \<leftarrow> deref_handler d; scsi_swap_log_show (slog s) }"

definition swap_log_store :: "'w kernel \<Rightarrow> 'w scsi_dev \<Rightarrow> string \<Rightarrow> nat \<Rightarrow> (int \<times> 'w scsi_dev) option" where
  "swap_log_store K d page count = Some (- 1, d)"

definition swap_sim_show :: "'w scsi_dev \<Rightarrow> (string \<times> nat) option" where
  "swap_sim_show d = do { _ \<leftarrow> deref_handler d; Some (scsi_swap_sim_show (sim d)) }"

text \<open>\<^verbatim>\<open>sscanf\<close> with a word and two decimal numbers; numbers are taken modulo their width.\<close>

definition scan_command :: "string \<Rightarrow> string \<Rightarrow> (sector_t \<times> u32) option" where
  "scan_command word page = do {
     rest \<leftarrow> scan_literal word page;
     (a, rest) \<leftarrow> scan_number rest;
     (b, _) \<leftarrow> scan_number rest;
     Some (of_nat a, of_nat b)
   }"

definition swap_sim_store :: "'w kernel \<Rightarrow> 'w scsi_dev \<Rightarrow> string \<Rightarrow> nat \<Rightarrow> (int \<times> 'w scsi_dev) option" where
  "swap_sim_store K d page count =
     (case scan_command ''add'' page of
        Some (sector, num) \<Rightarrow> do {
          s \<leftarrow> deref_handler d;
          let (m, s) = alloc K 32 s;
          let (_, l) = scsi_swap_sim_add (m \<noteq> None) (sim d) sector num;
          Some (int count, d\<lparr>sd := s, sim := l\<rparr>)
        }
      | None \<Rightarrow>
          (case scan_command ''remove'' page of
             Some (sector, num) \<Rightarrow> do {
               _ \<leftarrow> deref_handler d;
               Some (int count, d\<lparr>sim := scsi_swap_sim_remove (sim d) sector num\<rparr>)
             }
           | None \<Rightarrow> Some (int count, d)))"

definition swap_swap_entry :: "'w swap_sysfs_entry" where
  "swap_swap_entry = \<lparr>attr_name = ''swap'', show_fn = Some swap_swap_show, store_fn = Some swap_swap_store\<rparr>"

definition swap_log_entry :: "'w swap_sysfs_entry" where
  "swap_log_entry = \<lparr>attr_name = ''log'', show_fn = Some swap_log_show, store_fn = Some swap_log_store\<rparr>"

definition swap_sim_entry :: "'w swap_sysfs_entry" where
  "swap_sim_entry = \<lparr>attr_name = ''simulate'', show_fn = Some swap_sim_show, store_fn = Some swap_sim_store\<rparr>"

definition default_attrs :: "'w swap_sysfs_entry list" where
  "default_attrs = [swap_swap_entry, swap_log_entry, swap_sim_entry]"

subsection \<open>Dispatch and registration\<close>

text \<open>A negative result is the error, otherwise the text and its length.\<close>

definition swap_attr_show :: "'w swap_sysfs_entry \<Rightarrow> 'w scsi_dev \<Rightarrow> (int + string \<times> nat) option" where
  "swap_attr_show entry d =
     (case show_fn entry of None \<Rightarrow> Some (Inl (- EIO))
      | Some f \<Rightarrow> map_option Inr (f d))"

definition swap_attr_store ::
    "'w kernel \<Rightarrow> 'w swap_sysfs_entry \<Rightarrow> 'w scsi_dev \<Rightarrow> string \<Rightarrow> nat \<Rightarrow> (int \<times> 'w scsi_dev) option" where
  "swap_attr_store K entry d page len =
     (case store_fn entry of None \<Rightarrow> Some (- EIO, d)
      | Some f \<Rightarrow> f K d page len)"

text \<open>
  The directory of the files exists or not; \<open>added\<close> is what the kernel answers when it is added.
\<close>

definition scsi_swap_register_sysfs :: "int \<Rightarrow> 'w scsi_dev \<Rightarrow> bool \<Rightarrow> int \<times> bool" where
  "scsi_swap_register_sysfs added d files =
     (if \<not> enable d then (- 1, files) else if added < 0 then (added, files) else (0, True))"

definition scsi_swap_unregister_sysfs :: "'w scsi_dev \<Rightarrow> bool \<Rightarrow> int \<times> bool" where
  "scsi_swap_unregister_sysfs d files = (if \<not> enable d then (- 1, files) else (0, False))"

subsection \<open>Reading a file\<close>

lemma core_show_loop_bound:
  "core_show_loop c ps left page = Some (page', left') \<Longrightarrow> 0 < left \<Longrightarrow>
   length page' + left' = length page + left \<and> 0 < left'"
proof (induction ps arbitrary: left page)
  case (Cons p ps)
  obtain info where info: "infos c p = Some info" using Cons.prems(1) by (cases "infos c p") auto
  show ?case
  proof (cases "left \<le> length (core_line (table info))")
    case True
    then show ?thesis using Cons.prems info by (simp add: Let_def)
  next
    case False
    then show ?thesis
      using Cons.IH [of "left - length (core_line (table info))" "page @ core_line (table info)"] Cons.prems info
      by (simp add: Let_def)
  qed
qed simp

lemma log_show_loop_bound:
  "log_show_loop r n i left page = Some (page', left') \<Longrightarrow> 0 < left \<Longrightarrow>
   length page' + left' = length page + left \<and> 0 < left'"
proof (induction n arbitrary: i left page)
  case (Suc n)
  show ?case
  proof (cases "scsi_swap_log_peek r (int i)")
    case None
    then show ?thesis using Suc.prems by simp
  next
    case (Some off)
    obtain item where item: "item_at r off = Some item" using Suc.prems(1) Some by (cases "item_at r off") auto
    show ?thesis
    proof (cases "left \<le> length (log_line item)")
      case True
      then show ?thesis using Suc.prems Some item by (simp add: Let_def)
    next
      case False
      then show ?thesis
        using Suc.IH [of "Suc i" "left - length (log_line item)" "page @ log_line item"] Suc.prems Some item
        by (simp add: Let_def)
    qed
  qed
qed simp

text \<open>
  C25: reading any of the three files gives a text that fits in the page with its
  terminating NUL, and the number returned is the length of the text.
\<close>

theorem sysfs_show_in_page:
  assumes "entry \<in> set default_attrs" "swap_attr_show entry d = Some (Inr (page, n))"
  shows "n = length page \<and> n < PAGE_SIZE"
proof -
  consider "swap_swap_show d = Some (page, n)" | "swap_log_show d = Some (page, n)" | "swap_sim_show d = Some (page, n)"
    using assms by (auto simp: default_attrs_def swap_attr_show_def swap_swap_entry_def swap_log_entry_def swap_sim_entry_def)
  then show ?thesis
  proof cases
    case 1
    then obtain s where "deref_handler d = Some s" "scsi_swap_core_show (core s) = Some (page, n)"
      by (auto simp: swap_swap_show_def bind_eq_Some_conv)
    then obtain left where "core_show_loop (core s) (info_list (core s)) PAGE_SIZE [] = Some (page, left)" "n = PAGE_SIZE - left"
      by (auto simp: scsi_swap_core_show_def bind_eq_Some_conv)
    then show ?thesis using core_show_loop_bound [of "core s" "info_list (core s)" PAGE_SIZE "[]" page left] by auto
  next
    case 2
    then obtain s where "deref_handler d = Some s" "scsi_swap_log_show (slog s) = Some (page, n)"
      by (auto simp: swap_log_show_def bind_eq_Some_conv)
    then obtain r where "ring (slog s) = Some r" "scsi_swap_log_show (slog s) = Some (page, n)"
      by (cases "ring (slog s)") (auto simp: scsi_swap_log_show_def)
    then obtain left where "log_show_loop r (Suc (nat (item_num r))) 0 PAGE_SIZE [] = Some (page, left)" "n = PAGE_SIZE - left"
      unfolding scsi_swap_log_show_def by (auto simp: bind_eq_Some_conv simp del: log_show_loop.simps)
    then show ?thesis using log_show_loop_bound [of r "Suc (nat (item_num r))" 0 PAGE_SIZE "[]" page left] by auto
  next
    case 3
    then obtain left where "page_fill (map sim_line (sim d)) PAGE_SIZE [] = (page, left)" "n = PAGE_SIZE - left"
      by (auto simp: swap_sim_show_def scsi_swap_sim_show_def bind_eq_Some_conv Let_def split: prod.splits)
    then show ?thesis
      using page_fill_length [of _ PAGE_SIZE "[]" page left] page_fill_left [of PAGE_SIZE _ "[]" page left] by fastforce
  qed
qed

theorem sysfs_show_in_page_witness:
  "\<exists>page n. swap_attr_show swap_sim_entry (ram_dev\<lparr>sim := [\<lparr>sim_start = 8, sim_num = 1\<rparr>]\<rparr>) = Some (Inr (page, n)) \<and>
     n = length page \<and> n < PAGE_SIZE"
proof -
  let ?d = "ram_dev\<lparr>sim := [\<lparr>sim_start = 8, sim_num = 1\<rparr>]\<rparr>"
  obtain page n where "swap_attr_show swap_sim_entry ?d = Some (Inr (page, n))"
    by (fastforce simp: swap_attr_show_def swap_sim_entry_def swap_sim_show_def scsi_swap_sim_show_def
        deref_handler_def ram_dev_def Let_def split: prod.splits)
  then show ?thesis using sysfs_show_in_page [of swap_sim_entry ?d page n] by (simp add: default_attrs_def)
qed

subsection \<open>Writing the simulate file\<close>

lemma scan_command_dec:
  assumes "rest = [] \<or> \<not> is_digit (hd rest)"
  shows "scan_command word (word @ '' '' @ dec a @ '' '' @ dec b @ rest) = Some (of_nat a, of_nat b)"
proof -
  have sp: "is_space (CHR '' '')" "\<not> is_digit (CHR '' '')" by (simp_all add: is_space_def is_digit_def)
  have "scan_number ('' '' @ dec a @ '' '' @ dec b @ rest) = Some (a, '' '' @ dec b @ rest)"
    using scan_number_space [OF sp(1)] scan_number_dec [of "'' '' @ dec b @ rest" a] sp(2) by simp
  moreover have "scan_number ('' '' @ dec b @ rest) = Some (b, rest)"
    using scan_number_space [OF sp(1)] scan_number_dec [OF assms] by simp
  ultimately show ?thesis by (simp add: scan_command_def scan_literal_def)
qed

lemma scan_other_command: "scan_command ''add'' (''remove'' @ s) = None"
  by (simp add: scan_command_def scan_literal_def)

lemma sim_line_word: "'' '' @ sim_line node = '' '' @ dec (unat (sim_start node)) @ '' '' @ dec (unat (sim_num node)) @ [CHR 10]"
  by (simp add: sim_line_def)

lemma newline_no_digit: "[CHR 10] = [] \<or> \<not> is_digit (hd [CHR 10])"
  by (simp add: is_digit_def)

text \<open>
  C24: a line as \<^verbatim>\<open>simulate\<close> shows it, written back after the word \<^verbatim>\<open>add\<close>, adds
  exactly its node at the end of the list when the allocation succeeds; written after the word
  \<^verbatim>\<open>remove\<close> it takes out the first node with its start, so removing undoes adding.
\<close>

theorem sim_file_round_trip:
  assumes "private_data d = Live_ptr" "kmalloc K 32 (world (sd d)) = (Some m, w)"
  shows "\<exists>d'. swap_sim_store K d (''add '' @ sim_line node) n = Some (int n, d') \<and> sim d' = sim d @ [node] \<and>
    (sim_start node \<notin> sim_start ` set (sim d) \<longrightarrow>
      (\<exists>d''. swap_sim_store K d' (''remove '' @ sim_line node) n = Some (int n, d'') \<and> sim d'' = sim d))"
proof -
  have node: "\<lparr>sim_start = sim_start node, sim_num = sim_num node\<rparr> = node" by simp
  have add: "scan_command ''add'' (''add '' @ sim_line node) = Some (sim_start node, sim_num node)"
    using scan_command_dec [OF newline_no_digit, of "''add''" "unat (sim_start node)" "unat (sim_num node)"]
    by (simp add: sim_line_def)
  have rem: "scan_command ''remove'' (''remove '' @ sim_line node) = Some (sim_start node, sim_num node)"
    using scan_command_dec [OF newline_no_digit, of "''remove''" "unat (sim_start node)" "unat (sim_num node)"]
    by (simp add: sim_line_def)
  let ?d' = "d\<lparr>sd := (sd d)\<lparr>world := w\<rparr>, sim := sim d @ [node]\<rparr>"
  have "swap_sim_store K d (''add '' @ sim_line node) n = Some (int n, ?d')"
    unfolding swap_sim_store_def add
    using assms by (simp add: deref_handler_def alloc_def scsi_swap_sim_add_def)
  moreover have "swap_sim_store K ?d' (''remove '' @ sim_line node) n =
      Some (int n, ?d'\<lparr>sim := scsi_swap_sim_remove (sim d @ [node]) (sim_start node) (sim_num node)\<rparr>)"
    unfolding swap_sim_store_def rem
    using scan_other_command [of "'' '' @ sim_line node"] assms(1) by (simp add: deref_handler_def)
  moreover have "scsi_swap_sim_remove (sim d @ [node]) (sim_start node) (sim_num node) = sim d"
    if "sim_start node \<notin> sim_start ` set (sim d)"
    using sim_remove_add [OF that, of "sim_num node" "sim_num node"] unfolding scsi_swap_sim_add_def node by simp
  ultimately show ?thesis by simp
qed

theorem sim_file_round_trip_witness:
  "\<exists>d' d''. swap_sim_store ram_kernel ram_dev (''add '' @ sim_line \<lparr>sim_start = 8, sim_num = 1\<rparr>) 8 = Some (8, d') \<and>
     sim d' = [\<lparr>sim_start = 8, sim_num = 1\<rparr>] \<and>
     swap_sim_store ram_kernel d' (''remove '' @ sim_line \<lparr>sim_start = 8, sim_num = 1\<rparr>) 8 = Some (8, d'') \<and> sim d'' = []"
  using sim_file_round_trip [of ram_dev ram_kernel "replicate 32 0xa5" ram_new "\<lparr>sim_start = 8, sim_num = 1\<rparr>" 8]
  by (auto simp: ram_dev_def ram_sdev_def ram_kernel_def ram_new_def)

end
