(* ===== verification/Sd_Scan.thy ===== *)
theory Sd_Scan
  imports Sd Sysfs
begin

text \<open>
  \<^verbatim>\<open>drivers/scsi/sd.c\<close>, finding out about a disk: spinning it up, its capacity and the sectors
  reserved for the swap module, its caches and limits, revalidation, probing and removal.

  Printing, reference counts and power management are omitted. Which commands report success is
  the function \<open>scsi_status_is_good\<close> of the SCSI headers.
\<close>

subsection \<open>Media\<close>

definition set_media_not_present :: "'w sd_disk \<Rightarrow> 'w sd_disk" where
  "set_media_not_present k =
     (let k = (if media_present k
               then k\<lparr>device := (device k)\<lparr>swap := (swap (device k))\<lparr>sd := (sd (swap (device k)))\<lparr>changed := True\<rparr>\<rparr>\<rparr>\<rparr>
               else k)
      in if removable (sd (swap (device k))) then k\<lparr>media_present := False, capacity := 0\<rparr> else k)"

definition media_not_present :: "scsi_sense_hdr \<Rightarrow> 'w sd_disk \<Rightarrow> bool \<times> 'w sd_disk" where
  "media_not_present sshdr k =
     (if \<not> scsi_sense_valid (Some sshdr) then (False, k)
      else if (sense_key sshdr = UNIT_ATTENTION \<or> sense_key sshdr = NOT_READY) \<and> asc sshdr = 0x3a
      then (True, set_media_not_present k)
      else (False, k))"

definition send_cmd ::
    "'w kernel \<Rightarrow> 'w sd_env \<Rightarrow> byte list \<Rightarrow> dma_direction \<Rightarrow> byte list \<Rightarrow> nat \<Rightarrow> 'w sd_disk
      \<Rightarrow> u32 \<times> scsi_sense_hdr \<times> byte list \<times> 'w sd_disk" where
  "send_cmd K E cmd dir buf timeout k =
     (let (res, sshdr, buf, d) = send_req K cmd dir buf timeout (SD_MAX_RETRIES E) (device k)
      in (res, sshdr, buf, k\<lparr>device := d\<rparr>))"

subsection \<open>Spinning up\<close>

text \<open>Up to three times TEST UNIT READY; nothing is left to do when there is no medium.\<close>

function tur_tries ::
    "'w kernel \<Rightarrow> 'w sd_env \<Rightarrow> (u32 \<Rightarrow> bool) \<Rightarrow> nat \<Rightarrow> bool \<Rightarrow> 'w sd_disk
      \<Rightarrow> 'w sd_disk + u32 \<times> scsi_sense_hdr \<times> bool \<times> 'w sd_disk" where
  "tur_tries K E is_good n sense_valid k =
     (let (res, sshdr, _, k) = send_cmd K E (replicate 10 0) DMA_NONE [] (SD_TIMEOUT E) k;
          (gone, k) = media_not_present sshdr k
      in if gone then Inl k
         else
           let sense_valid = (if res \<noteq> 0 then scsi_sense_valid (Some sshdr) else sense_valid)
           in if n < 2 \<and> (\<not> is_good res \<or>
                driver_byte res AND DRIVER_SENSE \<noteq> 0 \<and> sense_valid \<and> sense_key sshdr = UNIT_ATTENTION)
              then tur_tries K E is_good (n + 1) sense_valid k
              else Inr (res, sshdr, sense_valid, k))"
  by pat_completeness auto
termination
  by (relation "measure (\<lambda>(K, E, g, n, v, k). 2 - n)") auto

declare tur_tries.simps [simp del]

definition time_before_eq :: "u64 \<Rightarrow> u64 \<Rightarrow> bool" where
  "time_before_eq a b \<longleftrightarrow> sint (a - b) \<le> 0"

abbreviation sleep_second :: "'w sd_env \<Rightarrow> 'w sd_disk \<Rightarrow> 'w sd_disk" where
  "sleep_second E k \<equiv> k\<lparr>device := set_device_world (msleep E 1000 (device_world (device k))) (device k)\<rparr>"

abbreviation now :: "'w sd_env \<Rightarrow> 'w sd_disk \<Rightarrow> u64" where
  "now E k \<equiv> jiffies E (device_world (device k))"

definition start_cmd :: "'w sd_disk \<Rightarrow> byte list" where
  "start_cmd k = (replicate 10 0)[0 := 0x1b, 1 := 1, 4 := (if start_stop_pwr_cond (device k) then 0x11 else 1)]"

text \<open>
  \<open>expire\<close> is None until the first wait. The loop ends by the clock, so it may not end in the
  model of an arbitrary world.
\<close>

partial_function (option) spin_loop ::
    "'w kernel \<Rightarrow> 'w sd_env \<Rightarrow> (u32 \<Rightarrow> bool) \<Rightarrow> u64 option \<Rightarrow> bool \<Rightarrow> 'w sd_disk \<Rightarrow> 'w sd_disk option" where
  "spin_loop K E is_good expire sense_valid k =
     (case tur_tries K E is_good 0 sense_valid k of
        Inl k \<Rightarrow> Some k
      | Inr (res, sshdr, sense_valid, k) \<Rightarrow>
          if driver_byte res AND DRIVER_SENSE = 0 then Some k
          else if no_start_on_add (device k) then Some k
          else if sense_valid \<and> sense_key sshdr = NOT_READY then
            if asc sshdr = 4 \<and> (ascq sshdr = 3 \<or> ascq sshdr = 0xb \<or> ascq sshdr = 0xc) then Some k
            else
              let (expire, k) =
                    (case expire of
                       Some e \<Rightarrow> (e, k)
                     | None \<Rightarrow>
                         let (_, _, _, k) = send_cmd K E (start_cmd k) DMA_NONE [] (SD_TIMEOUT E) k
                         in (now E k + 100 * HZ E, k));
                  k = sleep_second E k
              in if time_before_eq (now E k) expire then spin_loop K E is_good (Some expire) sense_valid k
                 else Some k
          else if sense_valid \<and> sense_key sshdr = UNIT_ATTENTION \<and> asc sshdr = 0x28 then
            let expire = (case expire of Some e \<Rightarrow> e | None \<Rightarrow> now E k + 5 * HZ E);
                k = sleep_second E k
            in if time_before_eq (now E k) expire then spin_loop K E is_good (Some expire) sense_valid k
               else Some k
          else Some k)"

definition sd_spinup_disk :: "'w kernel \<Rightarrow> 'w sd_env \<Rightarrow> (u32 \<Rightarrow> bool) \<Rightarrow> 'w sd_disk \<Rightarrow> 'w sd_disk option" where
  "sd_spinup_disk K E is_good k = spin_loop K E is_good None False k"

subsection \<open>Capacity\<close>

definition be16 :: "byte list \<Rightarrow> nat \<Rightarrow> u16" where
  "be16 buf i = push_bit 8 (ucast (buf ! i)) OR ucast (buf ! (i + 1))"

definition be64 :: "byte list \<Rightarrow> nat \<Rightarrow> u64" where
  "be64 buf i = push_bit 32 (ucast (be32 buf i)) OR ucast (be32 buf (i + 4))"

definition sd_read_protection_type :: "'w sd_env \<Rightarrow> byte list \<Rightarrow> 'w sd_disk \<Rightarrow> int \<times> 'w sd_disk" where
  "sd_read_protection_type E buf k =
     (if \<not> scsi_device_protection (device k) \<or> buf ! 12 AND 1 = 0 then (0, k)
      else
        let ptype = (drop_bit 1 (buf ! 12) AND 7) + 1;
            ret = (if ptype > 3 then - ENODEV
                   else if scsi_host_dif_capable E (ucast ptype) \<noteq> 0 then 1 else 0)
        in (ret, k\<lparr>protection_type := ucast ptype\<rparr>))"

definition read_capacity_error :: "scsi_sense_hdr \<Rightarrow> bool \<Rightarrow> 'w sd_disk \<Rightarrow> 'w sd_disk" where
  "read_capacity_error sshdr sense_valid k =
     (let k = (if removable (sd (swap (device k))) \<and> sense_valid \<and> sense_key sshdr = NOT_READY
               then set_media_not_present k else k)
      in k\<lparr>capacity := 0\<rparr>)"

text \<open>
  The loop that asks for the capacity: three tries, and up to nine more after a reset of the
  device. Only the 16-byte command gives up when the device does not know the command
  (\<open>illegal_ends\<close>). The result is an error, or the last answer.
\<close>

function capacity_loop ::
    "'w kernel \<Rightarrow> 'w sd_env \<Rightarrow> bool \<Rightarrow> byte list \<Rightarrow> nat \<Rightarrow> nat \<Rightarrow> nat \<Rightarrow> 'w sd_disk
      \<Rightarrow> (int + u32 \<times> scsi_sense_hdr \<times> byte list) \<times> 'w sd_disk" where
  "capacity_loop K E illegal_ends cmd len retries reset_retries k =
     (let (res, sshdr, buf, k) = send_cmd K E cmd DMA_FROM_DEVICE (replicate len 0) (SD_TIMEOUT E) k;
          (gone, k) = media_not_present sshdr k
      in if gone then (Inl (- ENODEV), k)
         else
           let sense_valid = res \<noteq> 0 \<and> scsi_sense_valid (Some sshdr)
           in if illegal_ends \<and> sense_valid \<and> sense_key sshdr = ILLEGAL_REQUEST \<and>
                (asc sshdr = 0x20 \<or> asc sshdr = 0x24) \<and> ascq sshdr = 0
              then (Inl (- EINVAL), k)
              else if sense_valid \<and> sense_key sshdr = UNIT_ATTENTION \<and> asc sshdr = 0x29 \<and> ascq sshdr = 0 then
                if reset_retries > 1
                then capacity_loop K E illegal_ends cmd len retries (reset_retries - 1) k
                else if retries > 1 then capacity_loop K E illegal_ends cmd len (retries - 1) (reset_retries - 1) k
                else (Inr (res, sshdr, buf), k)
              else if res \<noteq> 0 \<and> retries > 1 then capacity_loop K E illegal_ends cmd len (retries - 1) reset_retries k
              else (Inr (res, sshdr, buf), k))"
  by pat_completeness auto
termination
  by (relation "measure (\<lambda>(K, E, i, cmd, len, retries, reset_retries, k). retries + reset_retries)") auto

declare capacity_loop.simps [simp del]

definition read_capacity_16 :: "'w kernel \<Rightarrow> 'w sd_env \<Rightarrow> 'w sd_disk \<Rightarrow> int \<times> 'w sd_disk" where
  "read_capacity_16 K E k =
     (if no_read_capacity_16 (device k) then (- EINVAL, k)
      else
        case capacity_loop K E True ((replicate 16 0)[0 := 0x9e, 1 := 0x10, 13 := 32]) 32 3 10 k of
          (Inl err, k) \<Rightarrow> (err, k)
        | (Inr (res, sshdr, buf), k) \<Rightarrow>
            if res \<noteq> 0 then (- EINVAL, read_capacity_error sshdr (scsi_sense_valid (Some sshdr)) k)
            else
              let bsize = be32 buf 8;
                  lba = be64 buf 0;
                  (ret, k) = sd_read_protection_type E buf k
              in if ret < 0 then (- ENODEV, k\<lparr>capacity := 0\<rparr>)
                 else
                   let k = k\<lparr>physical_block_size := push_bit (unat (buf ! 13 AND 0xf)) 1 * bsize\<rparr>;
                       alignment = (push_bit 8 (ucast (buf ! 14 AND 0x3f)) OR ucast (buf ! 15)) * bsize;
                       k = qcall (Alignment_offset alignment) k;
                       k = (if buf ! 14 AND 0x80 \<noteq> 0
                            then sd_config_discard E SD_LBP_WS16
                                   (k\<lparr>lbpme := True, lbprz := lbprz k \<or> buf ! 14 AND 0x40 \<noteq> 0\<rparr>)
                            else k)
                   in (sint bsize, k\<lparr>capacity := lba + 1\<rparr>))"

definition read_capacity_10 :: "'w kernel \<Rightarrow> 'w sd_env \<Rightarrow> 'w sd_disk \<Rightarrow> int \<times> 'w sd_disk" where
  "read_capacity_10 K E k =
     (case capacity_loop K E False ((replicate 10 0)[0 := 0x25]) 8 3 10 k of
        (Inl err, k) \<Rightarrow> (err, k)
      | (Inr (res, sshdr, buf), k) \<Rightarrow>
          if res \<noteq> 0 then (- EINVAL, read_capacity_error sshdr (scsi_sense_valid (Some sshdr)) k)
          else
            let bsize = be32 buf 4;
                lba = ucast (be32 buf 0)
            in if no_read_capacity_16 (device k) \<and> lba = (0xffffffff :: sector_t)
               then (sint bsize, k\<lparr>capacity := 0, physical_block_size := bsize\<rparr>)
               else (sint bsize, k\<lparr>capacity := lba + 1, physical_block_size := bsize\<rparr>))"

definition sd_try_rc16_first :: "'w scsi_device \<Rightarrow> bool" where
  "sd_try_rc16_first d =
     (if max_cmd_len (host d) < 16 then False
      else if try_rc_10_first d then False
      else if scsi_level d > SCSI_SPC_2 then True
      else if scsi_device_protection d then True
      else False)"

text \<open>
  The two parts of the function: asking, with the sector size as the result (None where it
  returns early), and what follows the label \<^verbatim>\<open>got_data\<close>. The capacity is a 64-bit number.
\<close>

abbreviation (input) EOVERFLOW :: int where "EOVERFLOW \<equiv> 75"

definition ask_capacity :: "'w kernel \<Rightarrow> 'w sd_env \<Rightarrow> 'w sd_disk \<Rightarrow> int option \<times> 'w sd_disk" where
  "ask_capacity K E k =
     (let adjust = (\<lambda>bsize k.
            (Some bsize,
             if fix_capacity (device k) \<or> guess_capacity (device k) \<and> capacity k AND 1 \<noteq> 0
             then k\<lparr>capacity := capacity k - 1\<rparr> else k))
      in if sd_try_rc16_first (device k) then
           let (bsize, k) = read_capacity_16 K E k
           in if bsize = - EOVERFLOW then (Some bsize, k)
              else if bsize = - ENODEV then (None, k)
              else if bsize < 0 then
                let (bsize, k) = read_capacity_10 K E k
                in if bsize < 0 then (None, k) else adjust bsize k
              else adjust bsize k
         else
           let (bsize, k) = read_capacity_10 K E k
           in if bsize = - EOVERFLOW then (Some bsize, k)
              else if bsize < 0 then (None, k)
              else if capacity k > 0xffffffff then
                let (size16, k) = read_capacity_16 K E k
                in if size16 < 0 then (Some bsize, k\<lparr>capacity := 1 + 0xffffffff\<rparr>) else adjust size16 k
              else adjust bsize k)"

definition sd_got_data :: "sector_t \<Rightarrow> int \<Rightarrow> 'w sd_disk \<Rightarrow> 'w sd_disk" where
  "sd_got_data old_capacity bsize k =
     (let bsize = (if bsize = 0 then 512 else bsize);
          (bsize, k) = (if bsize \<noteq> 512 \<and> bsize \<noteq> 1024 \<and> bsize \<noteq> 2048 \<and> bsize \<noteq> 4096 \<and> bsize \<noteq> 256
                       then (512, k\<lparr>capacity := 0\<rparr>) else (bsize, k));
          k = qcall (Logical_block_size (of_int bsize)) k;
          k = k\<lparr>device := (device k)\<lparr>use_16_for_rw := (capacity k > 0xffffffff)\<rparr>\<rparr>;
          k = (if bsize = 4096 then k\<lparr>capacity := push_bit 3 (capacity k)\<rparr>
               else if bsize = 2048 then k\<lparr>capacity := push_bit 2 (capacity k)\<rparr>
               else if bsize = 1024 then k\<lparr>capacity := push_bit 1 (capacity k)\<rparr>
               else if bsize = 256 then k\<lparr>capacity := drop_bit 1 (capacity k)\<rparr>
               else k);
          k = (if first_scan k \<or> old_capacity \<noteq> capacity k then
                 let reserved = scsi_get_reserve_sectors_for_swap (swap (device k))
                 in if reserved \<noteq> 0 \<and> capacity k > reserved
                    then k\<lparr>capacity := capacity k - reserved\<rparr> else k
               else k);
          k = qcall (Physical_block_size (physical_block_size k)) k
      in k\<lparr>device := (device k)\<lparr>sector_size := of_int bsize\<rparr>\<rparr>)"

definition sd_read_capacity :: "'w kernel \<Rightarrow> 'w sd_env \<Rightarrow> 'w sd_disk \<Rightarrow> 'w sd_disk" where
  "sd_read_capacity K E k =
     (let old_capacity = capacity k
      in case ask_capacity K E k of
           (None, k) \<Rightarrow> k
         | (Some bsize, k) \<Rightarrow> sd_got_data old_capacity bsize k)"

end
