(* ===== verification/Sd_Probe.thy ===== *)
theory Sd_Probe
  imports Sd_Scan
begin

text \<open>
  \<^verbatim>\<open>drivers/scsi/sd.c\<close>, continued: the caches and limits of a disk, revalidation, and the life of a
  disk from probing, where the swap module is started on the reserved sectors, to removal.
\<close>

subsection \<open>Asking for mode pages\<close>

definition byte_at :: "byte list \<Rightarrow> nat \<Rightarrow> byte option" where
  "byte_at buf i = (if i < length buf then Some (buf ! i) else None)"

text \<open>The buffer is the one of the caller, of which the device fills the first \<open>len\<close> bytes.\<close>

definition sd_do_mode_sense ::
    "'w sd_env \<Rightarrow> byte \<Rightarrow> byte \<Rightarrow> byte list \<Rightarrow> nat \<Rightarrow> 'w sd_disk \<Rightarrow> u32 \<times> byte list \<times> mode_data \<times> 'w sd_disk" where
  "sd_do_mode_sense E dbd modepage buf len k =
     (let (res, bytes, md, w) = scsi_mode_sense E dbd modepage buf len (device_world (device k))
      in (res, dma_fill buf bytes, md, k\<lparr>device := set_device_world w (device k)\<rparr>))"

definition sd_read_write_protect_flag ::
    "'w sd_env \<Rightarrow> (u32 \<Rightarrow> bool) \<Rightarrow> byte list \<Rightarrow> 'w sd_disk \<Rightarrow> byte list \<times> 'w sd_disk" where
  "sd_read_write_protect_flag E is_good buf k =
     (let k = k\<lparr>disk_ro := False\<rparr>
      in if skip_ms_page_3f (device k) then (buf, k)
         else
           let (res, buf, md, k) =
                 (if use_192_bytes_for_3f (device k) then sd_do_mode_sense E 0 0x3f buf 192 k
                  else
                    let (res, buf, md, k) = sd_do_mode_sense E 0 0x3f buf 4 k;
                        (res, buf, md, k) =
                          (if \<not> is_good res then sd_do_mode_sense E 0 0 buf 4 k else (res, buf, md, k))
                    in if \<not> is_good res then sd_do_mode_sense E 0 0x3f buf 255 k else (res, buf, md, k))
           in if \<not> is_good res then (buf, k)
              else
                let wp = device_specific md AND 0x80 \<noteq> 0
                in (buf, k\<lparr>write_prot := wp, disk_ro := wp\<rparr>))"

text \<open>The walk over the mode pages: a page that was looked for, bad data, or the end.\<close>

datatype page_scan = Page_found byte nat | Incomplete | Pages_end nat

function scan_pages :: "byte list \<Rightarrow> nat \<Rightarrow> nat \<Rightarrow> page_scan option" where
  "scan_pages buf len off =
     (if off < len then do {
        b \<leftarrow> byte_at buf off;
        let page_code = b AND 0x3f;
        let spf = b AND 0x40 \<noteq> 0;
        if page_code = 8 \<or> page_code = 6 then
          Some (if len - off \<le> 2 then Incomplete else Page_found page_code off)
        else if spf \<and> len - off > 3 then do {
          h \<leftarrow> byte_at buf (off + 2);
          l \<leftarrow> byte_at buf (off + 3);
          scan_pages buf len (off + 4 + 256 * unat h + unat l)
        } else if \<not> spf \<and> len - off > 1 then do {
          l \<leftarrow> byte_at buf (off + 1);
          scan_pages buf len (off + 2 + unat l)
        } else Some Incomplete
      } else Some (Pages_end off))"
  by pat_completeness auto
termination
  by (relation "measure (\<lambda>(buf, len, off). len - off)") auto

declare scan_pages.simps [simp del]

definition cache_defaults :: "'w sd_disk \<Rightarrow> 'w sd_disk" where
  "cache_defaults k = k\<lparr>WCE := wce_default_on (device k), RCD := False, DPOFUA := False\<rparr>"

text \<open>\<^verbatim>\<open>TYPE_RBC\<close> is 0x0e. Reading past the buffer is a fault.\<close>

definition cache_page ::
    "byte \<Rightarrow> nat \<Rightarrow> byte list \<Rightarrow> mode_data \<Rightarrow> 'w sd_disk \<Rightarrow> 'w sd_disk option" where
  "cache_page modepage off buf md k = do {
     b \<leftarrow> byte_at buf (off + 2);
     let k = (if modepage = 8 then k\<lparr>WCE := (b AND 4 \<noteq> 0), RCD := (b AND 1 \<noteq> 0)\<rparr>
              else k\<lparr>WCE := (b AND 1 = 0), RCD := False\<rparr>);
     let fua = device_specific md AND 0x10 \<noteq> 0;
     Some (k\<lparr>DPOFUA := (fua \<and> use_10_for_rw (device k))\<rparr>)
   }"

definition cache_answer ::
    "'w sd_env \<Rightarrow> (u32 \<Rightarrow> bool) \<Rightarrow> byte \<Rightarrow> byte \<Rightarrow> nat \<Rightarrow> byte list \<Rightarrow> 'w sd_disk \<Rightarrow> 'w sd_disk option" where
  "cache_answer E is_good dbd modepage first_len buf k =
     (let (res, buf, md, k) = sd_do_mode_sense E dbd modepage buf first_len k
      in if \<not> is_good res then Some (cache_defaults k)
         else
           let (modepage, first_len) = (if header_length md = 0 then (6, 0) else (modepage, first_len));
               len = sint (md_length md)
           in if len < 3 then Some (cache_defaults k)
              else
                let len = (if modepage = 0x3f \<and> use_192_bytes_for_3f (device k) then 192
                           else min (nat len) (SD_BUF_SIZE E));
                    (res, buf, md, k) =
                      (if len > first_len then sd_do_mode_sense E dbd modepage buf len k else (res, buf, md, k))
                in if \<not> is_good res then Some (cache_defaults k)
                   else do {
                     let off = unat (header_length md) + unat (block_descriptor_length md);
                     scan \<leftarrow> scan_pages buf len off;
                     (case scan of
                        Page_found page off \<Rightarrow> cache_page page off buf md k
                      | Incomplete \<Rightarrow> Some (cache_defaults k)
                      | Pages_end off \<Rightarrow>
                          if modepage = 0x3f then Some (cache_defaults k)
                          else do {
                            b \<leftarrow> byte_at buf off;
                            if b AND 0x3f \<noteq> modepage then Some (cache_defaults k)
                            else cache_page modepage off buf md k
                          })
                   })"

definition sd_read_cache_type ::
    "'w sd_env \<Rightarrow> (u32 \<Rightarrow> bool) \<Rightarrow> byte list \<Rightarrow> 'w sd_disk \<Rightarrow> 'w sd_disk option" where
  "sd_read_cache_type E is_good buf k =
     (let d = device k
      in if skip_ms_page_8 d then
           if sdev_type d = 0x0e then Some (cache_defaults k)
           else if skip_ms_page_3f d then Some (cache_defaults k)
           else cache_answer E is_good 0 0x3f (if use_192_bytes_for_3f d then 192 else 4) buf k
         else if sdev_type d = 0x0e then cache_answer E is_good 8 6 4 buf k
         else cache_answer E is_good 0 8 4 buf k)"

definition sd_read_app_tag_own ::
    "'w sd_env \<Rightarrow> (u32 \<Rightarrow> bool) \<Rightarrow> byte list \<Rightarrow> 'w sd_disk \<Rightarrow> 'w sd_disk option" where
  "sd_read_app_tag_own E is_good buf k =
     (if sdev_type (device k) \<noteq> 0 \<or> protection_type k = 0 then Some k
      else
        let (res, buf, md, k) = sd_do_mode_sense E 1 0x0a buf 36 k
        in if \<not> is_good res \<or> header_length md = 0 \<or> md_length md < 6 then Some k
           else do {
             let off = unat (header_length md) + unat (block_descriptor_length md);
             b \<leftarrow> byte_at buf off;
             if b AND 0x3f \<noteq> 0x0a then Some k
             else do {
               c \<leftarrow> byte_at buf (off + 5);
               Some (if c AND 0x80 = 0 then k else k\<lparr>ATO := True\<rparr>)
             }
           })"

subsection \<open>Asking for product data\<close>

definition kalloc :: "'w kernel \<Rightarrow> nat \<Rightarrow> 'w sd_disk \<Rightarrow> byte list option \<times> 'w sd_disk" where
  "kalloc K n k =
     (let (m, s) = alloc K n (sd (swap (device k)))
      in (m, k\<lparr>device := (device k)\<lparr>swap := (swap (device k))\<lparr>sd := s\<rparr>\<rparr>\<rparr>))"

definition vpd_page :: "'w kernel \<Rightarrow> byte \<Rightarrow> nat \<Rightarrow> 'w sd_disk \<Rightarrow> byte list option \<times> 'w sd_disk" where
  "vpd_page K page len k =
     (case kalloc K len k of
        (None, k) \<Rightarrow> (None, k)
      | (Some m, k) \<Rightarrow>
          let (ok, buf, d) = scsi_get_vpd_page K page m (device k)
          in (if ok then Some buf else None, k\<lparr>device := d\<rparr>))"

definition sd_read_block_limits :: "'w kernel \<Rightarrow> 'w sd_env \<Rightarrow> 'w sd_disk \<Rightarrow> 'w sd_disk" where
  "sd_read_block_limits K E k =
     (let sector_sz = sector_size (device k)
      in case vpd_page K 0xb0 64 k of
           (None, k) \<Rightarrow> k
         | (Some buf, k) \<Rightarrow>
             let k = qcall (Io_min (ucast (be16 buf 6) * sector_sz)) k;
                 k = qcall (Io_opt (be32 buf 12 * sector_sz)) k
             in if buf ! 3 \<noteq> 0x3c then k
                else
                  let k = k\<lparr>max_ws_blocks := ucast (be64 buf 36)\<rparr>
                  in if \<not> lbpme k then k
                     else
                       let lba_count = be32 buf 20;
                           desc_count = be32 buf 24;
                           k = (if lba_count \<noteq> 0 \<and> desc_count \<noteq> 0 then k\<lparr>max_unmap_blocks := lba_count\<rparr> else k);
                           k = k\<lparr>unmap_granularity := be32 buf 28\<rparr>;
                           k = (if buf ! 32 AND 0x80 \<noteq> 0
                                then k\<lparr>unmap_alignment := be32 buf 32 AND NOT (push_bit 31 1)\<rparr> else k)
                       in if \<not> lbpvpd k then
                            if max_unmap_blocks k \<noteq> 0 then sd_config_discard E SD_LBP_UNMAP k
                            else sd_config_discard E SD_LBP_WS16 k
                          else
                            if lbpu k \<and> max_unmap_blocks k \<noteq> 0 then sd_config_discard E SD_LBP_UNMAP k
                            else if lbpws k then sd_config_discard E SD_LBP_WS16 k
                            else if lbpws10 k then sd_config_discard E SD_LBP_WS10 k
                            else sd_config_discard E SD_LBP_DISABLE k)"

definition sd_read_block_characteristics :: "'w kernel \<Rightarrow> 'w sd_disk \<Rightarrow> 'w sd_disk" where
  "sd_read_block_characteristics K k =
     (case vpd_page K 0xb1 64 k of
        (None, k) \<Rightarrow> k
      | (Some buf, k) \<Rightarrow> if be16 buf 4 = 1 then qcall (Flag_set QUEUE_FLAG_NONROT) k else k)"

definition sd_read_block_provisioning :: "'w kernel \<Rightarrow> 'w sd_disk \<Rightarrow> 'w sd_disk" where
  "sd_read_block_provisioning K k =
     (if \<not> lbpme k then k
      else
        case vpd_page K 0xb2 8 k of
          (None, k) \<Rightarrow> k
        | (Some buf, k) \<Rightarrow>
            k\<lparr>lbpvpd := True, lbpu := (drop_bit 7 (buf ! 5) AND 1 \<noteq> 0),
              lbpws := (drop_bit 6 (buf ! 5) AND 1 \<noteq> 0), lbpws10 := (drop_bit 5 (buf ! 5) AND 1 \<noteq> 0)\<rparr>)"

definition sd_read_write_same :: "'w kernel \<Rightarrow> byte list \<Rightarrow> 'w sd_disk \<Rightarrow> 'w sd_disk" where
  "sd_read_write_same K buf k =
     (let (ok, _, d) = scsi_report_opcode K buf 0x93 (device k);
          k = k\<lparr>device := d\<rparr>
      in if ok then k\<lparr>ws16 := True\<rparr> else k)"

definition sd_try_extended_inquiry :: "'w scsi_device \<Rightarrow> bool" where
  "sd_try_extended_inquiry d \<longleftrightarrow> scsi_level d > SCSI_SPC_2 \<and> \<not> skip_vpd_pages d"

subsection \<open>Revalidation\<close>

definition sd_revalidate_disk ::
    "'w kernel \<Rightarrow> 'w sd_env \<Rightarrow> (u32 \<Rightarrow> bool) \<Rightarrow> 'w sd_disk \<Rightarrow> 'w sd_disk option" where
  "sd_revalidate_disk K E is_good k =
     (if \<not> scsi_device_online K (device_world (device k)) then Some k
      else
        case kalloc K (SD_BUF_SIZE E) k of
          (None, k) \<Rightarrow> Some k
        | (Some buf, k) \<Rightarrow> do {
            k \<leftarrow> sd_spinup_disk K E is_good k;
            k \<leftarrow> (if media_present k then do {
                   let k = sd_read_capacity K E k;
                   let k = (if sd_try_extended_inquiry (device k)
                            then sd_read_block_characteristics K
                                   (sd_read_block_limits K E (sd_read_block_provisioning K k))
                            else k);
                   let (buf, k) = sd_read_write_protect_flag E is_good buf k;
                   k \<leftarrow> sd_read_cache_type E is_good buf k;
                   k \<leftarrow> sd_read_app_tag_own E is_good buf k;
                   Some (sd_read_write_same K buf k)
                 } else Some k);
            let k = k\<lparr>first_scan := False\<rparr>;
            let flush = (if WCE k then {REQ_FLUSH} \<union> (if DPOFUA k then {REQ_FUA} else {}) else {});
            let k = qcall (Flush flush) k;
            let k = k\<lparr>disk_capacity := capacity k\<rparr>;
            Some (sd_config_write_same E k)
          })"

subsection \<open>Names and numbers\<close>

definition sd_major :: "'w sd_env \<Rightarrow> nat \<Rightarrow> nat option" where
  "sd_major E major_idx =
     (if major_idx = 0 then Some (SCSI_DISK0_MAJOR E)
      else if major_idx \<le> 7 then Some (SCSI_DISK1_MAJOR E + major_idx - 1)
      else if major_idx \<le> 15 then Some (SCSI_DISK8_MAJOR E + major_idx - 8)
      else None)"

text \<open>The first minor number of a disk; with its partitions it has sixteen.\<close>

definition disk_minor :: "u32 \<Rightarrow> u32" where
  "disk_minor idx = push_bit 4 (idx AND 0xf) OR (idx AND 0xfff00)"

text \<open>
  The letters of a disk name, from the last to the first; \<open>room\<close> is the number of letters that
  fit between the prefix and the NUL at the end of the buffer.
\<close>

fun disk_letters :: "nat \<Rightarrow> nat \<Rightarrow> string \<Rightarrow> string option" where
  "disk_letters 0 idx acc = None"
| "disk_letters (Suc room) idx acc =
     (let acc = char_of (97 + idx mod 26) # acc
      in if idx div 26 = 0 then Some acc else disk_letters room (idx div 26 - 1) acc)"

definition sd_format_disk_name :: "string \<Rightarrow> nat \<Rightarrow> nat \<Rightarrow> string option" where
  "sd_format_disk_name pre idx buflen =
     map_option (\<lambda>l. pre @ l) (disk_letters (buflen - 1 - length pre) idx [])"

subsection \<open>Probing and removal\<close>

text \<open>
  The part that runs later. \<open>added\<close> is the answer to adding the directory of the swap files, and
  \<open>files\<close> tells whether it exists. Start-up of the data integrity code is omitted.
\<close>

abbreviation set_swap :: "'w scsi_dev \<Rightarrow> 'w sd_disk \<Rightarrow> 'w sd_disk" where
  "set_swap s k \<equiv> k\<lparr>device := (device k)\<lparr>swap := s\<rparr>\<rparr>"

definition sd_probe_async ::
    "'w kernel \<Rightarrow> 'w sd_env \<Rightarrow> (u32 \<Rightarrow> bool) \<Rightarrow> int \<Rightarrow> 'w sd_disk \<Rightarrow> ('w sd_disk \<times> bool) option" where
  "sd_probe_async K E is_good added k = do {
     major \<leftarrow> sd_major E (unat (drop_bit 4 (disk_index k AND 0xf0)));
     let k = k\<lparr>gd_major := major, first_minor := disk_minor (disk_index k)\<rparr>;
     let k = k\<lparr>device := (device k)\<lparr>sector_size := 512\<rparr>, capacity := 0, media_present := True,
               write_prot := False, WCE := False, RCD := False, ATO := False, first_scan := True,
               max_medium_access_timeouts := SD_MAX_MEDIUM_TIMEOUTS E\<rparr>;
     k \<leftarrow> sd_revalidate_disk K E is_good k;
     let k = qcall (Unprep_rq True) (qcall (Prep_rq True) k);
     let k = k\<lparr>gd_removable := removable (sd (swap (device k)))\<rparr>;
     (_, s) \<leftarrow> scsi_swap_init K (capacity k) (swap (device k));
     let k = set_swap s k;
     let (_, files) = scsi_swap_register_sysfs added (swap (device k)) False;
     k \<leftarrow> sd_revalidate_disk K E is_good k;
     Some (k, files)
   }"

text \<open>
  The part that runs at once; each argument is the answer of the kernel to a request for memory,
  a disk structure, a number for the disk and a place in the device tree. The result tells
  whether the later part is scheduled. \<^verbatim>\<open>TYPE_DISK\<close> is 0, \<^verbatim>\<open>TYPE_MOD\<close> 7 and \<^verbatim>\<open>TYPE_RBC\<close> 0x0e.
\<close>

definition sd_probe ::
    "byte \<Rightarrow> bool \<Rightarrow> bool \<Rightarrow> int + nat \<Rightarrow> int \<Rightarrow> nat \<Rightarrow> int \<times> bool" where
  "sd_probe ty got_mem got_disk got_index dev_added DISK_NAME_LEN =
     (if ty \<noteq> 0 \<and> ty \<noteq> 7 \<and> ty \<noteq> 0x0e then (- ENODEV, False)
      else if \<not> got_mem then (- 12, False)
      else if \<not> got_disk then (- 12, False)
      else
        (case got_index of
           Inl err \<Rightarrow> (err, False)
         | Inr idx \<Rightarrow>
             (case sd_format_disk_name ''sd'' idx DISK_NAME_LEN of
                None \<Rightarrow> (- EINVAL, False)
              | Some _ \<Rightarrow> if dev_added \<noteq> 0 then (0, False) else (0, True))))"

fun sync_tries :: "'w kernel \<Rightarrow> 'w sd_env \<Rightarrow> nat \<Rightarrow> u32 \<Rightarrow> 'w sd_disk \<Rightarrow> u32 \<times> 'w sd_disk" where
  "sync_tries K E 0 res k = (res, k)"
| "sync_tries K E (Suc retries) res k =
     (let (res, _, _, k) = send_cmd K E ((replicate 10 0)[0 := 0x35]) DMA_NONE [] (SD_FLUSH_TIMEOUT E) k
      in if res = 0 then (res, k) else sync_tries K E retries res k)"

definition sd_sync_cache :: "'w kernel \<Rightarrow> 'w sd_env \<Rightarrow> 'w sd_disk \<Rightarrow> int \<times> 'w sd_disk" where
  "sd_sync_cache K E k =
     (if \<not> scsi_device_online K (device_world (device k)) then (- ENODEV, k)
      else
        let (res, k) = sync_tries K E 3 0 k in if res \<noteq> 0 then (- EIO, k) else (0, k))"

definition sd_start_stop_device :: "'w kernel \<Rightarrow> 'w sd_env \<Rightarrow> bool \<Rightarrow> 'w sd_disk \<Rightarrow> int \<times> 'w sd_disk" where
  "sd_start_stop_device K E start k =
     (let c = (if start then 1 else 0) OR
                (if start_stop_pwr_cond (device k) then if start then push_bit 4 1 else push_bit 4 3 else 0)
      in if \<not> scsi_device_online K (device_world (device k)) then (- ENODEV, k)
         else
           let (res, _, _, k) = send_cmd K E [0x1b, 0, 0, 0, c, 0] DMA_NONE [] (SD_TIMEOUT E) k
           in (sint res, k))"

text \<open>\<open>suspended\<close> and \<open>restarting\<close> are the states of the device and the system.\<close>

definition sd_shutdown :: "'w kernel \<Rightarrow> 'w sd_env \<Rightarrow> bool \<Rightarrow> bool \<Rightarrow> 'w sd_disk \<Rightarrow> 'w sd_disk" where
  "sd_shutdown K E suspended restarting k =
     (if suspended then k
      else
        let k = (if WCE k then snd (sd_sync_cache K E k) else k)
        in if \<not> restarting \<and> manage_start_stop (device k) then snd (sd_start_stop_device K E False k) else k)"

definition sd_suspend :: "'w kernel \<Rightarrow> 'w sd_env \<Rightarrow> 'w sd_disk \<Rightarrow> int \<times> 'w sd_disk" where
  "sd_suspend K E k =
     (let (ret, k) = (if WCE k then sd_sync_cache K E k else (0, k))
      in if ret \<noteq> 0 then (ret, k)
         else if manage_start_stop (device k) then sd_start_stop_device K E False k else (ret, k))"

definition sd_resume :: "'w kernel \<Rightarrow> 'w sd_env \<Rightarrow> 'w sd_disk \<Rightarrow> int \<times> 'w sd_disk" where
  "sd_resume K E k =
     (if \<not> manage_start_stop (device k) then (0, k) else sd_start_stop_device K E True k)"

definition sd_remove ::
    "'w kernel \<Rightarrow> 'w sd_env \<Rightarrow> (nat \<Rightarrow> int) \<Rightarrow> bool \<Rightarrow> bool \<Rightarrow> bool \<Rightarrow> 'w sd_disk \<Rightarrow> ('w sd_disk \<times> bool) option" where
  "sd_remove K E later suspended restarting files k = do {
     let (_, files) = scsi_swap_unregister_sysfs (swap (device k)) files;
     let k = qcall (Unprep_rq False) (qcall (Prep_rq False) k);
     let k = sd_shutdown K E suspended restarting k;
     (_, s) \<leftarrow> scsi_swap_destroy K later (swap (device k));
     Some (set_swap s k, files)
   }"

text \<open>
  Loading the driver: the answers to registering the majors (how many), the class, the work queue,
  the cache and the pool for long commands, and the driver. The result tells whether the driver
  is registered.
\<close>

definition init_sd :: "nat \<Rightarrow> int \<Rightarrow> bool \<Rightarrow> bool \<Rightarrow> bool \<Rightarrow> int \<Rightarrow> int \<times> bool" where
  "init_sd majors class_err wq cache pool driver_err =
     (if majors = 0 then (- ENODEV, False)
      else if class_err \<noteq> 0 then (class_err, False)
      else
        let _ = module_scsi_swap_init wq
        in if \<not> cache then (class_err, False)
           else if \<not> pool then (class_err, False)
           else if driver_err \<noteq> 0 then (driver_err, False)
           else (0, True))"

end
