(* ===== verification/Blk_Props.thy ===== *)
theory Blk_Props
  imports Blk_Core Swap_Work
begin

text \<open>
  What the block layer guarantees about a bio on its way down (its sectors stay on the disk) and
  back up (it is completed once, or handed to the swap module once), and what the hook on the
  way down does to a bio on a partition.
\<close>

subsection \<open>The way down\<close>

lemma unat_drop9: "unat (drop_bit 9 (x :: u64)) = unat x div 512"
  by (subst unat_drop_bit_eq) (simp add: drop_bit_eq_div)

lemma unat_ucast_up: "unat (ucast (n :: u32) :: u64) = unat n"
  using unat_less_u32 [of n] unat_of_nat_small [of "unat n", where 'a = 64] by simp

lemma eod_iff:
  assumes "bi_bdev bio = Some p" "n \<noteq> 0" "unat (i_size (bdevs b p)) div 512 \<noteq> 0"
  shows "fst (bio_check_eod b bio n) \<longleftrightarrow>
    \<not> unat (bi_sector bio) + unat n \<le> unat (i_size (bdevs b p)) div 512"
proof -
  let ?m = "drop_bit 9 (i_size (bdevs b p)) :: u64"
  have "(?m < ucast n \<or> ?m - ucast n < bi_sector bio) \<longleftrightarrow> \<not> unat (bi_sector bio) + unat n \<le> unat ?m"
  proof (cases "?m < ucast n")
    case True
    then show ?thesis using unat_ucast_up [of n] by (simp add: word_less_nat_alt)
  next
    case False
    then have "unat (?m - ucast n) = unat ?m - unat n"
      using unat_ucast_up [of n] by (simp add: unat_sub word_le_nat_alt not_less)
    then show ?thesis using False unat_ucast_up [of n] by (auto simp: word_less_nat_alt)
  qed
  moreover have "?m \<noteq> 0" using assms(3) unat_drop9 [of "i_size (bdevs b p)"] by (metis unat_0)
  ultimately show ?thesis
    using assms(1,2) unat_drop9 [of "i_size (bdevs b p)"] by (simp add: bio_check_eod_def)
qed

lemma eod_same: "snd (bio_check_eod b bio n) = (if fst (bio_check_eod b bio n) then handle_bad_sector bio else bio)"
  by (simp add: bio_check_eod_def Let_def)

lemma checks_go:
  assumes "generic_make_request_checks E bio L = (True, bio', L')"
  shows "\<not> fst (bio_check_eod (below L) (blk_partition_remap (below L) bio) (bio_sectors bio))"
    "bi_sector bio' = bi_sector (blk_partition_remap (below L) bio)"
    "bi_bdev bio' = bi_bdev (blk_partition_remap (below L) bio)" "L' = L"
proof -
  let ?n = "bio_sectors bio" and ?r = "blk_partition_remap (below L) bio"
  obtain e1 b1 where 1: "bio_check_eod (below L) bio ?n = (e1, b1)" by fastforce
  obtain e2 b2 where 2: "bio_check_eod (below L) ?r ?n = (e2, b2)" by fastforce
  have b: "\<not> e1" "b1 = bio"
    using assms 1 eod_same [of "below L" bio ?n] by (auto simp: generic_make_request_checks_def)
  have c: "\<not> e2" "b2 = ?r" "bi_sector bio' = bi_sector b2 \<and> bi_bdev bio' = bi_bdev b2 \<and> L' = L"
    using assms 1 2 b eod_same [of "below L" ?r ?n]
    by (auto simp: generic_make_request_checks_def Let_def split: option.splits if_splits)
  show "\<not> fst (bio_check_eod (below L) ?r ?n)" "bi_sector bio' = bi_sector ?r" "bi_bdev bio' = bi_bdev ?r" "L' = L"
    using 2 c by auto
qed

text \<open>
  C14: a bio that passes the checks of \<^verbatim>\<open>generic_make_request\<close> names whole-disk
  sectors: if it was on a partition it is moved by the start of the partition, and its range ends
  within the size of the disk, computed without wrap-around.
\<close>

theorem checks_stay_on_disk:
  assumes "generic_make_request_checks E bio L = (True, bio', L')"
    and "bi_bdev bio = Some p" "bd_contains (bdevs (below L) p) = whole" "bio_sectors bio \<noteq> 0"
    and "unat (i_size (bdevs (below L) whole)) div 512 \<noteq> 0"
  shows "bi_bdev bio' = Some whole \<and>
    bi_sector bio' = (if p = whole then bi_sector bio else bi_sector bio + start_sect (bdevs (below L) p)) \<and>
    unat (bi_sector bio') + unat (bio_sectors bio) \<le> unat (i_size (bdevs (below L) whole)) div 512"
proof -
  let ?r = "blk_partition_remap (below L) bio"
  have r: "bi_bdev ?r = Some whole"
    "bi_sector ?r = (if p = whole then bi_sector bio else bi_sector bio + start_sect (bdevs (below L) p))"
    using assms(2-4) by (simp_all add: blk_partition_remap_def)
  show ?thesis
    using checks_go [OF assms(1)] r eod_iff [OF r(1) assms(4,5)] by simp
qed

text \<open>A layer over the reference device, with a partition at address 2.\<close>

definition ram_blk :: "ram_disk scsi_dev \<Rightarrow> ram_disk blk" where
  "ram_blk d = \<lparr>bdevs = \<lambda>p. \<lparr>bd_disk = Some \<lparr>dev_parent = Some (Sdev 0)\<rparr>, bd_contains = 0,
       start_sect = (if p = 2 then 2048 else 0), i_size = (if p = 2 then 512 * 1024 else 512 * 4096)\<rparr>,
     sdevs = \<lambda>_. d, swap_wq = []\<rparr>"

definition ram_layer :: "ram_disk scsi_dev \<Rightarrow> ram_disk layer" where
  "ram_layer d = \<lparr>below = ram_blk d, ended = [], task_list = None\<rparr>"

definition ram_env :: "ram_disk blk_env" where
  "ram_env = \<lparr>queue_of = \<lambda>_. Some \<lparr>max_hw_sectors = 1024, flush_flags = True, q_discard = False,
       q_secdiscard = False, q_write_same = False, max_segments = 128, max_sectors = 1024\<rparr>,
     integrity_fails = \<lambda>_. False, throttled = \<lambda>_. False, make_request_fn = \<lambda>_ L. L\<rparr>"

lemmas ram_defs = ram_blk_def ram_layer_def ram_env_def ram_dev_def ram_bio_def

lemma ram_blk_sdev: "bio_get_scsi_swap (below (ram_layer d)) bio =
  (if bi_bdev bio = None \<or> removable (sd d) \<or> changed (sd d) \<or> \<not> enable d then None else Some 0)"
  by (auto simp: bio_get_scsi_swap_def sdev_from_bdev_def ram_layer_def ram_blk_def split: option.splits)

theorem checks_stay_on_disk_witness:
  "\<exists>bio' L'. generic_make_request_checks ram_env (ram_bio {}\<lparr>bi_bdev := Some 2\<rparr>) (ram_layer ram_dev) = (True, bio', L') \<and>
     bi_bdev bio' = Some 0 \<and> bi_sector bio' = 2056"
proof -
  let ?bio = "ram_bio {}\<lparr>bi_bdev := Some 2\<rparr>"
  obtain bio' L' where c: "generic_make_request_checks ram_env ?bio (ram_layer ram_dev) = (True, bio', L')"
    by (simp add: generic_make_request_checks_def ram_defs bio_check_eod_def bio_sectors_def bio_has_data_def
        blk_partition_remap_def Let_def)
  then show ?thesis
    using checks_stay_on_disk [OF c, of 2 0] by (simp add: ram_defs bio_sectors_def)
qed

subsection \<open>The way back\<close>

text \<open>An enabled device has its handler.\<close>

definition handlers_live :: "'w blk \<Rightarrow> bool" where
  "handlers_live b \<longleftrightarrow> (\<forall>q. enable (sdevs b q) \<longrightarrow> private_data (sdevs b q) = Live_ptr)"

lemma bio_get_enabled: "bio_get_scsi_swap b bio = Some q \<Longrightarrow> enable (sdevs b q)"
  by (auto simp: bio_get_scsi_swap_def Let_def split: option.splits if_splits)

lemma swap_bio_total:
  assumes "handlers_live b"
  shows "\<exists>r b'. swap_bio K (Some bio) sec len bad err mayc b = Some (r, b') \<and> handlers_live b' \<and>
    bdevs b' = bdevs b \<and> map item_bio (swap_wq b') = map item_bio (swap_wq b) @ (if r then [bio] else [])"
proof (cases "bio_get_scsi_swap b bio")
  case None
  then show ?thesis using assms by (intro exI [of _ False] exI [of _ b]) (simp add: swap_bio_def)
next
  case (Some q)
  have live: "private_data (sdevs b q) = Live_ptr"
    using bio_get_enabled [OF Some] assms by (simp add: handlers_live_def)
  obtain m s where "alloc K 80 (sd (sdevs b q)) = (m, s)" by fastforce
  then show ?thesis
    using Some live assms
    by (cases m) (auto simp: swap_bio_def deref_handler_def handlers_live_def Let_def)
qed

text \<open>What the completion of a whole bio leaves of it, and the error it carries.\<close>

definition finished :: "request \<Rightarrow> int \<Rightarrow> bio \<Rightarrow> bio" where
  "finished rq error bio = bio\<lparr>bi_uptodate := (bi_uptodate bio \<and> error = 0),
     bi_quiet := (bi_quiet bio \<or> REQ_QUIET \<in> rq_flags rq),
     bi_size := 0, bi_sector := bi_sector bio + ucast (drop_bit 9 (bi_size bio))\<rparr>"

definition bio_error :: "int \<Rightarrow> bio \<Rightarrow> int" where
  "bio_error error bio = (if error = 0 \<and> \<not> bi_uptodate bio then - EIO else error)"

text \<open>The bios that are queued and those that are ended, by a list of flags.\<close>

definition split_bios :: "request \<Rightarrow> int \<Rightarrow> bool \<Rightarrow> bool list \<Rightarrow> bio list \<Rightarrow> (bio \<times> int) list" where
  "split_bios rq error q qs bios =
     map (\<lambda>(bio, _). (finished rq error bio, bio_error error bio)) (filter (\<lambda>(_, x). x = q) (zip bios qs))"

lemma split_bios_simps [simp]:
  "split_bios rq error q [] [] = []"
  "split_bios rq error q (x # qs) (bio # bios) =
     (if x = q then [(finished rq error bio, bio_error error bio)] else []) @ split_bios rq error q qs bios"
  by (auto simp: split_bios_def)

lemma req_bio_endio_whole:
  assumes "handlers_live (below L)" "REQ_FLUSH_SEQ \<notin> rq_flags rq"
  shows "\<exists>r bio' L'. req_bio_endio K rq bio (bi_size bio) error L = Some (bio', L') \<and> handlers_live (below L') \<and>
    task_list L' = task_list L \<and> bdevs (below L') = bdevs (below L) \<and>
    ended L' = ended L @ (if r then [] else [(finished rq error bio, bio_error error bio)]) \<and>
    map item_bio (swap_wq (below L')) = map item_bio (swap_wq (below L)) @ (if r then [finished rq error bio] else [])"
proof -
  obtain r b' where sw: "swap_bio K (Some (finished rq error bio)) (bi_sector bio) (bi_size bio) (rq_sector rq)
      (bio_error error bio) True (below L) = Some (r, b')"
    "handlers_live b'" "bdevs b' = bdevs (below L)"
    "map item_bio (swap_wq b') = map item_bio (swap_wq (below L)) @ (if r then [finished rq error bio] else [])"
    using swap_bio_total [OF assms(1)] by metis
  have "req_bio_endio K rq bio (bi_size bio) error L =
      Some (finished rq error bio, if r then L\<lparr>below := b'\<rparr> else bio_endio (finished rq error bio) (bio_error error bio) (L\<lparr>below := b'\<rparr>))"
    using sw(1) assms(2)
    by (cases bio; cases "error = 0"; cases "REQ_QUIET \<in> rq_flags rq")
      (simp_all add: req_bio_endio_def finished_def bio_error_def Let_def)
  then show ?thesis using sw by (intro exI [of _ r]) (simp add: bio_endio_def)
qed

abbreviation bios_len :: "bio list \<Rightarrow> nat" where
  "bios_len bios \<equiv> sum_list (map (\<lambda>bio. unat (bi_size bio)) bios)"

lemma update_loop_prefix:
  assumes "handlers_live (below L)" "REQ_FLUSH_SEQ \<notin> rq_flags rq" "fin \<noteq> []" "\<forall>bio \<in> set fin. bi_size bio \<noteq> 0"
    and "bios_len fin = unat nr"
  shows "\<exists>qs L'. update_loop K rq error (fin @ rest) idx bn tot nr L = Some (rest, 0, 0, tot + nr, 0, L') \<and>
    length qs = length fin \<and> handlers_live (below L') \<and>
    ended L' = ended L @ split_bios rq error False qs fin \<and>
    map item_bio (swap_wq (below L')) = map item_bio (swap_wq (below L)) @ map fst (split_bios rq error True qs fin)"
  using assms
proof (induction fin arbitrary: idx bn tot nr L)
  case Nil
  then show ?case by simp
next
  case (Cons bio fin)
  have le: "bi_size bio \<le> nr" using Cons.prems(5) by (simp add: word_le_nat_alt)
  then have sub: "unat (nr - bi_size bio) = bios_len fin" using Cons.prems(5) by (simp add: unat_sub)
  obtain r bio' L1 where 1: "req_bio_endio K rq bio (bi_size bio) error L = Some (bio', L1)" "handlers_live (below L1)"
    "ended L1 = ended L @ (if r then [] else [(finished rq error bio, bio_error error bio)])"
    "map item_bio (swap_wq (below L1)) = map item_bio (swap_wq (below L)) @ (if r then [finished rq error bio] else [])"
    using req_bio_endio_whole [OF Cons.prems(1,2)] by metis
  show ?case
  proof (cases "fin = []")
    case True
    then have "nr = bi_size bio" using sub by (simp add: unat_eq_0)
    then show ?thesis using 1 True by (intro exI [of _ "[r]"]) (cases rest; auto)
  next
    case False
    then obtain b where "b \<in> set fin" by (meson list.set_sel(1))
    then have "0 < unat (bi_size b)" "unat (bi_size b) \<le> bios_len fin"
      using Cons.prems(4) by (auto simp: unat_gt_0 intro: member_le_sum_list)
    then have nz: "nr - bi_size bio \<noteq> 0" using sub by (metis not_less unat_0)
    obtain qs L' where 2: "update_loop K rq error (fin @ rest) 0 0 (tot + bi_size bio) (nr - bi_size bio) L1
        = Some (rest, 0, 0, tot + bi_size bio + (nr - bi_size bio), 0, L')" "length qs = length fin" "handlers_live (below L')"
      "ended L' = ended L1 @ split_bios rq error False qs fin"
      "map item_bio (swap_wq (below L')) = map item_bio (swap_wq (below L1)) @ map fst (split_bios rq error True qs fin)"
      using Cons.IH [OF 1(2) Cons.prems(2) False, of "nr - bi_size bio" 0 0 "tot + bi_size bio"] Cons.prems(4) sub by auto
    show ?thesis
      by (intro exI [of _ "r # qs"] exI [of _ L']) (use 1 2 le nz in \<open>auto simp: Let_def\<close>)
  qed
qed

text \<open>
  C8: completing as many bytes as the first bios of a request have, on a layer whose enabled
  devices have their handlers, never faults and treats each of these bios exactly once, in order:
  it is either ended, with the error of the request, or handed to the swap module. The request is
  left with the other bios, with its length and position advanced by the same number of bytes; it
  is finished exactly when no bio is left.
\<close>

theorem update_request_completes:
  assumes "handlers_live (below L)" "REQ_FLUSH_SEQ \<notin> rq_flags rq" "REQ_MIXED_MERGE \<notin> rq_flags rq"
    and "rq_bios rq = fin @ rest" "fin \<noteq> []" "\<forall>bio \<in> set fin. bi_size bio \<noteq> 0" "bios_len fin = unat nr"
    and "rq_type rq = REQ_TYPE_FS"
  shows "\<exists>qs rq' L'. blk_update_request K segs rq error nr L = Some (rest \<noteq> [], rq', L') \<and> rq_bios rq' = rest \<and>
    length qs = length fin \<and>
    ended L' = ended L @ split_bios rq error False qs fin \<and>
    map item_bio (swap_wq (below L')) = map item_bio (swap_wq (below L)) @ map fst (split_bios rq error True qs fin) \<and>
    (rest \<noteq> [] \<longrightarrow> rq_sector rq' = rq_sector rq + scast (signed_drop_bit 9 nr) \<and>
       (rq_cur_bytes (rq\<lparr>rq_bios := rest\<rparr>) \<le> data_len rq - nr \<longrightarrow> data_len rq' = data_len rq - nr))"
proof -
  let ?rq = "rq\<lparr>rq_errors := 0\<rparr>"
  have f: "split_bios ?rq error q qs bios = split_bios rq error q qs bios" for q qs bios
    by (simp add: split_bios_def finished_def)
  obtain qs L' where u: "update_loop K ?rq error (fin @ rest) 0 0 0 nr L = Some (rest, 0, 0, nr, 0, L')"
    "length qs = length fin" "ended L' = ended L @ split_bios rq error False qs fin"
    "map item_bio (swap_wq (below L')) = map item_bio (swap_wq (below L)) @ map fst (split_bios rq error True qs fin)"
    using update_loop_prefix [OF assms(1), of ?rq fin nr K error rest 0 0 0] assms(2,5-7) f by auto
  show ?thesis
  proof (cases rest)
    case Nil
    then show ?thesis
      using u assms(4,5,8) by (intro exI [of _ qs]) (simp add: blk_update_request_def)
  next
    case (Cons bio bios)
    then show ?thesis
      using u assms(3,4,5,8)
      by (intro exI [of _ qs]) (auto simp: blk_update_request_def Let_def rq_cur_bytes_def)
  qed
qed

definition ram_rq :: request where
  "ram_rq = blk_rq_init\<lparr>rq_bios := [ram_bio {REQ_WRITE}, ram_bio {}], rq_type := REQ_TYPE_FS, data_len := 1024, rq_sector := 8\<rparr>"

theorem update_request_completes_witness:
  "\<exists>rq' L'. blk_update_request ram_kernel 1 ram_rq (- EIO) 512 (ram_layer ram_dev) = Some (True, rq', L') \<and>
     rq_bios rq' = [ram_bio {}] \<and> rq_sector rq' = 9 \<and> data_len rq' = 512"
  using update_request_completes [of "ram_layer ram_dev" ram_rq "[ram_bio {REQ_WRITE}]" "[ram_bio {}]" 512 ram_kernel 1 "- EIO"]
  by (auto simp: ram_rq_def blk_rq_init_def ram_defs handlers_live_def rq_cur_bytes_def bio_has_data_def)

end
