(* ===== verification/Swap_Hook.thy ===== *)
theory Swap_Hook
  imports Blk_Props
begin

text \<open>
  The two hooks of the swap module in the block layer: the test that sends a bio on a mapped
  block to the module instead of the disk, and the retry of a failed bio.
\<close>

subsection \<open>The test\<close>

lemma ex_shift: "\<not> P 0 \<Longrightarrow> (\<exists>j. P (Suc j)) = (\<exists>j. P j)"
  by (metis not0_implies_Suc)

lemma did_block_loop_decides:
  assumes "infos_ok c" "unat end_sec \<le> 2 ^ 64 - 128"
  shows "did_block_loop c start end_sec =
    Some (\<exists>j. unat start + 128 * j < unat end_sec \<and> find_src c (unat start + 128 * j) \<noteq> None)"
proof (induction "unat end_sec - unat start" arbitrary: start rule: less_induct)
  case less
  let ?P = "\<lambda>j. unat start + 128 * j < unat end_sec \<and> find_src c (unat start + 128 * j) \<noteq> None"
  show ?case
  proof (cases "start < end_sec")
    case False
    then show ?thesis by (simp add: did_block_loop.simps [of c start] word_less_nat_alt)
  next
    case True
    then have lt: "unat start < unat end_sec" by (simp add: word_less_nat_alt)
    have find: "swap_find_swap_info c start = Some (find_src c (unat start))" using swap_find_eq [OF assms(1)] .
    show ?thesis
    proof (cases "find_src c (unat start)")
      case (Some p)
      then have "?P 0" using lt by simp
      then have "\<exists>j. ?P j" by blast
      then show ?thesis using True find Some by (simp add: did_block_loop.simps [of c start])
    next
      case None
      have up: "unat (start + 128) = unat start + 128" using unat_plus_nat [of start 128] lt assms(2) by simp
      have "did_block_loop c (start + 128) end_sec = Some (\<exists>j. ?P (Suc j))"
        using less [of "start + 128"] lt up by (simp add: add.assoc)
      also have "(\<exists>j. ?P (Suc j)) = (\<exists>j. ?P j)" using None by (intro ex_shift) simp
      finally show ?thesis using True find None by (simp add: did_block_loop.simps [of c start])
    qed
  qed
qed

text \<open>
  C13: for a well-formed core and a request that ends before the last block of the
  number range, the test of the hook comes to an end and says whether one of the sectors of the
  request lies in a mapped block.
\<close>

theorem swapped_decides:
  assumes "core_ok s" "0 < unat num" "unat num < 2 ^ 31" "unat sector + unat num \<le> 2 ^ 64 - 128"
  shows "scsi_swap_core_swapped (core s) sector num =
    Some (\<exists>m. unat sector \<le> m \<and> m < unat sector + unat num \<and> find_src (core s) (128 * (m div 128)) \<noteq> None)"
proof -
  let ?a = "128 * (unat sector div 128)"
  have e: "unat (sector + scast num) = unat sector + unat num"
    using scast_u32_small [OF assms(3)] unat_plus_nat [of sector "unat num"] assms(4) by simp
  have al: "unat (SWAP_SECTOR_ALIGN sector) = ?a" by (rule align_facts)
  have "(\<exists>j. ?a + 128 * j < unat sector + unat num \<and> find_src (core s) (?a + 128 * j) \<noteq> None) =
      (\<exists>m. unat sector \<le> m \<and> m < unat sector + unat num \<and> find_src (core s) (128 * (m div 128)) \<noteq> None)"
  proof safe
    fix j p
    assume j: "?a + 128 * j < unat sector + unat num" "find_src (core s) (?a + 128 * j) = Some p"
    let ?m = "max (unat sector) (?a + 128 * j)"
    have "128 * (?m div 128) = ?a + 128 * j"
    proof (cases j)
      case 0
      then show ?thesis by (simp add: max_def)
    next
      case (Suc i)
      then have "?m = 128 * (unat sector div 128 + j)" by (simp add: max_def)
      then show ?thesis by simp
    qed
    then show "\<exists>m. unat sector \<le> m \<and> m < unat sector + unat num \<and> find_src (core s) (128 * (m div 128)) \<noteq> None"
      using j assms(2) by (intro exI [of _ ?m]) simp
  next
    fix m p
    assume m: "unat sector \<le> m" "m < unat sector + unat num" "find_src (core s) (128 * (m div 128)) = Some p"
    let ?j = "m div 128 - unat sector div 128"
    have "unat sector div 128 \<le> m div 128" using m(1) by (rule div_le_mono)
    then have "?a + 128 * ?j = 128 * (m div 128)" by (simp add: right_diff_distrib' diff_mult_distrib2)
    moreover have "128 * (m div 128) \<le> m" by simp
    ultimately show "\<exists>j. ?a + 128 * j < unat sector + unat num \<and> find_src (core s) (?a + 128 * j) \<noteq> None"
      using m(2,3) by (intro exI [of _ ?j]) simp
  qed
  then show ?thesis
    using did_block_loop_decides [OF core_okD(2) [OF assms(1)], of "sector + scast num" "SWAP_SECTOR_ALIGN sector"] e al assms(4)
    by (simp add: scsi_swap_core_swapped_def did_block_swapped_def)
qed

theorem swapped_decides_witness:
  "scsi_swap_core_swapped (core (ram_sdev ram_new)) 1000 8 = Some False"
  using swapped_decides [OF core_ok_ram_sdev, of 8 1000 ram_new] by (simp add: find_src_def ram_sdev_def)

text \<open>The loop on a request that ends in the last block of the number range.\<close>

lemma aligned_next:
  assumes "unat (start :: sector_t) mod 128 = 0"
  shows "unat (start + 128) mod 128 = 0"
proof -
  have "unat (start + 128) = (unat start + 128) mod 2 ^ 64" by (simp add: unat_word_ariths)
  moreover have "(unat start + 128) mod 2 ^ 64 mod 128 = (unat start + 128) mod 128" by (rule mod_mod_cancel) simp
  ultimately show ?thesis using assms by simp
qed

lemma aligned_last:
  assumes "unat (start :: sector_t) mod 128 = 0"
  shows "unat start \<le> 2 ^ 64 - 128"
proof -
  have "unat start div 128 < 2 ^ 57" using unat_less_u64 [of start] by (simp add: div_less_iff_less_mult)
  moreover have "unat start = 128 * (unat start div 128)" using assms mult_div_mod_eq [of 128 "unat start"] by simp
  ultimately show ?thesis by simp
qed

lemma did_block_loop_hangs:
  assumes "did_block_loop c start end_sec = Some r"
  shows "info_list c = [] \<Longrightarrow> unat start mod 128 = 0 \<Longrightarrow> \<not> 2 ^ 64 - 128 < unat end_sec"
proof (induction rule: did_block_loop.raw_induct [OF _ assms])
  case (1 f c start end_sec r)
  show ?case
  proof
    assume e: "2 ^ 64 - 128 < unat end_sec"
    then have "start < end_sec" using aligned_last [OF "1.prems"(2)] by (simp add: word_less_nat_alt)
    then have "f c (start + 128) end_sec = Some r"
      using "1.hyps" "1.prems"(1) by (simp add: swap_find_swap_info_def)
    from "1.IH" [OF this "1.prems"(1) aligned_next [OF "1.prems"(2)]] e show False by simp
  qed
qed



subsection \<open>Bios on a partition\<close>

lemma swap_bio_items:
  assumes "swap_bio K (Some bio) sec len bad err mayc b = Some (r, b')"
  shows "\<exists>new. swap_wq b' = swap_wq b @ new \<and> (\<forall>item \<in> set new. start_sec item = sec)"
  using assms
  by (auto simp: swap_bio_def bind_eq_Some_conv Let_def split: option.splits if_splits prod.splits)

lemma same_disk_same_swap:
  assumes "bd_disk (bdevs b p) = bd_disk (bdevs b whole)" "bi_bdev bio = Some p"
  shows "bio_get_scsi_swap b (bio\<lparr>bi_bdev := Some whole\<rparr>) = bio_get_scsi_swap b bio"
  using assms by (simp add: bio_get_scsi_swap_def sdev_from_bdev_def)

text \<open>
  C27: the hook decides on a bio for a partition exactly as it would on a
  bio for the whole disk with the same sector number, and the work item it queues starts at that
  number: the start of the partition, which is added only later, is never taken into account.
\<close>

theorem partition_start_ignored:
  assumes "bi_bdev bio = Some p" "bd_disk (bdevs (below L) p) = bd_disk (bdevs (below L) whole)"
    and "bio_has_bad_block (below L) bio = Some True" "generic_make_request K E bio L = Some L'"
  shows "bio_has_bad_block (below L) (bio\<lparr>bi_bdev := Some whole\<rparr>) = Some True \<and>
    (\<exists>new. swap_wq (below L') = swap_wq (below L) @ new \<and> (\<forall>item \<in> set new. start_sec item = bi_sector bio))"
proof
  show "bio_has_bad_block (below L) (bio\<lparr>bi_bdev := Some whole\<rparr>) = Some True"
    using assms(3) same_disk_same_swap [OF assms(2,1)]
    by (simp add: bio_has_bad_block_def bio_sectors_def split: option.splits)
  obtain r b' where "swap_bio K (Some bio) (bi_sector bio) (bi_size bio) (- 1) (- EIO) False (below L) = Some (r, b')"
    "below L' = b'"
    using assms(3,4) by (auto simp: generic_make_request_def bind_eq_Some_conv bio_endio_def Let_def split: if_splits)
  then show "\<exists>new. swap_wq (below L') = swap_wq (below L) @ new \<and> (\<forall>item \<in> set new. start_sec item = bi_sector bio)"
    using swap_bio_items by blast
qed

text \<open>A device whose first block is mapped.\<close>

definition ram_mapped :: "ram_disk scsi_dev" where
  "ram_mapped = ram_dev\<lparr>sd := (ram_sdev ram_new)\<lparr>core := (core (ram_sdev ram_new))\<lparr>info_num := 1, info_list := [0],
     next_info := 1, infos := (\<lambda>p. if p = 0 then Some \<lparr>table = \<lparr>src_sec = 0, swap_sec = 53248, sec_size = 128,
       retrys = 0, tindex = 0, reserverd = replicate 6 0, tchecksum = 0, save_sec = 0\<rparr>, sdata = None\<rparr> else None)\<rparr>\<rparr>\<rparr>"

lemma ram_mapped_hit: "bio_has_bad_block (below (ram_layer ram_mapped)) (ram_bio {}\<lparr>bi_bdev := Some 2\<rparr>) = Some True"
  by (simp add: bio_has_bad_block_def ram_blk_sdev)
    (simp add: ram_mapped_def ram_defs ram_sdev_def deref_handler_def scsi_swap_core_swapped_def did_block_swapped_def
      SWAP_SECTOR_ALIGN_def SWAP_BLOCK_INDEX_def did_block_loop.simps bio_sectors_def swap_find_swap_info_def)

lemma ram_mapped_request: "\<exists>L'. generic_make_request ram_kernel ram_env (ram_bio {}\<lparr>bi_bdev := Some 2\<rparr>) (ram_layer ram_mapped) = Some L' \<and>
    length (swap_wq (below L')) = 1"
  by (simp add: generic_make_request_def ram_mapped_hit swap_bio_def ram_blk_sdev)
    (simp add: ram_mapped_def ram_defs ram_sdev_def deref_handler_def scsi_swap_core_can_swap_def alloc_def ram_kernel_def
      ram_new_def Let_def)

theorem partition_start_ignored_witness:
  "\<exists>L' item. generic_make_request ram_kernel ram_env (ram_bio {}\<lparr>bi_bdev := Some 2\<rparr>) (ram_layer ram_mapped) = Some L' \<and>
     swap_wq (below L') = [item] \<and> start_sec item = 8 \<and>
     bi_sector (blk_partition_remap (below (ram_layer ram_mapped)) (ram_bio {}\<lparr>bi_bdev := Some 2\<rparr>)) = 2056"
proof -
  obtain L' where L: "generic_make_request ram_kernel ram_env (ram_bio {}\<lparr>bi_bdev := Some 2\<rparr>) (ram_layer ram_mapped) = Some L'"
    "length (swap_wq (below L')) = 1" using ram_mapped_request by blast
  obtain new where "swap_wq (below L') = swap_wq (below (ram_layer ram_mapped)) @ new" "\<forall>item \<in> set new. start_sec item = 8"
    using partition_start_ignored [OF _ _ ram_mapped_hit L(1), of 2 0] by (auto simp: ram_bio_def ram_layer_def ram_blk_def)
  then obtain item where "swap_wq (below L') = [item]" "start_sec item = 8"
    using L(2) by (cases new) (auto simp: ram_layer_def ram_blk_def)
  moreover have "bi_sector (blk_partition_remap (below (ram_layer ram_mapped)) (ram_bio {}\<lparr>bi_bdev := Some 2\<rparr>)) = 2056"
    by (simp add: blk_partition_remap_def ram_defs bio_sectors_def)
  ultimately show ?thesis using L(1) by blast
qed

subsection \<open>After the module has gone\<close>


lemma wait_loop_idle: "wait_loop later n i 0 = (0, i)"
  by (cases n) simp_all


subsection \<open>A failed write\<close>

lemma swap_bio_queues:
  assumes "bio_get_scsi_swap b bio = Some q" "private_data (sdevs b q) = Live_ptr" "is_write bio"
    and "scsi_swap_core_can_swap (core (sd (sdevs b q))) sec len" "alloc K 80 (sd (sdevs b q)) = (Some m, s1)"
  shows "swap_bio K (Some bio) sec len bad (- EIO) mayc b =
    Some (True, set_sdev q (sdevs b q\<lparr>sd := s1\<rparr>) b\<lparr>swap_wq := swap_wq b @
      [\<lparr>item_sdev = q, item_bio = bio, start_sec = sec, isize = len, bad_sec = bad, may_create = mayc\<rparr>]\<rparr>)"
  using assms by (simp add: swap_bio_def deref_handler_def Let_def)

lemma finished_get: "bio_get_scsi_swap b (finished rq error bio) = bio_get_scsi_swap b bio"
  by (simp add: bio_get_scsi_swap_def finished_def)

text \<open>
  C4: when the disk fails a whole write bio with an I/O error, for an enabled device with a
  well-formed core that is not dead and with memory for the work item, the bio is not ended but
  queued. The work handler then ends the item without a fault, with error 0 or \<^verbatim>\<open>-EIO\<close>; with error 0
  the sectors of the bio hold the data of its pages, so the write that failed on the disk is kept.
\<close>

theorem failed_write_is_kept:
  assumes disk: "scsi_disk K dsk"
    and dev: "bio_get_scsi_swap (below L) bio = Some q" "sdevs (below L) q = d" "private_data d = Live_ptr"
      "core_ok (sd d)" "device_dead (core (sd d)) = 0" "kmalloc K 80 (world (sd d)) = (Some m, w)"
    and bio: "is_write bio" "\<forall>v \<in> set (bio_segs bio). seg_ok v" "segs_len (bio_segs bio) = unat (bi_size bio)"
      "0 < unat (bi_size bio)" "unat (bi_size bio) < 2 ^ 31" "512 dvd unat (bi_size bio)"
      "unat (bi_sector bio) + unat (bi_size bio) div 512 \<le> unat (sector_reserve_start (core (sd d)))"
    and rq: "REQ_FLUSH_SEQ \<notin> rq_flags rq"
  shows "\<exists>bio' L' item err bio'' d''. req_bio_endio K rq bio (bi_size bio) (- EIO) L = Some (bio', L') \<and>
    ended L' = ended L \<and> swap_wq (below L') = swap_wq (below L) @ [item] \<and> item_sdev item = q \<and>
    swap_bio_work_handler K item (sdevs (below L') q) = Some (err, bio'', d'') \<and> (err = 0 \<or> err = - EIO) \<and> core_ok (sd d'') \<and>
    (err = 0 \<longrightarrow> sectors_at (logical dsk (sd d'')) (unat (bi_sector bio)) (unat (bi_size bio) div 512) = segs_bytes (bio_segs bio))"
proof -
  let ?f = "finished rq (- EIO) bio" and ?s1 = "sd d\<lparr>world := w\<rparr>"
  define item where "item = \<lparr>item_sdev = q, item_bio = ?f, start_sec = bi_sector bio, isize = bi_size bio,
    bad_sec = rq_sector rq, may_create = True\<rparr>"
  have al: "alloc K 80 (sd d) = (Some m, ?s1)" using dev(6) by (simp add: alloc_def)
  have "unat (bi_sector bio) < unat (sector_reserve_start (core (sd d)))" using bio(4,6,7) by (auto elim: dvdE)
  then have can: "scsi_swap_core_can_swap (core (sd d)) (bi_sector bio) (bi_size bio)"
    using dev(5) by (simp add: scsi_swap_core_can_swap_def word_less_nat_alt)
  let ?b = "set_sdev q (d\<lparr>sd := ?s1\<rparr>) (below L)\<lparr>swap_wq := swap_wq (below L) @ [item]\<rparr>"
  have sw: "swap_bio K (Some ?f) (bi_sector bio) (bi_size bio) (rq_sector rq) (- EIO) True (below L) = Some (True, ?b)"
    using swap_bio_queues [of "below L" ?f q] dev finished_get [of "below L" rq "- EIO" bio] bio(1) can al
    by (simp add: item_def finished_def)
  have fin: "req_bio_endio K rq bio (bi_size bio) (- EIO) L = Some (?f, L\<lparr>below := ?b\<rparr>)"
    using sw rq by (cases bio; cases "REQ_QUIET \<in> rq_flags rq") (simp_all add: req_bio_endio_def finished_def Let_def)
  have q: "quiet dsk {} (sd d) ?s1" using scsi_disk.alloc_quiet [OF disk al] .
  have ok: "core_ok ?s1" "sector_reserve_start (core ?s1) = sector_reserve_start (core (sd d))"
    using quiet_core_ok [OF q dev(4)] by simp_all
  have it: "item_ok item" using bio by (simp add: item_ok_def item_def finished_def)
  obtain err bio'' d'' where h: "swap_bio_work_handler K item (d\<lparr>sd := ?s1\<rparr>) = Some (err, bio'', d'')" "err = 0 \<or> err = - EIO"
    "core_ok (sd d'')" "err = 0 \<longrightarrow> sectors_at (logical dsk (sd d'')) (unat (start_sec item)) (item_count item) =
      (if is_write (item_bio item) then segs_bytes (bio_segs (item_bio item)) else segs_bytes (bio_segs bio''))"
    using work_handler_ok [OF disk, of "d\<lparr>sd := ?s1\<rparr>" item] ok it bio(7) dev(3) by (auto simp: item_def)
  have "swap_bio_work_handler K item (sdevs ?b q) = Some (err, bio'', d'')" using h(1) by simp
  then show ?thesis
    using fin h(2-4) bio(1)
    by (intro exI [of _ ?f] exI [of _ "L\<lparr>below := ?b\<rparr>"] exI [of _ item] exI [of _ err] exI [of _ bio''] exI [of _ d''])
      (simp add: item_def finished_def)
qed

theorem failed_write_is_kept_witness:
  "\<exists>bio' L' item. req_bio_endio ram_kernel blk_rq_init (ram_bio {REQ_WRITE}) 512 (- EIO) (ram_layer ram_dev) = Some (bio', L') \<and>
     ended L' = [] \<and> swap_wq (below L') = [item]"
  using failed_write_is_kept [OF ram.scsi_disk_axioms, of "ram_layer ram_dev" "ram_bio {REQ_WRITE}" 0 ram_dev
      "replicate 80 0xa5" ram_new blk_rq_init]
    core_ok_ram_sdev [of ram_new] item_ok_ram_item [of "{REQ_WRITE}"]
  by (simp add: ram_blk_sdev)
    (simp add: ram_layer_def ram_blk_def ram_dev_def ram_sdev_def ram_bio_def ram_kernel_def ram_new_def item_ok_def
      ram_item_def blk_rq_init_def, blast)

end
