(* ===== verification/Sd_Props.thy ===== *)
theory Sd_Props
  imports Sd_Probe Swap_Hook
begin

text \<open>
  The commands of the disk driver: what they ask of the disk is what the request asks, within the
  capacity that the block layer knows; and what a failed command reports as done excludes the
  failed sector.
\<close>

subsection \<open>Bytes of a command block\<close>

lemma nth_be_bytes: "i < n \<Longrightarrow> be_bytes n w ! i = ucast (drop_bit (8 * (n - 1 - i)) w)"
  by (simp add: be_bytes_def rev_nth nth_le_bytes)

lemma join32:
  assumes "32 \<le> LENGTH('a)"
  shows "push_bit 24 (ucast (ucast (drop_bit 24 x) :: byte)) OR push_bit 16 (ucast (ucast (drop_bit 16 x) :: byte))
     OR push_bit 8 (ucast (ucast (drop_bit 8 x) :: byte)) OR ucast (ucast (x :: 'a::len word) :: byte) = (ucast x :: u32)"
proof (rule bit_eqI)
  fix k
  assume "possible_bit TYPE(u32) k"
  then have k: "k < 32" by simp
  consider "k < 8" | "8 \<le> k" "k < 16" | "16 \<le> k" "k < 24" | "24 \<le> k" using k by linarith
  then show "bit (push_bit 24 (ucast (ucast (drop_bit 24 x) :: byte)) OR push_bit 16 (ucast (ucast (drop_bit 16 x) :: byte))
     OR push_bit 8 (ucast (ucast (drop_bit 8 x) :: byte)) OR ucast (ucast x :: byte) :: u32) k = bit (ucast x :: u32) k"
    using k assms by cases (auto simp: bit_simps)
qed

lemma join16:
  assumes "unat (x :: u32) < 2 ^ 16"
  shows "push_bit 8 (ucast (ucast (drop_bit 8 x) :: byte)) OR ucast (ucast x :: byte) = x"
proof (rule bit_eqI)
  fix k
  assume "possible_bit TYPE(u32) k"
  then have k: "k < 32" by simp
  have "take_bit 16 x = x" using assms by (simp add: word_unat_eq_iff unsigned_take_bit_eq take_bit_nat_eq_self)
  then have hi: "\<not> bit x k" if "16 \<le> k" using that bit_take_bit_iff [of 16 x k] by simp
  consider "k < 8" | "8 \<le> k" "k < 16" | "16 \<le> k" by linarith
  then show "bit (push_bit 8 (ucast (ucast (drop_bit 8 x) :: byte)) OR ucast (ucast x :: byte) :: u32) k = bit x k"
    using k hi by cases (auto simp: bit_simps)
qed

lemma join64: "push_bit 32 (ucast (ucast (drop_bit 32 b) :: u32)) OR ucast (ucast b :: u32) = (b :: u64)"
proof (rule bit_eqI)
  fix k
  assume "possible_bit TYPE(u64) k"
  then have "k < 64" by simp
  then show "bit (push_bit 32 (ucast (ucast (drop_bit 32 b) :: u32)) OR ucast (ucast b :: u32) :: u64) k = bit b k"
    by (cases "k < 32") (auto simp: bit_simps)
qed

lemma be32_overwrite:
  assumes "i + 4 \<le> length buf" "32 \<le> LENGTH('a)" "\<forall>j < 4. buf ! (i + j) = be_bytes 4 (x :: 'a::len word) ! j"
  shows "be32 buf i = ucast x"
  using assms(3) [rule_format, of 0] assms(3) [rule_format, of 1] assms(3) [rule_format, of 2] assms(3) [rule_format, of 3]
    join32 [OF assms(2), of x] by (simp add: be32_def nth_be_bytes)

lemma be32_overwrite_same:
  assumes "i + 4 \<le> length buf" "32 \<le> LENGTH('a)"
  shows "be32 (overwrite i (be_bytes 4 (x :: 'a::len word)) buf) i = ucast x"
  using assms by (intro be32_overwrite) (simp_all add: nth_overwrite)

lemma be32_high:
  assumes "i + 8 \<le> length buf"
  shows "be32 (overwrite i (be_bytes 8 (x :: u64)) buf) i = ucast (drop_bit 32 x)"
    "be32 (overwrite i (be_bytes 8 x) buf) (i + 4) = ucast x"
proof -
  have n: "overwrite i (be_bytes 8 x) buf ! (i + j) = ucast (drop_bit (8 * (7 - j)) x)" if "j < 8" for j
    using that assms by (simp add: nth_overwrite nth_be_bytes)
  show "be32 (overwrite i (be_bytes 8 x) buf) i = ucast (drop_bit 32 x)"
    using n [of 0] n [of 1] n [of 2] n [of 3] assms
    by (intro be32_overwrite) (auto simp: nth_be_bytes drop_bit_drop_bit less_Suc_eq numeral_eq_Suc)
  show "be32 (overwrite i (be_bytes 8 x) buf) (i + 4) = ucast x"
    using n [of 4] n [of 5] n [of 6] n [of 7] assms
    by (intro be32_overwrite) (auto simp: nth_be_bytes less_Suc_eq numeral_eq_Suc)
qed

subsection \<open>Decoding the commands\<close>

lemma ucast_join32: "unat (b :: u64) < 2 ^ 32 \<Longrightarrow> ucast (ucast b :: u32) = b"
  by (simp add: word_unat_eq_iff unsigned_ucast_eq unsigned_take_bit_eq take_bit_nat_eq_self)

lemma decode_16:
  assumes "length cdb = 16" "cdb ! 0 = 0x08 \<or> cdb ! 0 = 0x0a"
  shows "sector_from_scmd (sd_cdb_16 cdb p f block n) = (n, block)"
    "sd_cdb_16 cdb p f block n ! 0 = cdb ! 0 + 0x80"
proof -
  let ?c = "overwrite 2 (be_bytes 8 block) (cdb[0 := cdb ! 0 + (0x88 - 0x08), 1 := p OR f])"
  let ?d = "sd_cdb_16 cdb p f block n"
  have l: "length ?c = 16" using assms(1) by simp
  have d: "?d = (overwrite 10 (be_bytes 4 n) ?c)[14 := 0, 15 := 0]" by (simp add: sd_cdb_16_def)
  have nth: "?d ! i = ?c ! i" if "i < 10" for i using that l by (simp add: d nth_overwrite)
  have "be32 ?d 10 = be32 (overwrite 10 (be_bytes 4 n) ?c) 10" using l by (simp add: be32_def d)
  then have n: "be32 ?d 10 = n" using be32_overwrite_same [of 10 ?c n] l by simp
  have "be32 ?d 2 = be32 ?c 2" "be32 ?d 6 = be32 ?c 6" by (simp_all add: be32_def nth)
  moreover note be32_high [of 2 "cdb[0 := cdb ! 0 + (0x88 - 0x08), 1 := p OR f]" block]
  ultimately have b: "be32 ?d 2 = ucast (drop_bit 32 block)" "be32 ?d 6 = ucast block" using assms(1) by simp_all
  show op: "?d ! 0 = cdb ! 0 + 0x80" using assms(1) by (simp add: nth nth_overwrite)
  have "?d ! 0 = 0x88 \<or> ?d ! 0 = 0x8a" using op assms(2) by auto
  then show "sector_from_scmd ?d = (n, block)" using n b join64 [of block] by (auto simp: sector_from_scmd_def Let_def)
qed

lemma decode_10:
  assumes "length cdb = 16" "cdb ! 0 = 0x08 \<or> cdb ! 0 = 0x0a" "unat block < 2 ^ 32" "unat n < 2 ^ 16"
  shows "sector_from_scmd (sd_cdb_10 cdb p f block n) = (n, block)"
    "sd_cdb_10 cdb p f block n ! 0 = cdb ! 0 + 0x20"
proof -
  let ?c = "overwrite 2 (be_bytes 4 block) (cdb[0 := cdb ! 0 + (0x28 - 0x08), 1 := p OR f])"
  let ?d = "sd_cdb_10 cdb p f block n"
  have l: "length ?c = 16" using assms(1) by simp
  have d: "?d = overwrite 7 (be_bytes 2 n) (?c[6 := 0, 9 := 0])" by (simp add: sd_cdb_10_def)
  have nth: "?d ! i = ?c ! i" if "i < 6" for i using that l by (simp add: d nth_overwrite)
  have b: "be32 ?d 2 = ucast block"
    using be32_overwrite_same [of 2 "cdb[0 := cdb ! 0 + (0x28 - 0x08), 1 := p OR f]" block] assms(1)
    by (simp add: be32_def nth)
  have n: "?d ! 7 = ucast (drop_bit 8 n)" "?d ! 8 = ucast n" using l by (simp_all add: d nth_overwrite nth_be_bytes)
  show op: "?d ! 0 = cdb ! 0 + 0x20" using assms(1) by (simp add: nth nth_overwrite)
  have "?d ! 0 = 0x28 \<or> ?d ! 0 = 0x2a" using op assms(2) by auto
  then show "sector_from_scmd ?d = (n, block)"
    using n b join16 [OF assms(4)] ucast_join32 [OF assms(3)] by (auto simp: sector_from_scmd_def Let_def)
qed

lemma join21:
  assumes "unat (b :: u64) \<le> 0x1fffff"
  shows "push_bit 16 (ucast (ucast (drop_bit 16 b AND 0x1f) AND 0x1f :: byte)) OR push_bit 8 (ucast (ucast (drop_bit 8 b AND 0xff) :: byte))
    OR ucast (ucast (b AND 0xff) :: byte) = (ucast b :: u32)"
proof (rule bit_eqI)
  fix k
  assume "possible_bit TYPE(u32) k"
  then have k: "k < 32" by simp
  have m: "0x1f = (mask 5 :: u64)" "0x1f = (mask 5 :: byte)" "0xff = (mask 8 :: u64)" by (simp_all add: mask_eq_exp_minus_1)
  have "take_bit 21 b = b" using assms by (simp add: word_unat_eq_iff unsigned_take_bit_eq take_bit_nat_eq_self)
  then have hi: "\<not> bit b k" if "21 \<le> k" using that bit_take_bit_iff [of 21 b k] by simp
  consider "k < 8" | "8 \<le> k" "k < 16" | "16 \<le> k" "k < 21" | "21 \<le> k" by linarith
  then show "bit (push_bit 16 (ucast (ucast (drop_bit 16 b AND 0x1f) AND 0x1f :: byte)) OR push_bit 8 (ucast (ucast (drop_bit 8 b AND 0xff) :: byte))
    OR ucast (ucast (b AND 0xff) :: byte) :: u32) k = bit (ucast b :: u32) k"
    unfolding m using k hi by cases (auto simp: bit_simps)
qed

lemma decode_6:
  assumes "length cdb = 16" "cdb ! 0 = 0x08 \<or> cdb ! 0 = 0x0a" "cdb ! 1 = 0" "unat block \<le> 0x1fffff" "unat n \<le> 0xff"
  shows "sector_from_scmd (sd_cdb_6 cdb block n) = (n, block)" "sd_cdb_6 cdb block n ! 0 = cdb ! 0"
proof -
  let ?d = "sd_cdb_6 cdb block n"
  have nth: "?d ! 0 = cdb ! 0" "?d ! 1 = ucast (drop_bit 16 block AND 0x1f)" "?d ! 2 = ucast (drop_bit 8 block AND 0xff)"
    "?d ! 3 = ucast (block AND 0xff)" "?d ! 4 = ucast n"
    using assms(1,3) by (simp_all add: sd_cdb_6_def)
  have n: "ucast (ucast n :: byte) = n"
    using assms(5) by (simp add: word_unat_eq_iff unsigned_ucast_eq unsigned_take_bit_eq take_bit_nat_eq_self)
  have b: "ucast (ucast block :: u32) = block" using assms(4) by (intro ucast_join32) simp
  show "?d ! 0 = cdb ! 0" by (rule nth)
  show "sector_from_scmd ?d = (n, block)"
    using assms(2) nth n b join21 [OF assms(4)] unfolding sector_from_scmd_def Let_def by auto
qed

subsection \<open>The command for a request\<close>

lemma last_sectors_bounds:
  assumes "sector_size d = 512" "0 < unat cnt" "unat block + unat cnt < 2 ^ 64"
  shows "0 < unat (sd_last_sectors E d cap block cnt) \<and> unat (sd_last_sectors E d cap block cnt) \<le> unat cnt"
proof -
  define thr where "thr = cap - ucast (SD_LAST_BUGGY_SECTORS E * (512 div 512))"
  have sum: "unat (block + ucast cnt) = unat block + unat cnt"
    using assms(3) unat_plus_nat [of block "unat cnt"] by simp
  have "unat (ucast (thr - block) :: u32) = unat thr - unat block" if "thr < block + ucast cnt" "block < thr"
  proof -
    have "unat (thr - block) = unat thr - unat block" using that(2) by (intro unat_sub) simp
    moreover have "unat thr - unat block < unat cnt" using that sum by (simp add: word_less_nat_alt)
    ultimately show ?thesis
      using unat_less_u32 [of cnt] by (simp add: unsigned_ucast_eq take_bit_nat_eq_self)
  qed
  moreover have "unat thr - unat block \<le> unat cnt" "0 < unat thr - unat block" if "thr < block + ucast cnt" "block < thr"
    using that sum by (simp_all add: word_less_nat_alt)
  ultimately show ?thesis using assms(1,2) by (auto simp: sd_last_sectors_def thr_def Let_def)
qed

text \<open>What the preparation of a read or write on 512-byte sectors decides before it fills in the command.\<close>

lemma rw_finish:
  assumes "sd_rw_finish E k host_dif n scmd = (ret, scmd')"
  shows "cmnd scmd' = cmnd scmd" "sdb_length scmd' = n * sector_size (device k)"
  using assms by (auto simp: sd_rw_finish_def sd_prot_op_def Let_def)

lemma rw_cdb_OK:
  assumes "sd_rw_cdb E k rq block n scmd = (BLKPREP_OK, scmd')" "scsi_host_dif_capable E (protection_type k) \<noteq> 2"
  shows "\<exists>p f. use_16_for_rw (device k) \<and> cmnd scmd' = sd_cdb_16 (cmnd scmd) p f block n \<and>
        sdb_length scmd' = n * sector_size (device k) \<or>
     \<not> use_16_for_rw (device k) \<and> cmnd scmd' = sd_cdb_10 (cmnd scmd) p f block (if n > 0xffff then 0xffff else n) \<and>
        sdb_length scmd' = (if n > 0xffff then 0xffff else n) * sector_size (device k) \<or>
     n \<le> 0xff \<and> block \<le> 0x1fffff \<and> cmnd scmd' = sd_cdb_6 (cmnd scmd) block n \<and> sdb_length scmd' = n * sector_size (device k)"
proof -
  let ?h = "scsi_host_dif_capable E (protection_type k)"
  let ?p = "if ?h \<noteq> 0 then push_bit 5 1 else 0" and ?f = "if REQ_FUA \<in> rq_flags rq then 8 else 0"
  let ?m = "if n > 0xffff then 0xffff else n"
  consider (16) "use_16_for_rw (device k)" "sd_rw_finish E k ?h n (scmd\<lparr>cmnd := sd_cdb_16 (cmnd scmd) ?p ?f block n\<rparr>) = (BLKPREP_OK, scmd')"
    | (10) "\<not> use_16_for_rw (device k)"
        "sd_rw_finish E k ?h ?m (scmd\<lparr>cmnd := sd_cdb_10 (cmnd scmd) ?p ?f block ?m\<rparr>) = (BLKPREP_OK, scmd')"
    | (6) "n \<le> 0xff" "block \<le> 0x1fffff" "sd_rw_finish E k ?h n (scmd\<lparr>cmnd := sd_cdb_6 (cmnd scmd) block n\<rparr>) = (BLKPREP_OK, scmd')"
    using assms unfolding sd_rw_cdb_def Let_def by (simp add: not_less split: if_split_asm)
  then show ?thesis by cases (use rw_finish in \<open>fastforce+\<close>)
qed

lemma prep_rw_OK:
  assumes "sd_prep_rw K E k rq scmd = (BLKPREP_OK, scmd')" "sector_size (device k) = 512"
  defines "wr \<equiv> REQ_WRITE \<in> rq_flags rq"
  shows "rq_sector rq + ucast (blk_rq_sectors rq) \<le> disk_capacity k"
    "sd_rw_cdb E k rq (rq_sector rq) (sd_last_sectors E (device k) (disk_capacity k) (rq_sector rq) (blk_rq_sectors rq))
       (scmd\<lparr>cmnd := (cmnd scmd)[0 := (if wr then 0x0a else 0x08)],
             sc_data_direction := (if wr then DMA_TO_DEVICE else DMA_FROM_DEVICE)\<rparr>) = (BLKPREP_OK, scmd')"
  using assms by (simp_all add: sd_prep_rw_def sd_scale_def Let_def not_less split: if_split_asm)

lemma prep_rw_decodes:
  assumes "sd_prep_rw K E k rq scmd = (BLKPREP_OK, scmd')" "cmnd scmd = replicate 16 0"
    and "sector_size (device k) = 512" "scsi_host_dif_capable E (protection_type k) \<noteq> 2"
    and "use_16_for_rw (device k) \<or> unat (disk_capacity k) \<le> 2 ^ 32"
    and "0 < unat (blk_rq_sectors rq)" "unat (rq_sector rq) + unat (blk_rq_sectors rq) < 2 ^ 64"
  shows "\<exists>n. sector_from_scmd (cmnd scmd') = (n, rq_sector rq) \<and> 0 < unat n \<and> unat n \<le> unat (blk_rq_sectors rq) \<and>
    unat (rq_sector rq) + unat n \<le> unat (disk_capacity k) \<and> sdb_length scmd' = n * 512 \<and>
    scmd_get_action (cmnd scmd') = (if REQ_WRITE \<in> rq_flags rq then SCSI_ACTION_WRITE else SCSI_ACTION_READ)"
proof -
  let ?cdb = "(replicate 16 0)[0 := (if REQ_WRITE \<in> rq_flags rq then 0x0a else 0x08 :: byte)]"
  let ?n = "sd_last_sectors E (device k) (disk_capacity k) (rq_sector rq) (blk_rq_sectors rq)"
  note ok = prep_rw_OK [OF assms(1,3)]
  have n: "0 < unat ?n" "unat ?n \<le> unat (blk_rq_sectors rq)" using last_sectors_bounds [OF assms(3,6,7)] by auto
  have "unat (rq_sector rq + ucast (blk_rq_sectors rq)) = unat (rq_sector rq) + unat (blk_rq_sectors rq)"
    using assms(7) unat_plus_nat [of "rq_sector rq" "unat (blk_rq_sectors rq)"] by simp
  then have cap: "unat (rq_sector rq) + unat (blk_rq_sectors rq) \<le> unat (disk_capacity k)"
    using ok(1) by (simp add: word_le_nat_alt)
  have c: "length ?cdb = 16" "?cdb ! 0 = 0x08 \<or> ?cdb ! 0 = 0x0a" "?cdb ! 1 = 0" by simp_all
  let ?m = "if ?n > 0xffff then 0xffff else ?n"
  have m: "0 < unat ?m" "unat ?m \<le> unat ?n" "unat ?m < 2 ^ 16" using n(1) by (simp_all add: word_less_nat_alt)
  have new: "cmnd (scmd\<lparr>cmnd := (cmnd scmd)[0 := (if REQ_WRITE \<in> rq_flags rq then 0x0a else 0x08)],
      sc_data_direction := (if REQ_WRITE \<in> rq_flags rq then DMA_TO_DEVICE else DMA_FROM_DEVICE)\<rparr>) = ?cdb"
    by (simp add: assms(2))
  from rw_cdb_OK [OF ok(2) assms(4)] consider
      (16) p f where "cmnd scmd' = sd_cdb_16 ?cdb p f (rq_sector rq) ?n" "sdb_length scmd' = ?n * 512"
    | (10) p f where "\<not> use_16_for_rw (device k)" "cmnd scmd' = sd_cdb_10 ?cdb p f (rq_sector rq) ?m" "sdb_length scmd' = ?m * 512"
    | (6) "?n \<le> 0xff" "rq_sector rq \<le> 0x1fffff" "cmnd scmd' = sd_cdb_6 ?cdb (rq_sector rq) ?n" "sdb_length scmd' = ?n * 512"
    unfolding new assms(3)
    by blast
  then show ?thesis
  proof cases
    case 16
    then show ?thesis using decode_16 [OF c(1,2)] n cap by (intro exI [of _ ?n]) (auto simp: scmd_get_action_def Let_def)
  next
    case 10
    then have "unat (rq_sector rq) < 2 ^ 32" using assms(5,6) cap by simp
    then show ?thesis
      using 10 decode_10 [OF c(1,2) _ m(3)] n m cap by (intro exI [of _ ?m]) (auto simp: scmd_get_action_def Let_def)
  next
    case 6
    then have "unat (rq_sector rq) \<le> 0x1fffff" "unat ?n \<le> 0xff" by (simp_all add: word_le_nat_alt)
    then show ?thesis
      using 6 decode_6 [OF c] n cap by (intro exI [of _ ?n]) (auto simp: scmd_get_action_def Let_def)
  qed
qed

text \<open>
  C9: when \<^verbatim>\<open>sd_prep_fn\<close> accepts a read or a write of at least one sector on a disk with 512-byte sectors,
  the command block it builds, in any of its 6, 10 and 16 byte forms, decodes to the first sector
  of the request and to a positive number of its sectors; all of them lie below the capacity that
  was set for the disk, so never in the sectors reserved for the swap module. The command moves
  data in the direction of the request, and as many bytes as it names.
\<close>

theorem prep_rw_command:
  assumes "sd_prep_rw K E k rq scmd = (BLKPREP_OK, scmd')" "cmnd scmd = replicate 16 0"
    and "sector_size (device k) = 512" "scsi_host_dif_capable E (protection_type k) \<noteq> 2"
    and "use_16_for_rw (device k) \<or> unat (disk_capacity k) \<le> 2 ^ 32"
    and "0 < unat (blk_rq_sectors rq)" "unat (rq_sector rq) + unat (blk_rq_sectors rq) < 2 ^ 64"
  shows "\<exists>n. sector_from_scmd (cmnd scmd') = (n, rq_sector rq) \<and> 0 < unat n \<and> unat n \<le> unat (blk_rq_sectors rq) \<and>
    unat (rq_sector rq) + unat n \<le> unat (disk_capacity k) \<and> sdb_length scmd' = n * 512 \<and>
    scmd_get_action (cmnd scmd') = (if REQ_WRITE \<in> rq_flags rq then SCSI_ACTION_WRITE else SCSI_ACTION_READ)"
  using assms by (rule prep_rw_decodes)

text \<open>A disk of the reference device, for the witnesses.\<close>

definition ram_device :: "ram_disk scsi_device" where
  "ram_device = \<lparr>swap = ram_dev,
     host = \<lparr>max_cmd_len = 16, cmd_per_lun = 1, host_tags = False, host_deleted = False, host_blocked = 0,
       target_blocked = 0, cmd_serial_number = 1\<rparr>,
     sector_size = 512, sdev_type = 0, scsi_level = 6, inquiry = replicate 36 0, lun = 0, device_blocked = 0,
     queue_depth = 32, ordered_tags = False, simple_tags = True, last_queue_full_depth = 0, last_queue_full_count = 0,
     last_queue_full_time = 0, writeable = True, use_10_for_rw = True, use_16_for_rw = False, no_report_opcodes = True,
     no_write_same = True, skip_ms_page_8 = False, skip_ms_page_3f = False, skip_vpd_pages = True,
     use_192_bytes_for_3f = False, no_start_on_add = False, manage_start_stop = False, start_stop_pwr_cond = False,
     fix_capacity = False, guess_capacity = False, last_sector_bug = False, no_read_capacity_16 = False,
     try_rc_10_first = False, wce_default_on = False, no_dif = True\<rparr>"

definition ram_sd_disk :: "ram_disk sd_disk" where
  "ram_sd_disk = \<lparr>device = ram_device, capacity = 4096, disk_capacity = 4096, disk_ro = False, disk_index = 0,
     gd_major = 8, first_minor = 0, gd_removable = False, openers = 0, max_ws_blocks = 0, max_unmap_blocks = 0,
     unmap_granularity = 0, unmap_alignment = 0, physical_block_size = 512, provisioning_mode = SD_LBP_FULL,
     protection_type = 0, media_present = True, write_prot = False, WCE = False, RCD = False, DPOFUA = False,
     ATO = False, first_scan = True, lbpme = False, lbprz = False, lbpu = False, lbpws = False, lbpws10 = False,
     lbpvpd = False, ws16 = False, medium_access_timed_out = 0, max_medium_access_timeouts = 2,
     discard_zeroes_data = False, discard_alignment = 0, discard_granularity = 0, max_discard_sectors = 0, qcalls = []\<rparr>"

definition ram_scmd :: scsi_cmnd where
  "ram_scmd = \<lparr>cmnd = replicate 16 0, cmd_len = 16, from_pool = False, sc_data_direction = DMA_NONE, sdb_length = 0,
     resid = 0, transfersize = 0, underflow = 0, allowed = 0, prot_sg_count = 0, prot_op = PROT_NORMAL, prot_type = 0,
     cresult = 0, sense_buffer = replicate 96 0, serial_number = 0\<rparr>"

definition ram_sd_env :: "ram_disk sd_env" where
  "ram_sd_env = \<lparr>SD_TIMEOUT = 30, SD_FLUSH_TIMEOUT = 60, SD_MAX_RETRIES = 5, SD_MAX_MEDIUM_TIMEOUTS = 2,
     SD_MAX_WS16_BLOCKS = 0x7fffff, SD_MAX_WS10_BLOCKS = 0xffff, SD_LAST_BUGGY_SECTORS = 8, SD_BUF_SIZE = 512,
     SCSI_DISK0_MAJOR = 8, SCSI_DISK1_MAJOR = 65, SCSI_DISK8_MAJOR = 128, scsi_host_dif_capable = \<lambda>_. 0,
     scsi_setup_fs_cmnd = \<lambda>_. (BLKPREP_OK, ram_scmd), scsi_setup_blk_pc_cmnd = \<lambda>_ _. (BLKPREP_OK, ram_scmd),
     scsi_prep_return = \<lambda>x. x, alloc_page = \<lambda>_. True, cdb_pool = \<lambda>_. True, scsi_sense_is_deferred = \<lambda>_. False,
     sense_info_fld = \<lambda>b. if b ! 0 = 0xf0 then Some (ucast (be32 b 3)) else None,
     scsi_mode_sense = \<lambda>_ _ buf n w. (0, buf, \<lparr>md_length = 0, block_descriptor_length = 0, device_specific = 0, header_length = 0\<rparr>, w),
     scsi_device_set_state = \<lambda>_ w. w, jiffies = \<lambda>_. 0, HZ = 250, msleep = \<lambda>_ w. w\<rparr>"

definition ram_write_rq :: request where
  "ram_write_rq = blk_rq_init\<lparr>rq_bios := [ram_bio {REQ_WRITE}], rq_type := REQ_TYPE_FS, rq_flags := {REQ_WRITE},
     data_len := 512, rq_sector := 8\<rparr>"

lemma ram_online: "scsi_device_online ram_kernel w"
  by (simp add: scsi_device_online_def ram_kernel_def)

lemma ram_prep_ok: "\<exists>scmd. sd_prep_rw ram_kernel ram_sd_env ram_sd_disk ram_write_rq ram_scmd = (BLKPREP_OK, scmd) \<and>
    sense_buffer scmd = replicate 96 0"
  by (simp add: sd_prep_rw_def ram_online Let_def)
    (simp add: ram_sd_disk_def ram_device_def ram_write_rq_def ram_sd_env_def ram_dev_def ram_sdev_def blk_rq_sectors_def
      sd_scale_def sd_last_sectors_def sd_rw_cdb_def sd_rw_finish_def ram_scmd_def)

lemmas ram_sd_defs = ram_sd_disk_def ram_device_def ram_write_rq_def ram_sd_env_def

theorem prep_rw_command_witness:
  "\<exists>scmd n. sd_prep_rw ram_kernel ram_sd_env ram_sd_disk ram_write_rq ram_scmd = (BLKPREP_OK, scmd) \<and>
     sector_from_scmd (cmnd scmd) = (n, 8) \<and> 0 < unat n \<and> scmd_get_action (cmnd scmd) = SCSI_ACTION_WRITE"
proof -
  obtain scmd where s: "sd_prep_rw ram_kernel ram_sd_env ram_sd_disk ram_write_rq ram_scmd = (BLKPREP_OK, scmd)"
    using ram_prep_ok by blast
  then show ?thesis
    using prep_rw_command [OF s] by (auto simp: ram_sd_defs ram_scmd_def blk_rq_sectors_def)
qed

subsection \<open>Simulated failures\<close>

lemma driver_byte_invalid: "driver_byte (r OR (push_bit 24 DRIVER_INVALID OR push_bit 16 DID_ABORT)) \<noteq> DRIVER_SENSE"
proof
  assume "driver_byte (r OR (push_bit 24 DRIVER_INVALID OR push_bit 16 DID_ABORT)) = DRIVER_SENSE"
  then have "bit (driver_byte (r OR (push_bit 24 DRIVER_INVALID OR push_bit 16 DID_ABORT))) 0 = bit (DRIVER_SENSE :: u32) 0"
    by simp
  then show False by (simp add: driver_byte_def bit_simps)
qed

lemma invalid_nonzero: "r OR (push_bit 24 DRIVER_INVALID OR push_bit 16 DID_ABORT) \<noteq> 0"
proof
  assume "r OR (push_bit 24 DRIVER_INVALID OR push_bit 16 DID_ABORT) = 0"
  then have "bit (r OR (push_bit 24 DRIVER_INVALID OR push_bit 16 DID_ABORT)) 24 = bit (0 :: u32) 24" by simp
  then show False by (simp add: bit_simps)
qed

lemma sd_done_failed:
  assumes "cresult cmd \<noteq> 0" "driver_byte (cresult cmd) \<noteq> DRIVER_SENSE"
    and "\<not> scsi_sense_valid (Some (scsi_normalize_sense K (sense_buffer cmd)))"
  shows "fst (sd_done K E rq cmd k) = 0"
  using assms by (simp add: sd_done_def Let_def)

lemma rq_sectors_small: "unat (blk_rq_sectors rq) < 2 ^ 31"
proof -
  have "unat (blk_rq_sectors rq) = unat (data_len rq) div 512"
    by (simp add: blk_rq_sectors_def, subst unat_drop_bit_eq) (simp add: drop_bit_eq_div)
  also have "\<dots> < 2 ^ 31" using unat_less_u32 [of "data_len rq"] by (simp add: div_less_iff_less_mult)
  finally show ?thesis .
qed


definition ram_sim_disk :: "ram_disk sd_disk" where
  "ram_sim_disk = ram_sd_disk\<lparr>device := ram_device\<lparr>swap := ram_dev\<lparr>sim := [\<lparr>sim_start = 4, sim_num = 8\<rparr>]\<rparr>\<rparr>\<rparr>"

lemma ram_sim_prep: "\<exists>scmd. sd_prep_rw ram_kernel ram_sd_env ram_sim_disk ram_write_rq ram_scmd = (BLKPREP_OK, scmd) \<and>
    sense_buffer scmd = replicate 96 0"
  by (simp add: sd_prep_rw_def ram_online Let_def)
    (simp add: ram_sim_disk_def ram_sd_defs ram_dev_def ram_sdev_def blk_rq_sectors_def
      sd_scale_def sd_last_sectors_def sd_rw_cdb_def sd_rw_finish_def ram_scmd_def)


subsection \<open>What a failed command has done\<close>

lemma unat_ucast_le: "unat (ucast (x :: u64) :: u32) \<le> unat x"
  by (simp add: unsigned_ucast_eq)

lemma unat_mult_le: "unat ((x :: u64) * y) \<le> unat x * unat y"
  by (simp add: unat_word_ariths)

text \<open>
  C18: when the sense data of a failed file system command names a bad block, the number of
  bytes that \<^verbatim>\<open>sd_completed_bytes\<close> counts as done is never more than was transferred, and unless it is zero the bad
  block lies in the range of the command and all these bytes lie before it.
\<close>

theorem completed_before_bad_sector:
  assumes "sense_info_fld E (sense_buffer scmd) = Some bad" "512 \<le> unat bsize"
    and "sd_completed_bytes E bsize rq scmd \<noteq> 0"
  shows "unat (sd_completed_bytes E bsize rq scmd) \<le> unat (sdb_length scmd - resid scmd) \<and>
    rq_sector rq div ucast (bsize div 512) \<le> bad \<and>
    bad < (rq_sector rq + ucast (sdb_length scmd div 512)) div ucast (bsize div 512) \<and>
    unat (sd_completed_bytes E bsize rq scmd) \<le> unat (bad - rq_sector rq div ucast (bsize div 512)) * unat bsize"
proof -
  let ?s = "rq_sector rq div ucast (bsize div 512)"
  let ?g = "ucast ((bad - ?s) * ucast bsize) :: u32"
  have nb: "\<not> bsize < 512" using assms(2) by (simp add: word_less_nat_alt)
  have c: "sd_completed_bytes E bsize rq scmd = min ?g (sdb_length scmd - resid scmd)" "?s \<le> bad"
    "bad < (rq_sector rq + ucast (sdb_length scmd div 512)) div ucast (bsize div 512)"
    using assms(1,3) nb by (auto simp: sd_completed_bytes_def Let_def split: if_splits)
  have "unat ?g \<le> unat (bad - ?s) * unat bsize"
    using unat_ucast_le [of "(bad - ?s) * ucast bsize"] unat_mult_le [of "bad - ?s" "ucast bsize"] unat_ucast_up [of bsize] by simp
  then show ?thesis using c by (simp add: min_def word_le_nat_alt)
qed

theorem completed_before_bad_sector_witness:
  "sd_completed_bytes ram_sd_env 512 ram_write_rq (ram_scmd\<lparr>sdb_length := 4096, sense_buffer := [0xf0, 0, 3, 0, 0, 0, 10]\<rparr>) = 1024 \<and>
     (1024 :: nat) \<le> unat (10 - 8 :: sector_t) * 512"
proof -
  let ?c = "ram_scmd\<lparr>sdb_length := 4096, sense_buffer := [0xf0, 0, 3, 0, 0, 0, 10]\<rparr>"
  have v: "sd_completed_bytes ram_sd_env 512 ram_write_rq ?c = 1024"
    by (simp add: sd_completed_bytes_def ram_sd_env_def ram_write_rq_def ram_scmd_def blk_rq_init_def be32_def Let_def)
  moreover have "sense_info_fld ram_sd_env (sense_buffer ?c) = Some 10"
    by (simp add: ram_sd_env_def be32_def)
  ultimately show ?thesis
    using completed_before_bad_sector [of ram_sd_env ?c 10 512 ram_write_rq] by (simp add: ram_write_rq_def blk_rq_init_def)
qed

end
