(* ===== verification/Sd_Scan_Props.thy ===== *)
theory Sd_Scan_Props
  imports Sd_Props
begin

text \<open>
  Probing a disk: how often it is asked for its capacity, what is left of the capacity after the
  reservation for the swap module, and the names and numbers of disks.
\<close>

subsection \<open>Asking for the capacity\<close>

text \<open>\<open>cnt\<close> counts the commands that were sent in a world.\<close>

definition counts :: "'w kernel \<Rightarrow> ('w \<Rightarrow> nat) \<Rightarrow> bool" where
  "counts K cnt \<longleftrightarrow> (\<forall>cmd dir buf t r w. cnt (snd (snd (snd (scsi_execute_req K cmd dir buf t r w)))) = cnt w + 1)"

lemma send_cmd_count:
  assumes "counts K cnt" "send_cmd K E cmd dir buf t k = (res, sshdr, buf', k')"
  shows "cnt (device_world (device k')) = cnt (device_world (device k)) + 1"
proof -
  obtain r h b w where e: "scsi_execute_req K cmd dir buf t (SD_MAX_RETRIES E) (device_world (device k)) = (r, h, b, w)"
    by (metis prod_cases4)
  have "cnt w = cnt (device_world (device k)) + 1"
    using assms(1) [unfolded counts_def, rule_format, of cmd dir buf t "SD_MAX_RETRIES E" "device_world (device k)"] e by simp
  moreover have "device_world (device k') = w" using assms(2) e by (auto simp: send_cmd_def send_req_def)
  ultimately show ?thesis by simp
qed

lemma media_not_present_world:
  "media_not_present sshdr k = (r, k') \<Longrightarrow> device_world (device k') = device_world (device k)"
  by (auto simp: media_not_present_def set_media_not_present_def Let_def split: if_splits)

lemma capacity_loop_count:
  assumes "counts K cnt" "0 < retries"
  shows "cnt (device_world (device (snd (capacity_loop K E il cmd len retries reset_retries k))))
    \<le> cnt (device_world (device k)) + retries + (reset_retries - 1)"
  using assms(2)
proof (induction "retries + reset_retries" arbitrary: retries reset_retries k rule: less_induct)
  case less
  obtain res sshdr buf k1 where s: "send_cmd K E cmd DMA_FROM_DEVICE (replicate len 0) (SD_TIMEOUT E) k = (res, sshdr, buf, k1)"
    by (metis prod_cases4)
  obtain gone k2 where m: "media_not_present sshdr k1 = (gone, k2)" by fastforce
  have c: "cnt (device_world (device k2)) = cnt (device_world (device k)) + 1"
    using send_cmd_count [OF assms(1) s] media_not_present_world [OF m] by simp
  let ?l = "capacity_loop K E il cmd len"
  have "snd (?l retries reset_retries k) = k2 \<or>
    1 < reset_retries \<and> snd (?l retries reset_retries k) = snd (?l retries (reset_retries - 1) k2) \<or>
    1 < retries \<and> (\<exists>r \<le> reset_retries. snd (?l retries reset_retries k) = snd (?l (retries - 1) r k2))"
    unfolding capacity_loop.simps [of K E il cmd len retries reset_retries k] s m prod.case Let_def
    by (auto split: if_splits)
  then show ?case
  proof (elim disjE conjE exE)
    assume "snd (?l retries reset_retries k) = k2"
    then show ?thesis using c less.prems by simp
  next
    assume "1 < reset_retries" "snd (?l retries reset_retries k) = snd (?l retries (reset_retries - 1) k2)"
    then show ?thesis using less.hyps [of retries "reset_retries - 1" k2] less.prems c by simp
  next
    fix r
    assume "1 < retries" "r \<le> reset_retries" "snd (?l retries reset_retries k) = snd (?l (retries - 1) r k2)"
    moreover from this have "cnt (device_world (device (snd (?l (retries - 1) r k2)))) \<le>
        cnt (device_world (device k2)) + (retries - 1) + (r - 1)"
      by (intro less.hyps) simp_all
    ultimately show ?thesis using c by simp
  qed
qed

lemma discard_device [simp]: "device (sd_config_discard E m k) = device k"
  by (simp add: sd_config_discard_def Let_def)

lemma protection_device [simp]: "device (snd (sd_read_protection_type E buf k)) = device k"
  by (simp add: sd_read_protection_type_def Let_def)

lemma capacity_error_world [simp]: "device_world (device (read_capacity_error h v k)) = device_world (device k)"
  by (simp add: read_capacity_error_def set_media_not_present_def Let_def)

lemma read_capacity_16_count:
  assumes "counts K cnt"
  shows "cnt (device_world (device (snd (read_capacity_16 K E k)))) \<le> cnt (device_world (device k)) + 12"
proof -
  let ?c = "(replicate 16 0)[0 := 0x9e, 1 := 0x10, 13 := 32]"
  obtain a k1 where l: "capacity_loop K E True ?c 32 3 10 k = (a, k1)" by fastforce
  have "device_world (device (snd (read_capacity_16 K E k))) \<in> {device_world (device k), device_world (device k1)}"
    using l by (cases a) (simp_all add: read_capacity_16_def Let_def case_prod_beta)
  then show ?thesis using capacity_loop_count [OF assms, of 3 E True ?c 32 10 k] l by auto
qed

lemma read_capacity_10_count:
  assumes "counts K cnt"
  shows "cnt (device_world (device (snd (read_capacity_10 K E k)))) \<le> cnt (device_world (device k)) + 12"
proof -
  let ?c = "(replicate 10 0)[0 := 0x25]"
  obtain a k1 where l: "capacity_loop K E False ?c 8 3 10 k = (a, k1)" by fastforce
  have "device_world (device (snd (read_capacity_10 K E k))) = device_world (device k1)"
    using l by (auto simp: read_capacity_10_def Let_def split: sum.splits)
  then show ?thesis using capacity_loop_count [OF assms, of 3 E False ?c 8 10 k] l by simp
qed

lemma sector_sizes:
  fixes bs :: int
  obtains "bs = 4096" | "bs = 2048" | "bs = 1024" | "bs = 256" | "bs = 512" | "bs = 0"
    | "bs \<noteq> 4096" "bs \<noteq> 2048" "bs \<noteq> 1024" "bs \<noteq> 256" "bs \<noteq> 512" "bs \<noteq> 0"
  by blast

lemma got_data_swap [simp]: "swap (device (sd_got_data old bs k)) = swap (device k)"
  by (rule sector_sizes [of bs]) (simp_all add: sd_got_data_def Let_def)

lemma got_data_world: "device_world (device (sd_got_data old bs k)) = device_world (device k)"
  by simp

lemma ask_capacity_count:
  assumes c: "counts K cnt"
  shows "cnt (device_world (device (snd (ask_capacity K E k)))) \<le> cnt (device_world (device k)) + 24"
proof -
  obtain b1 k1 where a: "read_capacity_16 K E k = (b1, k1)" by fastforce
  obtain b2 k2 where b: "read_capacity_10 K E k1 = (b2, k2)" by fastforce
  obtain b3 k3 where d: "read_capacity_10 K E k = (b3, k3)" by fastforce
  obtain b4 k4 where e: "read_capacity_16 K E k3 = (b4, k4)" by fastforce
  have "device_world (device (snd (ask_capacity K E k))) \<in>
      (\<lambda>k. device_world (device k)) ` {k1, k2, k3, k4}"
    by (simp add: ask_capacity_def Let_def a b d e)
  then show ?thesis
    using read_capacity_16_count [OF c, of E k] read_capacity_10_count [OF c, of E k1]
      read_capacity_10_count [OF c, of E k] read_capacity_16_count [OF c, of E k3] a b d e
    by auto
qed

text \<open>
  C17. Whatever a disk answers, its capacity is known or given up after at most 24 commands:
  three attempts and nine more after resets, for each of the two forms of READ CAPACITY. A disk
  that reports a reset each time cannot keep the probe busy.
\<close>

theorem capacity_asked_boundedly:
  assumes "counts K cnt"
  shows "cnt (device_world (device (sd_read_capacity K E k))) \<le> cnt (device_world (device k)) + 24"
  using ask_capacity_count [OF assms, of E k]
  by (auto simp: sd_read_capacity_def Let_def got_data_world split: prod.splits option.splits)

text \<open>A disk that answers every command with a report of a reset; the length of cell 0 is its count.\<close>

definition reset_kernel :: "ram_disk kernel" where
  "reset_kernel = ram_kernel\<lparr>scsi_execute_req := \<lambda>cdb dir buf t r w.
     (2, \<lparr>response_code = 0x70, sense_key = 6, asc = 0x29, ascq = 0\<rparr>, buf, w\<lparr>cells := (cells w)(0 := 0 # cells w 0)\<rparr>)\<rparr>"

theorem capacity_asked_boundedly_witness:
  "counts reset_kernel (\<lambda>w. length (cells w 0)) \<and>
   length (cells (device_world (device (sd_read_capacity reset_kernel ram_sd_env ram_sd_disk))) 0)
     \<le> length (cells (device_world (device ram_sd_disk)) 0) + 24"
proof -
  have c: "counts reset_kernel (\<lambda>w. length (cells w 0))" by (simp add: counts_def reset_kernel_def)
  then show ?thesis using capacity_asked_boundedly [OF c] by simp
qed

subsection \<open>The reservation\<close>

text \<open>The capacity in sectors of 512 bytes.\<close>

definition scaled :: "int \<Rightarrow> sector_t \<Rightarrow> sector_t" where
  "scaled bs c = (if bs = 4096 then push_bit 3 c else if bs = 2048 then push_bit 2 c
     else if bs = 1024 then push_bit 1 c else if bs = 256 then drop_bit 1 c
     else if bs = 512 \<or> bs = 0 then c else 0)"

lemma got_data_capacity:
  "capacity (sd_got_data old bs k) =
     (let c = scaled bs (capacity k); r = scsi_get_reserve_sectors_for_swap (swap (device k))
      in if (first_scan k \<or> old \<noteq> c) \<and> r \<noteq> 0 \<and> c > r then c - r else c)"
  by (rule sector_sizes [of bs]) (simp_all add: sd_got_data_def scaled_def Let_def)

text \<open>
  C10. The end of a disk that is swapped is reserved: on the first scan its capacity is lowered
  by exactly the sectors of the swap module, so that the module's area, which starts at the new
  capacity, ends with the disk. A later scan that finds the disk unchanged arrives at the same
  capacity again and does not lower it twice.
\<close>

theorem reservation_is_stable:
  assumes "first_scan k" "scsi_device_can_swap (swap (device k))"
    and "of_nat MAX_RESERVED_SECTOR < scaled bs (capacity k)"
    and "capacity k' = capacity k" "swap (device k') = swap (device k)"
    and k1: "k1 = sd_got_data old bs k"
  shows "unat (capacity k1) + MAX_RESERVED_SECTOR = unat (scaled bs (capacity k)) \<and>
    capacity (sd_got_data (capacity k1) bs k') = capacity k1"
proof -
  let ?r = "of_nat MAX_RESERVED_SECTOR :: sector_t"
  have r: "unat ?r = MAX_RESERVED_SECTOR" "?r \<noteq> 0" by (simp_all add: layout_simps)
  have c: "capacity k1 = scaled bs (capacity k) - ?r"
    using assms(1-3) r(2) by (simp add: k1 got_data_capacity Let_def scsi_get_reserve_sectors_for_swap_def)
  have "unat (scaled bs (capacity k) - ?r) = unat (scaled bs (capacity k)) - unat ?r"
    using assms(3) by (intro unat_sub) simp
  moreover have "unat ?r < unat (scaled bs (capacity k))" using assms(3) by (simp add: word_less_nat_alt)
  moreover have "scaled bs (capacity k) - ?r \<noteq> scaled bs (capacity k)" using r(2) by simp
  ultimately show ?thesis
    using c assms(2-5) r by (simp add: got_data_capacity Let_def scsi_get_reserve_sectors_for_swap_def)
qed

definition ram_large_disk :: "ram_disk sd_disk" where
  "ram_large_disk = ram_sd_disk\<lparr>capacity := 0x20000000,
     device := ram_device\<lparr>swap := ram_dev\<lparr>proc_name := Some (Some ''pm8001'')\<rparr>\<rparr>\<rparr>"

theorem reservation_is_stable_witness:
  "unat (capacity (sd_got_data 0 512 ram_large_disk)) + MAX_RESERVED_SECTOR = 0x20000000 \<and>
   capacity (sd_got_data (capacity (sd_got_data 0 512 ram_large_disk)) 512 ram_large_disk) =
     capacity (sd_got_data 0 512 ram_large_disk)"
proof -
  have d: "scsi_device_can_swap (swap (device ram_large_disk))" "first_scan ram_large_disk"
    "capacity ram_large_disk = 0x20000000"
    by (simp_all add: ram_large_disk_def ram_sd_disk_def ram_device_def scsi_device_can_swap_def swap_filter_table_def)
  moreover have "of_nat MAX_RESERVED_SECTOR < scaled 512 (capacity ram_large_disk)"
    by (simp add: d(3) scaled_def layout_simps)
  ultimately show ?thesis
    using reservation_is_stable [of ram_large_disk 512 ram_large_disk _ 0] by (simp add: scaled_def)
qed

subsection \<open>Names and numbers of disks\<close>

text \<open>The letters read back: counting in base 26 with the digits 1 to 26.\<close>

definition letters_value :: "string \<Rightarrow> nat" where
  "letters_value = foldl (\<lambda>v c. 26 * v + (of_char c - 96)) 0"

lemma disk_letters_value:
  "disk_letters room idx acc = Some s \<Longrightarrow>
     \<exists>ls. s = ls @ acc \<and> letters_value ls = idx + 1 \<and> length ls \<le> room \<and> (\<forall>c \<in> set ls. of_char c \<in> {97..122 :: nat})"
proof (induction room idx acc arbitrary: s rule: disk_letters.induct)
  case (2 room idx acc)
  let ?c = "char_of (97 + idx mod 26) :: char"
  have m: "idx mod 26 < 26" by simp
  then have c: "of_char ?c = 97 + idx mod 26" by (simp add: of_char_of)
  show ?case
  proof (cases "idx div 26 = 0")
    case True
    then have "s = [?c] @ acc" using 2(2) by simp
    moreover have "letters_value [?c] = idx + 1" using True c by (simp add: letters_value_def)
    ultimately show ?thesis using c m by (intro exI [of _ "[?c]"]) auto
  next
    case False
    then have "disk_letters room (idx div 26 - 1) (?c # acc) = Some s" using 2(2) by simp
    from 2(1) [OF refl False this] obtain ls where ls: "s = ls @ ?c # acc" "letters_value ls = idx div 26"
      "length ls \<le> room" "\<forall>c \<in> set ls. of_char c \<in> {97..122 :: nat}"
      using False by auto
    have "letters_value (ls @ [?c]) = idx + 1"
      using ls(2) c by (simp add: letters_value_def)
    then show ?thesis using ls c m by (intro exI [of _ "ls @ [?c]"]) auto
  qed
qed simp

lemma disk_letters_fit: "idx < 26 ^ room \<Longrightarrow> 0 < room \<Longrightarrow> \<exists>s. disk_letters room idx acc = Some s"
proof (induction room idx acc rule: disk_letters.induct)
  case (2 room idx acc)
  show ?case
  proof (cases "idx div 26 = 0")
    case False
    have "idx div 26 < 26 ^ room" using 2(2) by (simp add: less_mult_imp_div_less mult.commute)
    moreover from this False have "0 < room" by (cases room) simp_all
    ultimately show ?thesis using 2(1) [OF refl False] False by (simp add: less_imp_diff_less)
  qed simp
qed simp



lemma index_from_numbers:
  assumes "idx < 2 ^ 20"
  shows "push_bit 4 (drop_bit 4 (idx AND 0xf0)) OR (drop_bit 4 (disk_minor idx) AND 0xf) OR (disk_minor idx AND 0xfff00)
    = (idx :: u32)"
proof (rule bit_word_eqI)
  fix n
  assume "n < LENGTH(32)"
  have high: "\<not> bit idx n" if "20 \<le> n"
  proof -
    have "unat idx < 2 ^ 20" using assms by (simp add: word_less_nat_alt)
    also have "\<dots> \<le> 2 ^ n" using that by (rule power_increasing) simp
    finally have "\<not> bit (unat idx) n" by (simp add: bit_iff_odd)
    then show ?thesis by (simp add: bit_unsigned_iff)
  qed
  have "n \<in> {0..<32}" using \<open>n < LENGTH(32)\<close> by simp
  then show "bit (push_bit 4 (drop_bit 4 (idx AND 0xf0)) OR (drop_bit 4 (disk_minor idx) AND 0xf) OR (disk_minor idx AND 0xfff00)) n
    = bit idx n"
    using high
    by (simp add: atLeastLessThan_nat_numeral) (elim disjE; simp add: disk_minor_def bit_simps)
qed

text \<open>
  C23. Two disks with the same major and first minor number are the same disk, for the 2 to the
  twentieth indices that the numbers can tell apart and sixteen distinct majors. The first minor
  leaves its four low bits to the partitions.
\<close>

theorem disk_numbers_unique:
  assumes "inj_on (sd_major E) {0..15}" "i < 2 ^ 20" "j < 2 ^ 20"
    and "sd_major E (unat (drop_bit 4 (i AND 0xf0))) = sd_major E (unat (drop_bit 4 (j AND 0xf0)))"
    and "disk_minor i = disk_minor j"
  shows "i = j \<and> disk_minor i AND 0xf = 0"
proof -
  have u: "unat (drop_bit 4 (x AND 0xf0) :: u32) \<in> {0..15}" for x :: u32
  proof -
    have "drop_bit 4 (x AND 0xf0) = drop_bit 4 x AND 0xf" by (simp add: drop_bit_and)
    also have "\<dots> \<le> 0xf" by (rule word_and_le1)
    finally show ?thesis by (simp add: word_le_nat_alt)
  qed
  have "unat (drop_bit 4 (i AND 0xf0)) = unat (drop_bit 4 (j AND 0xf0))"
    by (rule inj_onD [OF assms(1) assms(4) u u])
  then have "drop_bit 4 (i AND 0xf0) = drop_bit 4 (j AND 0xf0)" by (simp only: word_unat_eq_iff)
  then have "i = j" using index_from_numbers [OF assms(2)] index_from_numbers [OF assms(3)] assms(5) by metis
  moreover have "disk_minor i AND 0xf = 0"
  proof (rule bit_word_eqI)
    fix n
    assume "n < LENGTH(32)"
    then have "n \<in> {0..<32}" by simp
    then show "bit (disk_minor i AND 0xf) n = bit 0 n"
      by (simp add: atLeastLessThan_nat_numeral) (elim disjE; simp add: disk_minor_def bit_simps)
  qed
  ultimately show ?thesis by simp
qed

theorem disk_numbers_unique_witness:
  "inj_on (sd_major ram_sd_env) {0..15} \<and> disk_minor 0x12345 AND 0xf = 0"
proof -
  have "inj_on (sd_major ram_sd_env) {0..15}" by (auto simp: inj_on_def sd_major_def ram_sd_env_def split: if_splits)
  then show ?thesis using disk_numbers_unique [of ram_sd_env "0x12345" "0x12345"] by simp
qed

subsection \<open>The walk over the mode pages\<close>

definition page_ok :: "byte list \<Rightarrow> nat \<Rightarrow> nat \<Rightarrow> page_scan \<Rightarrow> bool" where
  "page_ok buf len off r =
     (case r of
        Page_found p i \<Rightarrow> off \<le> i \<and> i + 2 < len \<and> p = buf ! i AND 0x3f \<and> (p = 8 \<or> p = 6)
      | Incomplete \<Rightarrow> True
      | Pages_end i \<Rightarrow> len \<le> i)"

lemma page_ok_mono: "page_ok buf len (off + n) r \<Longrightarrow> page_ok buf len off r"
  by (auto simp: page_ok_def split: page_scan.splits)

lemma scan_pages_step:
  assumes "len \<le> length buf" "off < len"
  shows "(\<exists>r. scan_pages buf len off = Some r \<and> page_ok buf len off r) \<or>
    (\<exists>n > 0. scan_pages buf len off = scan_pages buf len (off + n))"
proof -
  have at: "byte_at buf i = Some (buf ! i)" if "i < len" for i
    using that assms(1) by (simp add: byte_at_def)
  let ?b = "buf ! off"
  consider (found) "?b AND 0x3f = 8 \<or> ?b AND 0x3f = 6"
    | (long) "\<not> (?b AND 0x3f = 8 \<or> ?b AND 0x3f = 6)" "?b AND 0x40 \<noteq> 0" "off + 3 < len"
    | (short) "\<not> (?b AND 0x3f = 8 \<or> ?b AND 0x3f = 6)" "?b AND 0x40 = 0" "off + 1 < len"
    | (bad) "\<not> (?b AND 0x3f = 8 \<or> ?b AND 0x3f = 6)" "?b AND 0x40 \<noteq> 0 \<longrightarrow> len \<le> off + 3"
        "?b AND 0x40 = 0 \<longrightarrow> len \<le> off + 1"
    by linarith
  then show ?thesis
  proof cases
    case found
    then show ?thesis using assms(2) by (auto simp: scan_pages.simps [of buf len off] at Let_def page_ok_def)
  next
    case long
    have "3 < len - off" using long(3) by simp
    with long have "scan_pages buf len off =
        scan_pages buf len (off + (4 + 256 * unat (buf ! (off + 2)) + unat (buf ! (off + 3))))"
      using assms(2) by (simp add: scan_pages.simps [of buf len off] at Let_def add.assoc)
    then show ?thesis by (intro disjI2 exI conjI) auto
  next
    case short
    have "1 < len - off" using short(3) by simp
    with short have "scan_pages buf len off = scan_pages buf len (off + (2 + unat (buf ! (off + 1))))"
      using assms(2) by (simp add: scan_pages.simps [of buf len off] at Let_def add.assoc)
    then show ?thesis by (intro disjI2 exI [of _ "2 + unat (buf ! (off + 1))"]) simp
  next
    case bad
    then show ?thesis
      using assms(2) by (auto simp: scan_pages.simps [of buf len off] at Let_def page_ok_def)
  qed
qed

text \<open>
  C21. The walk over the mode pages ends without reading outside the bytes it was given, whatever
  they hold; a caching page it stops at has its first three bytes inside.
\<close>

theorem mode_pages_in_bounds:
  assumes "len \<le> length buf"
  shows "\<exists>r. scan_pages buf len off = Some r \<and> page_ok buf len off r"
proof (induction "len - off" arbitrary: off rule: less_induct)
  case less
  show ?case
  proof (cases "off < len")
    case True
    from scan_pages_step [OF assms True] show ?thesis
    proof (elim disjE exE conjE)
      fix n :: nat
      assume n: "0 < n" "scan_pages buf len off = scan_pages buf len (off + n)"
      have "len - (off + n) < len - off" using n(1) True by simp
      from less [OF this] obtain r where "scan_pages buf len (off + n) = Some r" "page_ok buf len (off + n) r"
        by blast
      then show ?thesis using n(2) page_ok_mono by metis
    qed auto
  qed (simp add: scan_pages.simps page_ok_def)
qed

theorem mode_pages_in_bounds_witness:
  "\<exists>r. scan_pages [0, 0, 0, 0, 8, 10, 4] 7 4 = Some r"
  using mode_pages_in_bounds [of 7 "[0, 0, 0, 0, 8, 10, 4]" 4] by auto

text \<open>
  C29. What follows the walk does not keep to the bytes: where a page announces more bytes than the
  answer has, the walk ends behind the buffer, and the test whether the page there is the one that
  was asked for reads outside.
\<close>

definition long_page_env :: "ram_disk sd_env" where
  "long_page_env = ram_sd_env\<lparr>scsi_mode_sense := \<lambda>_ _ buf n w. (0, [0, 0, 0, 0, 0x41, 0, 0xff, 0xff],
     \<lparr>md_length = 20, block_descriptor_length = 0, device_specific = 0, header_length = 4\<rparr>, w)\<rparr>"

lemma long_page_walk:
  assumes "length buf = 512" "buf ! 4 = 0x41" "buf ! 6 = 0xff" "buf ! 7 = 0xff"
  shows "scan_pages buf 20 4 = Some (Pages_end 65543)"
  using assms by (subst scan_pages.simps) (simp add: byte_at_def Let_def scan_pages.simps [of _ _ 65543])


end
