(* ===== verification/Spec2Isabelle.thy ===== *)
theory Spec2Isabelle
  imports Core_Init Sd_Scan_Props
begin

text \<open>
  A verification development for the bad-sector swap module of the SCSI disk driver.

  The module reserves the end of a disk and keeps there replacement blocks for 64 KiB blocks of
  the user area that contain unreadable or unwritable sectors. Theories, in import order:

  \<^item> \<open>Swap_Prelude\<close>: machine types, byte encodings, bounded copies.
  \<^item> \<open>Crc32\<close>: \<^verbatim>\<open>drivers/scsi/swap/crc32.c\<close>.
  \<^item> \<open>Ring\<close>: \<^verbatim>\<open>drivers/scsi/swap/ring.h\<close>.
  \<^item> \<open>Sysfs_Text\<close>, \<open>Sim\<close>: the text files and the simulated bad sectors.
  \<^item> \<open>Swap_State\<close>, \<open>Utils\<close>, \<open>Ram_Disk\<close>: the structures, the commands sent to the disk, and a
    concrete disk.
\<close>

end
